(* ===== verification/GoPrelude.thy ===== *)
theory GoPrelude
  imports Main "HOL-Library.Word" "HOL-Library.Multiset"
begin

text \<open>
  The vocabulary every component shares: Go's 64-bit integers with their wrap-around, the
  truncating integer division, maps as association lists in their iteration order, time stamps and
  the saturating difference of two of them, the strict less-than tests of a Go sort, and the list
  lemmas the component proofs use.

  Integers. Go's \<^verbatim>\<open>int\<close> and \<^verbatim>\<open>int64\<close> are 64-bit two's complement values on the platforms
  the scheduler is built for.  They are modelled as \<^verbatim>\<open>int\<close> with the wrap-around written out by
  \<^verbatim>\<open>wrap64\<close>, which is proved below to be the signed reading of the 64-bit word.  The length of
  an in-memory slice is far below the bound, so a counter that counts the elements of one slice is
  not wrapped.

  Maps. A Go map is an association list with distinct keys; the order of the list is the order in
  which a \<^verbatim>\<open>range\<close> loop visits it, which Go leaves open, so a theorem for every list is a
  theorem for every order.
\<close>

named_theorems go_arith \<open>unwrapping of 64-bit arithmetic that does not overflow\<close>

section \<open>64-bit integers\<close>

definition wrap64 :: "int \<Rightarrow> int" where
  "wrap64 x = (x + 2 ^ 63) mod 2 ^ 64 - 2 ^ 63"

definition i64 :: "int \<Rightarrow> bool" where
  "i64 x \<longleftrightarrow> - (2 ^ 63) \<le> x \<and> x < 2 ^ 63"

lemma wrap64_id [go_arith]: "i64 x \<Longrightarrow> wrap64 x = x"
  by (simp add: wrap64_def i64_def)

lemma i64_wrap64 [simp, intro!]: "i64 (wrap64 x)"
proof -
  have "0 \<le> (x + 2 ^ 63) mod 2 ^ 64" "(x + 2 ^ 63) mod 2 ^ 64 < (2 ^ 64 :: int)"
    by (rule pos_mod_sign, simp, rule pos_mod_bound, simp)
  then show ?thesis by (simp add: wrap64_def i64_def)
qed

lemma i64I: "- 9223372036854775808 \<le> x \<Longrightarrow> x < 9223372036854775808 \<Longrightarrow> i64 x"
  by (simp add: i64_def)

lemma i64D: "i64 x \<Longrightarrow> - 9223372036854775808 \<le> x \<and> x < 9223372036854775808"
  by (simp add: i64_def)

lemma wrap64_0 [simp]: "wrap64 0 = 0"
  by (simp add: wrap64_def)

lemma wrap64_add_left [simp]: "wrap64 (wrap64 a + b) = wrap64 (a + b)"
  unfolding wrap64_def by (simp add: mod_simps algebra_simps)

lemma wrap64_add_right [simp]: "wrap64 (a + wrap64 b) = wrap64 (a + b)"
  using wrap64_add_left [of b a] by (simp add: add.commute)

lemma wrap64_mult_left [simp]: "wrap64 (wrap64 a * b) = wrap64 (a * b)"
proof -
  define k where "k = (a + 2 ^ 63) div 2 ^ 64"
  have "wrap64 a = a - 2 ^ 64 * k"
    using mult_div_mod_eq [of "2 ^ 64" "a + 2 ^ 63"] unfolding wrap64_def k_def by linarith
  then have "wrap64 a * b + 2 ^ 63 = (a * b + 2 ^ 63) + 2 ^ 64 * (- (k * b))" by (simp only:) (simp add: algebra_simps)
  then show ?thesis unfolding wrap64_def [of "wrap64 a * b"] wrap64_def [of "a * b"] by (simp only: mod_mult_self2)
qed

text \<open>The wrap-around is exactly that of the machine word.\<close>

lemma wrap64_word: "wrap64 x = sint (word_of_int x :: 64 word)"
  by (simp add: wrap64_def sint_sbintrunc' signed_take_bit_eq_take_bit_shift take_bit_eq_mod)

definition sum64 :: "int list \<Rightarrow> int" where
  "sum64 xs = foldl (\<lambda>acc x. wrap64 (acc + x)) 0 xs"

lemma foldl_wrap64:
  "foldl (\<lambda>acc x. wrap64 (acc + x)) (wrap64 a) xs = wrap64 (a + sum_list xs)"
  by (induction xs arbitrary: a) (simp_all add: add.assoc)

lemma sum64_wrap: "sum64 xs = wrap64 (sum_list xs)"
  using foldl_wrap64 [of 0 xs] by (simp add: sum64_def)

lemma sum64_eq [go_arith]: "i64 (sum_list xs) \<Longrightarrow> sum64 xs = sum_list xs"
  by (simp add: sum64_wrap wrap64_id)

lemma i64_sum64 [simp, intro!]: "i64 (sum64 xs)"
  by (simp add: sum64_wrap)

lemma sum64_Nil [simp]: "sum64 [] = 0"
  by (simp add: sum64_def)

lemma sum64_perm: "mset xs = mset ys \<Longrightarrow> sum64 xs = sum64 ys"
  by (metis sum64_wrap sum_mset_sum_list)

text \<open>Go's \<^verbatim>\<open>/\<close> on integers truncates towards zero; the code guards its divisors.\<close>

definition quot :: "int \<Rightarrow> int \<Rightarrow> int" where
  "quot a b = sgn a * sgn b * (\<bar>a\<bar> div \<bar>b\<bar>)"

lemma quot_nonneg [simp]: "0 \<le> a \<Longrightarrow> 0 < b \<Longrightarrow> quot a b = a div b"
  by (cases "a = 0") (simp_all add: quot_def)

section \<open>Maps\<close>

type_synonym 'v gomap = "(string \<times> 'v) list"

abbreviation lookup :: "('k \<times> 'v) list \<Rightarrow> 'k \<Rightarrow> 'v option" where
  "lookup m k \<equiv> map_of m k"

text \<open>A read of a missing key gives the zero value: the empty string.\<close>

definition lookup_str :: "string gomap \<Rightarrow> string \<Rightarrow> string" where
  "lookup_str m k = (case lookup m k of None \<Rightarrow> '''' | Some v \<Rightarrow> v)"

definition has_key :: "('k \<times> 'v) list \<Rightarrow> 'k \<Rightarrow> bool" where
  "has_key m k \<longleftrightarrow> lookup m k \<noteq> None"

text \<open>
  A read that counts only when the key is present with a value other than the empty string, the
  test \<^verbatim>\<open>!exists || s == ""\<close> of the source.
\<close>

definition lookup_nonempty :: "string gomap \<Rightarrow> string \<Rightarrow> string option" where
  "lookup_nonempty m k =
     (case lookup m k of None \<Rightarrow> None | Some s \<Rightarrow> if s = '''' then None else Some s)"

lemma lookup_nonempty_not_empty [simp]: "lookup_nonempty m k \<noteq> Some ''''"
  by (simp add: lookup_nonempty_def split: option.splits)

lemma lookup_nonemptyD: "lookup_nonempty m k = Some s \<Longrightarrow> lookup m k = Some s \<and> s \<noteq> ''''"
  by (simp add: lookup_nonempty_def split: option.splits if_splits)

section \<open>Time\<close>

text \<open>
  A time is a number of nanoseconds; \<^verbatim>\<open>t.Sub(u)\<close> is the difference saturated at the bounds
  of a \<^verbatim>\<open>Duration\<close>.
\<close>

type_synonym time = int
type_synonym duration = int

definition time_sub :: "time \<Rightarrow> time \<Rightarrow> duration" where
  "time_sub a b = max (- (2 ^ 63)) (min (2 ^ 63 - 1) (a - b))"

definition seconds :: "int \<Rightarrow> duration" where
  "seconds n = n * 1000000000"

lemma time_sub_mono: "b \<le> b' \<Longrightarrow> time_sub a b' \<le> time_sub a b"
  by (simp add: time_sub_def)

lemma time_sub_gt_iff: "0 \<le> d \<Longrightarrow> d < 2 ^ 63 - 1 \<Longrightarrow> time_sub a b > d \<longleftrightarrow> a - b > d"
  by (auto simp: time_sub_def)

lemma time_sub_less_iff: "0 < d \<Longrightarrow> d \<le> 2 ^ 63 - 1 \<Longrightarrow> time_sub a b < d \<longleftrightarrow> a - b < d"
  by (auto simp: time_sub_def)

section \<open>Lists\<close>

text \<open>Counting the elements of a slice that satisfy a test.\<close>

definition count_if :: "('a \<Rightarrow> bool) \<Rightarrow> 'a list \<Rightarrow> int" where
  "count_if P xs = int (length (filter P xs))"

lemma count_if_simps [simp]:
  "count_if P [] = 0"
  "count_if P (x # xs) = (if P x then 1 + count_if P xs else count_if P xs)"
  by (simp_all add: count_if_def)

lemma count_if_append [simp]: "count_if P (xs @ ys) = count_if P xs + count_if P ys"
  by (simp add: count_if_def)

lemma count_if_nonneg [simp, intro!]: "0 \<le> count_if P xs"
  by (simp add: count_if_def)

lemma count_if_le_length: "count_if P xs \<le> int (length xs)"
  by (simp add: count_if_def)

lemma count_if_le: "(\<And>x. x \<in> set xs \<Longrightarrow> P x \<Longrightarrow> Q x) \<Longrightarrow> count_if P xs \<le> count_if Q xs"
  by (induction xs) auto

lemma count_if_all: "(\<And>x. x \<in> set xs \<Longrightarrow> P x) \<Longrightarrow> count_if P xs = int (length xs)"
  by (simp add: count_if_def)

lemma count_if_none: "(\<And>x. x \<in> set xs \<Longrightarrow> \<not> P x) \<Longrightarrow> count_if P xs = 0"
  by (induction xs) auto

lemma count_if_pos_iff: "0 < count_if P xs \<longleftrightarrow> (\<exists>x \<in> set xs. P x)"
  by (induction xs) (auto intro: add_pos_nonneg simp: add_strict_increasing)

lemma count_if_remove1:
  "x \<in> set xs \<Longrightarrow> distinct xs \<Longrightarrow> count_if (\<lambda>y. y \<noteq> x \<and> P y) xs = count_if P xs - (if P x then 1 else 0)"
proof (induction xs)
  case (Cons y ys)
  show ?case
  proof (cases "y = x")
    case True
    with Cons.prems have "count_if (\<lambda>y. y \<noteq> x \<and> P y) ys = count_if P ys"
      by (auto simp: count_if_def intro!: arg_cong [where f = length] filter_cong)
    with True show ?thesis by simp
  next
    case False
    with Cons show ?thesis by auto
  qed
qed simp

lemma filter_map_of_distinct:
  "distinct (map fst m) \<Longrightarrow> lookup (filter (\<lambda>(k, v). P k v) m) k =
     (case lookup m k of None \<Rightarrow> None | Some v \<Rightarrow> if P k v then Some v else None)"
  by (induction m) (auto split: option.splits simp: map_of_eq_None_iff image_iff)

end
