(* ===== verification/GoFloat.thy ===== *)
theory GoFloat
  imports Complex_Main GoPrelude "HOL-Library.Log_Nat"
begin

text \<open>
  Go's \<^verbatim>\<open>float64\<close>: IEEE 754 binary64 with round-to-nearest, ties-to-even, over the rationals.
  A finite value is the rational it stands for; the two zeros are identified (no computation of the
  scheduler divides by a value that can be a negative zero).  Every arithmetic operation is the
  exact rational operation followed by one rounding, as IEEE 754 and Go on amd64 (where no fused
  multiply-add is used) prescribe, with overflow to an infinity, \<^verbatim>\<open>0/0 = NaN\<close> and
  comparisons that are false on \<^verbatim>\<open>NaN\<close>.

  \<^verbatim>\<open>fl\<close> is the rounding of a rational to 53 significant bits with the exponent bounded below
  (subnormals included).  The two facts the score proofs rest on are that it is monotone and that
  it does not change a value \<^verbatim>\<open>m * 2^k\<close> with at most 53 significant bits.
\<close>

named_theorems go_float \<open>evaluation of float64 operations on finite values\<close>

section \<open>Rounding to an integer, ties to even\<close>

definition rne :: "rat \<Rightarrow> int" where
  "rne y = (let f = \<lfloor>y\<rfloor>; r = y - of_int f
            in if r < 1 / 2 then f
               else if r > 1 / 2 then f + 1
               else if even f then f else f + 1)"

lemma rne_of_int [simp]: "rne (of_int n) = n"
  by (simp add: rne_def)

lemma rne_bounds: "\<lfloor>y\<rfloor> \<le> rne y \<and> rne y \<le> \<lfloor>y\<rfloor> + 1"
  by (auto simp: rne_def Let_def)

lemma rne_mono:
  assumes "x \<le> y"
  shows "rne x \<le> rne y"
proof (cases "\<lfloor>x\<rfloor> = \<lfloor>y\<rfloor>")
  case True
  have "x - of_int \<lfloor>x\<rfloor> \<le> y - of_int \<lfloor>y\<rfloor>" using assms True by simp
  with True show ?thesis by (auto simp: rne_def Let_def)
next
  case False
  with assms have "\<lfloor>x\<rfloor> + 1 \<le> \<lfloor>y\<rfloor>" using floor_mono [OF assms] by linarith
  with rne_bounds [of x] rne_bounds [of y] show ?thesis by linarith
qed

lemma rne_minus: "rne (- y) = - rne y"
proof (cases "y = of_int \<lfloor>y\<rfloor>")
  case True
  then have "rne (- y) = rne (of_int (- \<lfloor>y\<rfloor>))" by simp
  also have "\<dots> = - rne (of_int \<lfloor>y\<rfloor>)" by (simp only: rne_of_int)
  finally show ?thesis using True by simp
next
  case False
  have "y < of_int (\<lfloor>y\<rfloor> + 1)" using floor_correct [of y] by simp
  moreover have "of_int \<lfloor>y\<rfloor> < y" by (metis False less_le of_int_floor_le)
  ultimately have fl: "\<lfloor>- y\<rfloor> = - \<lfloor>y\<rfloor> - 1" by (intro floor_unique) auto
  then have r: "- y - of_int \<lfloor>- y\<rfloor> = 1 - (y - of_int \<lfloor>y\<rfloor>)" by simp
  show ?thesis unfolding rne_def Let_def r fl by auto
qed

lemma rne_unique: "of_int n - 1 / 2 < y \<Longrightarrow> y < of_int n + 1 / 2 \<Longrightarrow> rne y = n"
proof -
  assume a: "of_int n - 1 / 2 < y" "y < of_int n + 1 / 2"
  show ?thesis
  proof (cases "of_int n \<le> y")
    case True
    with a have "\<lfloor>y\<rfloor> = n" by (intro floor_unique) auto
    with a show ?thesis by (simp add: rne_def)
  next
    case False
    with a have "\<lfloor>y\<rfloor> = n - 1" by (intro floor_unique) auto
    with a show ?thesis by (simp add: rne_def)
  qed
qed

section \<open>The binary exponent\<close>

definition expo :: "rat \<Rightarrow> int" where
  "expo x = (let (p, q) = quotient_of x; k = bitlen p - bitlen q
             in if 2 powi k \<le> x then k else k - 1)"

lemma powi2_pos [simp]: "(0::rat) < 2 powi k"
  by (simp add: zero_less_power_int)

lemma powi2_le_iff [simp]: "(2::rat) powi a \<le> 2 powi b \<longleftrightarrow> a \<le> b"
  using power_int_increasing [of a b "2::rat"] power_int_strict_increasing [of b a "2::rat"]
  by (meson linorder_not_le not_less one_le_numeral one_less_numeral_iff semiring_norm(76))

lemma powi2_less_iff [simp]: "(2::rat) powi a < 2 powi b \<longleftrightarrow> a < b"
  using powi2_le_iff [of b a] by linarith

lemma powi2_add: "(2::rat) powi (a + b) = 2 powi a * 2 powi b"
  by (simp add: power_int_add)

lemma powi2_diff: "(2::rat) powi (a - b) = 2 powi a / 2 powi b"
  by (simp add: power_int_diff)

lemma powi2_nat: "0 \<le> k \<Longrightarrow> (2::rat) powi k = of_int (2 ^ nat k)"
  by (simp add: power_int_def)

lemma bitlen_powi:
  assumes "0 < p"
  shows "2 powi (bitlen p - 1) \<le> (of_int p :: rat) \<and> (of_int p :: rat) < 2 powi bitlen p"
proof -
  have b: "0 \<le> bitlen p - 1" using assms by (simp add: bitlen_alt_def)
  have "2 ^ nat (bitlen p - 1) \<le> p" "p < 2 ^ nat (bitlen p)" using bitlen_bounds [OF assms] by auto
  then have "(of_int (2 ^ nat (bitlen p - 1)) :: rat) \<le> of_int p"
    "(of_int p :: rat) < of_int (2 ^ nat (bitlen p))" by (simp_all only: of_int_le_iff of_int_less_iff)
  then show ?thesis using b by (simp only: powi2_nat bitlen_nonneg)
qed

lemma expo_bounds:
  assumes "0 < x"
  shows "2 powi expo x \<le> x \<and> x < 2 powi (expo x + 1)"
proof -
  obtain p q where pq: "quotient_of x = (p, q)" by (cases "quotient_of x")
  have q: "0 < q" and x: "x = of_int p / of_int q"
    using quotient_of_denom_pos [OF pq] quotient_of_div [OF pq] by auto
  have p: "0 < p" using assms q x by (simp add: zero_less_divide_iff)
  define k where "k = bitlen p - bitlen q"
  have P: "2 powi (bitlen p - 1) \<le> (of_int p :: rat)" "(of_int p :: rat) < 2 powi bitlen p"
    and Q: "2 powi (bitlen q - 1) \<le> (of_int q :: rat)" "(of_int q :: rat) < 2 powi bitlen q"
    using bitlen_powi [OF p] bitlen_powi [OF q] by auto
  have q': "(0::rat) < of_int q" using q by simp
  have "2 powi (k - 1) * of_int q \<le> 2 powi (k - 1) * (2 powi bitlen q :: rat)"
    using Q(2) by (intro mult_left_mono) auto
  also have "\<dots> = 2 powi (bitlen p - 1)" by (simp add: k_def flip: powi2_add)
  finally have lo: "2 powi (k - 1) \<le> x" using P(1) q' by (simp add: x pos_le_divide_eq)
  have "2 powi bitlen p = 2 powi (k + 1) * (2 powi (bitlen q - 1) :: rat)"
    by (simp add: k_def flip: powi2_add)
  also have "\<dots> \<le> 2 powi (k + 1) * of_int q" using Q(1) by (intro mult_left_mono) auto
  finally have hi: "x < 2 powi (k + 1)" using P(2) q' by (simp add: x pos_divide_less_eq)
  have "expo x = (if 2 powi k \<le> x then k else k - 1)" by (simp add: expo_def pq k_def)
  with lo hi show ?thesis by auto
qed

lemma expo_unique:
  assumes "2 powi e \<le> x" "x < 2 powi (e + 1)"
  shows "expo x = e"
proof -
  have "0 < x" using assms(1) powi2_pos [of e] by linarith
  then have "2 powi expo x \<le> x" "x < 2 powi (expo x + 1)" using expo_bounds by auto
  with assms have "(2::rat) powi expo x < 2 powi (e + 1)" "(2::rat) powi e < 2 powi (expo x + 1)"
    by linarith+
  then show ?thesis by simp
qed

lemma expo_mono: "0 < x \<Longrightarrow> x \<le> y \<Longrightarrow> expo x \<le> expo y"
proof -
  assume a: "0 < x" "x \<le> y"
  then have "2 powi expo x \<le> x" "y < 2 powi (expo y + 1)" using expo_bounds [of x] expo_bounds [of y] by auto
  with a have "(2::rat) powi expo x < 2 powi (expo y + 1)" by linarith
  then show ?thesis by simp
qed

section \<open>Rounding to binary64\<close>

definition quantum :: "rat \<Rightarrow> int" where
  "quantum x = max (expo x - 52) (- 1074)"

definition fl :: "rat \<Rightarrow> rat" where
  "fl x = (if x = 0 then 0
           else let q = quantum \<bar>x\<bar> in of_int (rne (x / 2 powi q)) * 2 powi q)"

lemma fl_0 [simp]: "fl 0 = 0"
  by (simp add: fl_def)

lemma fl_minus: "fl (- x) = - fl x"
  by (simp add: fl_def rne_minus Let_def)

lemma fl_nonneg: "0 \<le> x \<Longrightarrow> 0 \<le> fl x"
proof -
  assume a: "0 \<le> x"
  have "rne 0 \<le> rne (x / 2 powi quantum x)" using a by (intro rne_mono) simp
  moreover have "rne 0 = 0" using rne_of_int [of 0] by simp
  ultimately show ?thesis using a by (simp add: fl_def Let_def)
qed

lemma fl_mono_pos:
  assumes "0 < x" "x \<le> y"
  shows "fl x \<le> fl y"
proof -
  define qx where "qx = quantum x"
  define qy where "qy = quantum y"
  have y: "0 < y" using assms by simp
  have fx: "fl x = of_int (rne (x / 2 powi qx)) * 2 powi qx" and fy: "fl y = of_int (rne (y / 2 powi qy)) * 2 powi qy"
    using assms y by (simp_all add: fl_def qx_def qy_def Let_def)
  have "qx \<le> qy" using expo_mono [OF assms] by (simp add: qx_def qy_def quantum_def)
  then consider "qx = qy" | "qx < qy" by linarith
  then show ?thesis
  proof cases
    case 1
    have "rne (x / 2 powi qx) \<le> rne (y / 2 powi qx)"
      using assms(2) by (intro rne_mono divide_right_mono) (simp_all add: order_less_imp_le)
    then show ?thesis unfolding fx fy using 1 by (simp add: mult_right_mono order_less_imp_le)
  next
    case 2
    then have ey: "expo y = qy + 52" by (auto simp: qx_def qy_def quantum_def)
    have ex: "expo x + 1 \<le> qy + 52" using 2 by (auto simp: qx_def qy_def quantum_def)
    define N where "N = (2::int) ^ nat (qy + 52 - qx)"
    have N: "(of_int N :: rat) = 2 powi (qy + 52 - qx)" using 2 by (simp add: N_def powi2_nat)
    have "x < 2 powi (expo x + 1)" using expo_bounds [OF assms(1)] by simp
    also have "\<dots> \<le> 2 powi (qy + 52)" using ex by simp
    finally have "x / 2 powi qx \<le> of_int N" by (simp add: N powi2_diff divide_right_mono)
    then have "rne (x / 2 powi qx) \<le> N" using rne_mono [of _ "of_int N"] by simp
    then have "fl x \<le> of_int N * 2 powi qx" unfolding fx by (simp add: mult_right_mono order_less_imp_le)
    also have "\<dots> = 2 powi (qy + 52)" by (simp add: N flip: powi2_add)
    also have "\<dots> = of_int (2 ^ 52) * 2 powi qy" by (simp add: powi2_add)
    also have "\<dots> \<le> fl y"
    proof -
      have "2 powi (qy + 52) \<le> y" using expo_bounds [OF y] ey by simp
      then have "of_int (2 ^ 52) \<le> y / 2 powi qy" by (simp add: powi2_add pos_le_divide_eq mult.commute)
      then have "2 ^ 52 \<le> rne (y / 2 powi qy)" using rne_mono [of "of_int (2 ^ 52)"] by (metis rne_of_int)
      then have "(of_int (2 ^ 52) :: rat) \<le> of_int (rne (y / 2 powi qy))" by (simp only: of_int_le_iff)
      then show ?thesis unfolding fy by (intro mult_right_mono) (simp_all add: order_less_imp_le)
    qed
    finally show ?thesis .
  qed
qed

theorem fl_mono: "x \<le> y \<Longrightarrow> fl x \<le> fl y"
proof -
  assume a: "x \<le> y"
  consider "0 < x" | "x = 0" | "x < 0" "0 \<le> y" | "y < 0" by linarith
  then show ?thesis
  proof cases
    case 1 then show ?thesis using a by (rule fl_mono_pos)
  next
    case 2 then show ?thesis using a fl_nonneg [of y] by simp
  next
    case 3 then show ?thesis using fl_nonneg [of y] fl_nonneg [of "- x"] by (simp add: fl_minus)
  next
    case 4
    then have "fl (- y) \<le> fl (- x)" using a by (intro fl_mono_pos) auto
    then show ?thesis by (simp add: fl_minus)
  qed
qed

section \<open>Exactly representable values\<close>

lemma fl_exact_pos:
  assumes "0 < m" "m \<le> 2 ^ 53" "- 1074 \<le> k"
  shows "fl (of_int m * 2 powi k) = of_int m * 2 powi k"
proof -
  define x where "x = (of_int m * 2 powi k :: rat)"
  define q where "q = quantum x"
  have x: "0 < x" using assms(1) by (simp add: x_def)
  have eq: "fl x = of_int (rne (x / 2 powi q)) * 2 powi q" using x by (simp add: fl_def q_def Let_def)
  show ?thesis
  proof (cases "q \<le> k")
    case True
    have "x / 2 powi q = of_int (m * 2 ^ nat (k - q))"
    proof -
      have "x / 2 powi q = of_int m * 2 powi (k - q)" by (simp add: x_def powi2_diff)
      also have "2 powi (k - q) = (of_int (2 ^ nat (k - q)) :: rat)" using True by (intro powi2_nat) simp
      finally show ?thesis by (simp only: of_int_mult)
    qed
    then have "of_int (rne (x / 2 powi q)) = x / 2 powi q" by (simp only: rne_of_int)
    then have "fl x = x" by (simp add: eq)
    then show ?thesis by (simp only: x_def)
  next
    case False
    then have q: "q = expo x - 52" using assms(3) by (simp add: q_def quantum_def)
    have "2 powi expo x \<le> x" using expo_bounds [OF x] by simp
    moreover have "x \<le> of_int (2 ^ 53) * 2 powi k"
      unfolding x_def using assms(2) by (intro mult_right_mono) (simp_all only: of_int_le_iff powi2_pos order_less_imp_le)
    moreover have "of_int (2 ^ 53) * 2 powi k = (2 powi (k + 53) :: rat)" by (simp add: powi2_add)
    ultimately have "(2::rat) powi expo x \<le> 2 powi (k + 53)" by linarith
    then have e: "expo x = k + 53" and k: "q = k + 1" using False q by auto
    have "2 powi (k + 53) \<le> x" using expo_bounds [OF x] e by simp
    then have "of_int (2 ^ 53) \<le> (of_int m :: rat)" by (simp add: x_def powi2_add mult.commute)
    then have "m = 2 ^ 53" using assms(2) by (simp only: of_int_le_iff)
    then have "x / 2 powi q = of_int (2 ^ 52)" by (simp add: x_def k powi2_add)
    then have "of_int (rne (x / 2 powi q)) = x / 2 powi q" by (simp only: rne_of_int)
    then have "fl x = x" by (simp add: eq)
    then show ?thesis by (simp only: x_def)
  qed
qed

theorem fl_exact:
  assumes "\<bar>m\<bar> \<le> 2 ^ 53" "- 1074 \<le> k"
  shows "fl (of_int m * 2 powi k) = of_int m * 2 powi k"
proof -
  consider "m = 0" | "0 < m" | "m < 0" by linarith
  then show ?thesis
  proof cases
    case 3
    then have "fl (of_int (- m) * 2 powi k) = of_int (- m) * 2 powi k"
      using assms by (intro fl_exact_pos) auto
    then show ?thesis using fl_minus [of "of_int m * 2 powi k"] by simp
  qed (use assms fl_exact_pos in auto)
qed

lemma fl_of_int: "\<bar>n\<bar> \<le> 2 ^ 53 \<Longrightarrow> fl (of_int n) = of_int n"
  using fl_exact [of n 0] by simp

lemma fl_numeral [go_float]: "numeral w \<le> (9007199254740992 :: int) \<Longrightarrow> fl (numeral w) = numeral w"
  using fl_of_int [of "numeral w"] by simp

lemma fl_1 [simp]: "fl 1 = 1"
  using fl_of_int [of 1] by simp

lemma fl_le_int: "\<bar>n\<bar> \<le> 2 ^ 53 \<Longrightarrow> x \<le> of_int n \<Longrightarrow> fl x \<le> of_int n"
  using fl_mono [of x "of_int n"] fl_of_int [of n] by simp

lemma fl_ge_int: "\<bar>n\<bar> \<le> 2 ^ 53 \<Longrightarrow> of_int n \<le> x \<Longrightarrow> of_int n \<le> fl x"
  using fl_mono [of "of_int n" x] fl_of_int [of n] by simp

lemma fl_pos_iff: "0 < x \<Longrightarrow> 2 powi (- 1074) \<le> x \<Longrightarrow> 0 < fl x"
proof -
  assume "0 < x" "2 powi (- 1074) \<le> x"
  then have "fl (of_int 1 * 2 powi (- 1074)) \<le> fl x" by (intro fl_mono) simp
  moreover have "fl (of_int 1 * 2 powi (- 1074)) = of_int 1 * 2 powi (- 1074)" by (intro fl_exact) simp_all
  ultimately have "(2::rat) powi (- 1074) \<le> fl x" by (simp only: of_int_1 mult_1)
  then show ?thesis using powi2_pos [of "- 1074"] by linarith
qed

lemma fl_eqI:
  assumes "2 powi e \<le> x" "x < 2 powi (e + 1)" "q = max (e - 52) (- 1074)"
    "of_int m - 1 / 2 < x / 2 powi q" "x / 2 powi q < of_int m + 1 / 2"
  shows "fl x = of_int m * 2 powi q"
proof -
  have "x \<noteq> 0" "\<bar>x\<bar> = x" using assms(1) powi2_pos [of e] by linarith+
  moreover have "quantum x = q" using expo_unique [OF assms(1,2)] assms(3) by (simp add: quantum_def)
  moreover have "rne (x / 2 powi q) = m" using assms(4,5) by (rule rne_unique)
  ultimately show ?thesis by (simp add: fl_def)
qed

section \<open>The type of float64 values and its operations\<close>

datatype float64 = Fin rat | Inf bool | NaN

definition to_f64 :: "rat \<Rightarrow> float64" where
  "to_f64 x = (let r = fl x in if \<bar>r\<bar> < 2 ^ 1024 then Fin r else Inf (0 < r))"

definition f_int :: "int \<Rightarrow> float64" where
  "f_int n = to_f64 (of_int n)"

fun fneg :: "float64 \<Rightarrow> float64" where
  "fneg (Fin x) = Fin (- x)"
| "fneg (Inf s) = Inf (\<not> s)"
| "fneg NaN = NaN"

fun fadd :: "float64 \<Rightarrow> float64 \<Rightarrow> float64" where
  "fadd (Fin x) (Fin y) = to_f64 (x + y)"
| "fadd (Inf s) (Fin y) = Inf s"
| "fadd (Fin x) (Inf t) = Inf t"
| "fadd (Inf s) (Inf t) = (if s = t then Inf s else NaN)"
| "fadd NaN _ = NaN"
| "fadd _ NaN = NaN"

definition fsub :: "float64 \<Rightarrow> float64 \<Rightarrow> float64" where
  "fsub a b = fadd a (fneg b)"

fun fmul :: "float64 \<Rightarrow> float64 \<Rightarrow> float64" where
  "fmul (Fin x) (Fin y) = to_f64 (x * y)"
| "fmul (Inf s) (Fin y) = (if y = 0 then NaN else Inf (s \<longleftrightarrow> 0 < y))"
| "fmul (Fin x) (Inf t) = (if x = 0 then NaN else Inf (t \<longleftrightarrow> 0 < x))"
| "fmul (Inf s) (Inf t) = Inf (s \<longleftrightarrow> t)"
| "fmul NaN _ = NaN"
| "fmul _ NaN = NaN"

fun fdiv :: "float64 \<Rightarrow> float64 \<Rightarrow> float64" where
  "fdiv (Fin x) (Fin y) =
     (if y = 0 then (if x = 0 then NaN else Inf (0 < x)) else to_f64 (x / y))"
| "fdiv (Inf s) (Fin y) = Inf (s \<longleftrightarrow> 0 \<le> y)"
| "fdiv (Fin x) (Inf t) = Fin 0"
| "fdiv (Inf s) (Inf t) = NaN"
| "fdiv NaN _ = NaN"
| "fdiv _ NaN = NaN"

fun flt :: "float64 \<Rightarrow> float64 \<Rightarrow> bool" where
  "flt (Fin x) (Fin y) \<longleftrightarrow> x < y"
| "flt (Fin x) (Inf t) \<longleftrightarrow> t"
| "flt (Inf s) (Fin y) \<longleftrightarrow> \<not> s"
| "flt (Inf s) (Inf t) \<longleftrightarrow> \<not> s \<and> t"
| "flt NaN _ \<longleftrightarrow> False"
| "flt _ NaN \<longleftrightarrow> False"

fun feq :: "float64 \<Rightarrow> float64 \<Rightarrow> bool" where
  "feq NaN _ \<longleftrightarrow> False"
| "feq _ NaN \<longleftrightarrow> False"
| "feq a b \<longleftrightarrow> a = b"

definition fge :: "float64 \<Rightarrow> float64 \<Rightarrow> bool" where
  "fge a b \<longleftrightarrow> flt b a \<or> feq a b"

text \<open>\<^verbatim>\<open>math.Min\<close>.\<close>

definition fmin :: "float64 \<Rightarrow> float64 \<Rightarrow> float64" where
  "fmin a b = (if a = Inf False \<or> b = Inf False then Inf False
               else if a = NaN \<or> b = NaN then NaN
               else if flt a b then a else b)"

text \<open>
  The conversion \<^verbatim>\<open>int64(f)\<close> truncates towards zero; a value that does not fit (and
  \<^verbatim>\<open>NaN\<close>) converts to the least integer, as on amd64.
\<close>

definition trunc :: "rat \<Rightarrow> int" where
  "trunc x = (if 0 \<le> x then \<lfloor>x\<rfloor> else \<lceil>x\<rceil>)"

fun f_to_int :: "float64 \<Rightarrow> int" where
  "f_to_int (Fin x) = (if i64 (trunc x) then trunc x else - (2 ^ 63))"
| "f_to_int _ = - (2 ^ 63)"

section \<open>Evaluation of the operations\<close>

text \<open>
  Below \<^verbatim>\<open>10^30\<close>, more than any value the scheduler computes from 64-bit integers, nothing
  overflows, and an operation is the rounded rational operation.
\<close>

lemma to_f64_Fin [go_float]:
  assumes "\<bar>x\<bar> \<le> 1000000000000000000000000000000"
  shows "to_f64 x = Fin (fl x)"
proof -
  have "(1000000000000000000000000000000 :: rat) \<le> 2 powi 100" by (simp add: powi2_nat)
  with assms have x: "x \<le> 2 powi 100" "- x \<le> 2 powi 100" by (simp_all only: abs_le_iff) linarith+
  have e: "fl (2 powi 100) = 2 powi 100" using fl_exact [of 1 100] by simp
  have "fl x \<le> 2 powi 100" "- fl x \<le> 2 powi 100"
    using fl_mono [OF x(1)] fl_mono [OF x(2)] by (simp_all only: e fl_minus)
  moreover have "(2::rat) powi 100 < 2 ^ 1024" using powi2_less_iff [of 100 1024] by simp
  ultimately have "\<bar>fl x\<bar> < 2 ^ 1024" by linarith
  then show ?thesis by (simp add: to_f64_def)
qed

text \<open>For evaluation: the bound is compared only when the value is large.\<close>

lemma to_f64_code [code]:
  "to_f64 x = (let r = fl x in if \<bar>r\<bar> \<le> 1000000000000000000000000000000 then Fin r
     else if \<bar>r\<bar> < 2 ^ 1024 then Fin r else Inf (0 < r))"
proof -
  have "(1000000000000000000000000000000 :: rat) \<le> 2 powi 100" by (simp add: powi2_nat)
  moreover have "(2::rat) powi 100 < 2 ^ 1024" using powi2_less_iff [of 100 1024] by simp
  ultimately have "\<bar>fl x\<bar> \<le> 1000000000000000000000000000000 \<Longrightarrow> \<bar>fl x\<bar> < 2 ^ 1024" by linarith
  then show ?thesis by (simp add: to_f64_def Let_def)
qed

lemma f_int_Fin [go_float]: "i64 n \<Longrightarrow> f_int n = Fin (fl (of_int n))"
proof -
  assume "i64 n"
  then have "(of_int n :: rat) \<le> of_int 9223372036854775807" "of_int (- 9223372036854775808) \<le> (of_int n :: rat)"
    by (simp_all only: of_int_le_iff i64_def) auto
  then have "\<bar>of_int n\<bar> \<le> (1000000000000000000000000000000 :: rat)" by simp
  then show ?thesis by (simp only: f_int_def to_f64_Fin)
qed

lemma f_int_small: "\<bar>n\<bar> \<le> 9007199254740992 \<Longrightarrow> f_int n = Fin (of_int n)"
  using f_int_Fin [of n] fl_of_int [of n] by (simp add: i64_def abs_le_iff)

lemma fadd_Fin [go_float]: "\<bar>x + y\<bar> \<le> 1000000000000000000000000000000 \<Longrightarrow> fadd (Fin x) (Fin y) = Fin (fl (x + y))"
  by (simp add: to_f64_Fin)

lemma fsub_Fin [go_float]: "\<bar>x - y\<bar> \<le> 1000000000000000000000000000000 \<Longrightarrow> fsub (Fin x) (Fin y) = Fin (fl (x - y))"
  by (simp add: fsub_def to_f64_Fin)

lemma fmul_Fin [go_float]: "\<bar>x * y\<bar> \<le> 1000000000000000000000000000000 \<Longrightarrow> fmul (Fin x) (Fin y) = Fin (fl (x * y))"
  by (simp add: to_f64_Fin)

lemma fdiv_Fin [go_float]: "y \<noteq> 0 \<Longrightarrow> \<bar>x / y\<bar> \<le> 1000000000000000000000000000000 \<Longrightarrow> fdiv (Fin x) (Fin y) = Fin (fl (x / y))"
  by (simp add: to_f64_Fin)

lemma fge_Fin [simp]: "fge (Fin x) (Fin y) \<longleftrightarrow> y \<le> x"
  by (auto simp: fge_def)

lemma fmin_Fin [simp]: "fmin (Fin x) (Fin y) = Fin (min x y)"
  by (auto simp: fmin_def)

lemma trunc_mono: "x \<le> y \<Longrightarrow> trunc x \<le> trunc y"
proof -
  assume a: "x \<le> y"
  consider "0 \<le> x" | "x < 0" "0 \<le> y" | "y < 0" by linarith
  then show ?thesis
  proof cases
    case 1 then show ?thesis using a floor_mono [OF a] by (simp add: trunc_def)
  next
    case 2
    then have "\<lceil>x\<rceil> \<le> 0" "0 \<le> \<lfloor>y\<rfloor>" by (simp_all add: ceiling_le_zero zero_le_floor)
    then have "\<lceil>x\<rceil> \<le> \<lfloor>y\<rfloor>" by linarith
    with 2 show ?thesis by (simp add: trunc_def)
  next
    case 3 then show ?thesis using a ceiling_mono [OF a] by (simp add: trunc_def)
  qed
qed

lemma trunc_of_int [simp]: "trunc (of_int n) = n"
  by (simp add: trunc_def)

lemma f_to_int_range:
  assumes "of_int lo \<le> x" "x \<le> of_int hi" "i64 lo" "i64 hi"
  shows "lo \<le> f_to_int (Fin x) \<and> f_to_int (Fin x) \<le> hi"
proof -
  have "lo \<le> trunc x" "trunc x \<le> hi" using trunc_mono [OF assms(1)] trunc_mono [OF assms(2)] by simp_all
  moreover from this have "i64 (trunc x)" using assms(3,4) by (auto simp: i64_def)
  ultimately show ?thesis by simp
qed

end
