(* ===== verification/GoStrings.thy ===== *)
theory GoStrings
  imports GoPrelude "HOL-Library.Sublist" "HOL-Library.List_Lexorder" "HOL-Library.Char_ord"
begin

text \<open>
  The part of Go's \<^verbatim>\<open>strings\<close>, \<^verbatim>\<open>strconv\<close> and \<^verbatim>\<open>fmt\<close> packages the scheduler uses, on
  strings as byte lists.  Case mapping and trimming act on ASCII, the alphabet of Kubernetes names,
  labels and label values.  The numeric parsers follow \<^verbatim>\<open>strconv\<close> digit by digit, so that a
  syntax error and a range error are told apart as the library does.
\<close>

named_theorems go_str \<open>evaluation of the string functions\<close>

section \<open>Case mapping, search, splitting, trimming\<close>

definition to_lower_char :: "char \<Rightarrow> char" where
  "to_lower_char c = (let n = (of_char c :: nat) in if 65 \<le> n \<and> n \<le> 90 then char_of (n + 32) else c)"

definition to_upper_char :: "char \<Rightarrow> char" where
  "to_upper_char c = (let n = (of_char c :: nat) in if 97 \<le> n \<and> n \<le> 122 then char_of (n - 32) else c)"

definition to_lower :: "string \<Rightarrow> string" where
  "to_lower s = map to_lower_char s"

definition to_upper :: "string \<Rightarrow> string" where
  "to_upper s = map to_upper_char s"

definition contains :: "string \<Rightarrow> string \<Rightarrow> bool" where
  "contains s sub \<longleftrightarrow> sublist sub s"

definition has_prefix :: "string \<Rightarrow> string \<Rightarrow> bool" where
  "has_prefix s pre \<longleftrightarrow> prefix pre s"

definition has_suffix :: "string \<Rightarrow> string \<Rightarrow> bool" where
  "has_suffix s suf \<longleftrightarrow> suffix suf s"

fun split_on :: "char \<Rightarrow> string \<Rightarrow> string list" where
  "split_on c [] = [[]]"
| "split_on c (x # xs) =
     (if x = c then [] # split_on c xs
      else (case split_on c xs of [] \<Rightarrow> [[x]] | p # ps \<Rightarrow> (x # p) # ps))"

definition is_space :: "char \<Rightarrow> bool" where
  "is_space c \<longleftrightarrow> (let n = (of_char c :: nat) in n = 32 \<or> (9 \<le> n \<and> n \<le> 13))"

definition trim_space :: "string \<Rightarrow> string" where
  "trim_space s = rev (dropWhile is_space (rev (dropWhile is_space s)))"

text \<open>\<^verbatim>\<open>strings.Index\<close>, \<^verbatim>\<open>strings.Split\<close> with a separator of any length, and trimming by a cutset.\<close>

fun index_of :: "string \<Rightarrow> string \<Rightarrow> nat option" where
  "index_of sub [] = (if sub = [] then Some 0 else None)"
| "index_of sub (x # xs) = (if prefix sub (x # xs) then Some 0 else map_option Suc (index_of sub xs))"

function split_str :: "string \<Rightarrow> string \<Rightarrow> string list" where
  "split_str sep s =
     (if sep = [] then map (\<lambda>c. [c]) s
      else (case index_of sep s of
              None \<Rightarrow> [s]
            | Some i \<Rightarrow> take i s # split_str sep (drop (i + length sep) s)))"
  by pat_completeness auto

lemma index_of_bound: "index_of sub s = Some i \<Longrightarrow> i + length sub \<le> length s"
  by (induction s arbitrary: i) (auto split: if_splits dest: prefix_length_le)

termination split_str
proof (relation "measure (length \<circ> snd)")
  fix sep s :: string and i
  assume "sep \<noteq> []" "index_of sep s = Some i"
  then show "((sep, drop (i + length sep) s), sep, s) \<in> measure (length \<circ> snd)"
    using index_of_bound [of sep s i] by (cases sep) auto
qed simp

declare split_str.simps [simp del]

definition trim_right :: "string \<Rightarrow> string \<Rightarrow> string" where
  "trim_right cutset s = rev (dropWhile (\<lambda>c. c \<in> set cutset) (rev s))"

definition trim_set :: "string \<Rightarrow> string \<Rightarrow> string" where
  "trim_set cutset s = trim_right cutset (dropWhile (\<lambda>c. c \<in> set cutset) s)"

lemma to_lower_Nil [simp]: "to_lower [] = []"
  by (simp add: to_lower_def)

lemma split_on_nonempty [simp]: "split_on c s \<noteq> []"
  by (induction s) (auto split: list.splits)

lemma split_on_no_sep: "c \<notin> set s \<Longrightarrow> split_on c s = [s]"
  by (induction s) auto

lemma split_on_append: "c \<notin> set s \<Longrightarrow> split_on c (s @ c # t) = s # split_on c t"
  by (induction s) auto

lemma to_lower_char_idem [simp]: "to_lower_char (to_lower_char c) = to_lower_char c"
proof -
  have "\<And>n::nat. 65 \<le> n \<Longrightarrow> n \<le> 90 \<Longrightarrow> (of_char (char_of (n + 32) :: char) :: nat) = n + 32" by simp
  then show ?thesis by (auto simp: to_lower_char_def Let_def)
qed

lemma to_lower_idem [simp]: "to_lower (to_lower s) = to_lower s"
  by (simp add: to_lower_def)

section \<open>Decimal numbers\<close>

datatype num_error = ErrSyntax | ErrRange

definition digit_val :: "char \<Rightarrow> int option" where
  "digit_val c = (let n = (of_char c :: nat) in if 48 \<le> n \<and> n \<le> 57 then Some (int n - 48) else None)"

definition digit_char :: "nat \<Rightarrow> char" where
  "digit_char d = char_of (48 + d)"

text \<open>The digit loop of \<^verbatim>\<open>strconv.ParseUint\<close> with 64 bits.\<close>

fun parse_digits :: "int \<Rightarrow> string \<Rightarrow> num_error + int" where
  "parse_digits acc [] = Inr acc"
| "parse_digits acc (c # cs) =
     (case digit_val c of
        None \<Rightarrow> Inl ErrSyntax
      | Some d \<Rightarrow> if acc * 10 + d \<ge> 2 ^ 64 then Inl ErrRange else parse_digits (acc * 10 + d) cs)"

definition parse_uint :: "string \<Rightarrow> num_error + int" where
  "parse_uint s = (if s = [] then Inl ErrSyntax else parse_digits 0 s)"

text \<open>\<^verbatim>\<open>strconv.Atoi(s)\<close> and \<^verbatim>\<open>strconv.ParseInt(s, 10, 64)\<close>.\<close>

definition atoi :: "string \<Rightarrow> num_error + int" where
  "atoi s =
     (case s of
        [] \<Rightarrow> Inl ErrSyntax
      | c # cs \<Rightarrow>
          let neg = (c = CHR ''-''); body = (if c = CHR ''-'' \<or> c = CHR ''+'' then cs else s)
          in (case parse_uint body of
                Inl e \<Rightarrow> Inl e
              | Inr n \<Rightarrow> if \<not> neg \<and> n \<ge> 2 ^ 63 then Inl ErrRange
                         else if neg \<and> n > 2 ^ 63 then Inl ErrRange
                         else Inr (if neg then - n else n)))"

text \<open>\<^verbatim>\<open>%d\<close> and \<^verbatim>\<open>strconv.Itoa\<close>.\<close>

fun nat_digits :: "nat \<Rightarrow> string" where
  "nat_digits n = (if n < 10 then [digit_char n] else nat_digits (n div 10) @ [digit_char (n mod 10)])"

declare nat_digits.simps [simp del]

definition itoa :: "int \<Rightarrow> string" where
  "itoa n = (if n < 0 then CHR ''-'' # nat_digits (nat (- n)) else nat_digits (nat n))"

lemma digit_val_char: "d < 10 \<Longrightarrow> digit_val (digit_char d) = Some (int d)"
  by (simp add: digit_val_def digit_char_def)

lemma parse_digits_append:
  "parse_digits acc (s @ t) =
     (case parse_digits acc s of Inl e \<Rightarrow> Inl e | Inr a \<Rightarrow> parse_digits a t)"
  by (induction s arbitrary: acc) (auto split: option.splits)

lemma parse_nat_digits: "int n < 2 ^ 64 \<Longrightarrow> parse_digits 0 (nat_digits n) = Inr (int n)"
proof (induction n rule: nat_digits.induct)
  case (1 n)
  show ?case
  proof (cases "n < 10")
    case True
    then show ?thesis by (simp add: nat_digits.simps [of n] digit_val_char)
  next
    case False
    have "int (n div 10) < 2 ^ 64" using "1.prems" by linarith
    then have "parse_digits 0 (nat_digits (n div 10)) = Inr (int (n div 10))" using False "1.IH" by simp
    moreover have "int (n div 10) * 10 + int (n mod 10) = int n" by presburger
    ultimately show ?thesis
      using False "1.prems"
      by (simp add: nat_digits.simps [of n] parse_digits_append digit_val_char)
  qed
qed

lemma nat_digits_nonempty [simp]: "nat_digits n \<noteq> []"
  by (subst nat_digits.simps) simp

lemma nat_digits_digits: "c \<in> set (nat_digits n) \<Longrightarrow> \<exists>d<10. c = digit_char d"
proof (induction n rule: nat_digits.induct)
  case (1 n)
  show ?case
  proof (cases "n < 10")
    case True
    with "1.prems" show ?thesis by (auto simp: nat_digits.simps [of n])
  next
    case False
    with "1.prems" have "c \<in> set (nat_digits (n div 10)) \<or> c = digit_char (n mod 10)"
      by (auto simp: nat_digits.simps [of n])
    with False "1.IH" show ?thesis by (auto intro: exI [of _ "n mod 10"])
  qed
qed

lemma of_char_digit_char: "d < 10 \<Longrightarrow> (of_char (digit_char d) :: nat) = 48 + d"
  by (simp add: digit_char_def)

lemma digit_char_not_sign:
  assumes "d < 10"
  shows "digit_char d \<noteq> CHR ''-''" "digit_char d \<noteq> CHR ''+''"
proof -
  have m: "(of_char (CHR ''-'') :: nat) = 45" "(of_char (CHR ''+'') :: nat) = 43" by simp_all
  show "digit_char d \<noteq> CHR ''-''"
  proof
    assume "digit_char d = CHR ''-''"
    with of_char_digit_char [OF assms] m(1) have "48 + d = 45" by metis
    then show False by simp
  qed
  show "digit_char d \<noteq> CHR ''+''"
  proof
    assume "digit_char d = CHR ''+''"
    with of_char_digit_char [OF assms] m(2) have "48 + d = 43" by metis
    then show False by simp
  qed
qed

lemma parse_uint_digits: "int n < 2 ^ 64 \<Longrightarrow> parse_uint (nat_digits n) = Inr (int n)"
  using parse_nat_digits [of n] by (simp add: parse_uint_def)

theorem atoi_itoa: "i64 n \<Longrightarrow> atoi (itoa n) = Inr n"
proof -
  assume n: "i64 n"
  show ?thesis
  proof (cases "n < 0")
    case True
    then have "parse_uint (nat_digits (nat (- n))) = Inr (- n)"
      using n parse_uint_digits [of "nat (- n)"] by (simp add: i64_def)
    moreover have "- n \<le> 2 ^ 63" using n by (simp add: i64_def)
    ultimately show ?thesis using True by (simp add: itoa_def atoi_def)
  next
    case False
    then have p: "parse_uint (nat_digits (nat n)) = Inr n"
      using n parse_uint_digits [of "nat n"] by (simp add: i64_def)
    obtain c cs where s: "nat_digits (nat n) = c # cs" by (cases "nat_digits (nat n)") auto
    then have "c \<in> set (nat_digits (nat n))" by simp
    then obtain d where "d < 10" "c = digit_char d" using nat_digits_digits by blast
    then have c: "c \<noteq> CHR ''-''" "c \<noteq> CHR ''+''" using digit_char_not_sign by simp_all
    have "n < 2 ^ 63" using n by (simp add: i64_def)
    then show ?thesis using False c p by (simp add: itoa_def atoi_def s)
  qed
qed

lemma parse_digits_nonneg: "0 \<le> acc \<Longrightarrow> parse_digits acc s = Inr n \<Longrightarrow> 0 \<le> n"
proof (induction s arbitrary: acc)
  case (Cons c cs)
  then obtain d where d: "digit_val c = Some d" and r: "parse_digits (acc * 10 + d) cs = Inr n"
    by (auto split: option.splits if_splits)
  have "0 \<le> d" using d by (auto simp: digit_val_def Let_def split: if_splits)
  then show ?case using Cons.prems(1) Cons.IH [OF _ r] by simp
qed simp

lemma parse_uint_nonneg: "parse_uint s = Inr n \<Longrightarrow> 0 \<le> n"
  using parse_digits_nonneg [of 0 s n] by (simp add: parse_uint_def split: if_splits)

lemma atoi_i64:
  assumes "atoi s = Inr n"
  shows "i64 n"
proof (cases s)
  case (Cons c cs)
  define body where "body = (if c = CHR ''-'' \<or> c = CHR ''+'' then cs else s)"
  have a: "(case parse_uint body of Inl e \<Rightarrow> Inl e
      | Inr m \<Rightarrow> if c \<noteq> CHR ''-'' \<and> m \<ge> 2 ^ 63 then Inl ErrRange
                 else if c = CHR ''-'' \<and> m > 2 ^ 63 then Inl ErrRange
                 else Inr (if c = CHR ''-'' then - m else m)) = Inr n"
    using assms unfolding atoi_def Cons body_def Let_def by (simp only: list.case)
  then obtain m where m: "parse_uint body = Inr m" by (auto split: sum.splits)
  with parse_uint_nonneg [OF m] a show ?thesis by (auto simp: i64_def split: if_splits)
qed (use assms in \<open>simp add: atoi_def\<close>)

end
