(* ===== verification/GoParseFloat.thy ===== *)
theory GoParseFloat
  imports GoStrings GoFloat
begin

text \<open>
  Go's \<^verbatim>\<open>strconv.ParseFloat(s, 64)\<close>: the special names, decimal and hexadecimal literals with an
  optional exponent, and underscores between digits.  The exact value of the literal is a rational,
  and the result is that value rounded once; a literal that rounds to an infinity is a range error.
  The library stops adding digits to an exponent that has reached 10000, which is written out.
\<close>

section \<open>Characters\<close>

text \<open>The value of a digit in base 10 or 16.\<close>

definition base_digit :: "bool \<Rightarrow> char \<Rightarrow> int option" where
  "base_digit hex c =
     (let n = (of_char (to_lower_char c) :: nat)
      in if 48 \<le> n \<and> n \<le> 57 then Some (int n - 48)
         else if hex \<and> 97 \<le> n \<and> n \<le> 102 then Some (int n - 87)
         else None)"

text \<open>
  \<^verbatim>\<open>underscoreOK\<close>: an underscore stands between digits, or between the base prefix and a
  digit.  The flags say what the previous character was: a digit (or the prefix), an underscore.
\<close>

fun underscores_between :: "bool \<Rightarrow> bool \<Rightarrow> bool \<Rightarrow> string \<Rightarrow> bool" where
  "underscores_between hex digit underscore [] \<longleftrightarrow> \<not> underscore"
| "underscores_between hex digit underscore (c # cs) \<longleftrightarrow>
     (if base_digit hex c \<noteq> None then underscores_between hex True False cs
      else if c = CHR ''_'' then digit \<and> underscores_between hex False True cs
      else \<not> underscore \<and> underscores_between hex False False cs)"

definition drop_sign :: "string \<Rightarrow> string" where
  "drop_sign s = (case s of [] \<Rightarrow> [] | c # cs \<Rightarrow> if c = CHR ''+'' \<or> c = CHR ''-'' then cs else s)"

definition underscoreOK :: "string \<Rightarrow> bool" where
  "underscoreOK s =
     (case drop_sign s of
        CHR ''0'' # c # cs \<Rightarrow>
          if to_lower_char c \<in> {CHR ''b'', CHR ''o'', CHR ''x''}
          then underscores_between (to_lower_char c = CHR ''x'') True False cs
          else underscores_between False False False (drop_sign s)
      | t \<Rightarrow> underscores_between False False False t)"

section \<open>Mantissa and exponent\<close>

text \<open>
  The digit loop: the digits read so far as an integer, the number of them after the point, whether
  a point and a digit were seen, and the unread rest.
\<close>

fun mantissa :: "bool \<Rightarrow> bool \<Rightarrow> bool \<Rightarrow> int \<Rightarrow> int \<Rightarrow> string \<Rightarrow> bool \<times> int \<times> int \<times> string" where
  "mantissa hex sawdot sawdigits m fd [] = (sawdigits, m, fd, [])"
| "mantissa hex sawdot sawdigits m fd (c # cs) =
     (if c = CHR ''_'' then mantissa hex sawdot sawdigits m fd cs
      else if c = CHR ''.'' then
        (if sawdot then (sawdigits, m, fd, c # cs) else mantissa hex True sawdigits m fd cs)
      else (case base_digit hex c of
              Some d \<Rightarrow> mantissa hex sawdot True ((if hex then 16 else 10) * m + d)
                          (if sawdot then fd + 1 else fd) cs
            | None \<Rightarrow> (sawdigits, m, fd, c # cs)))"

fun exponent_digits :: "int \<Rightarrow> string \<Rightarrow> int \<times> string" where
  "exponent_digits e [] = (e, [])"
| "exponent_digits e (c # cs) =
     (if c = CHR ''_'' then exponent_digits e cs
      else (case digit_val c of
              Some d \<Rightarrow> exponent_digits (if e < 10000 then e * 10 + d else e) cs
            | None \<Rightarrow> (e, c # cs)))"

text \<open>The optional exponent (mandatory in base 16), or \<^verbatim>\<open>None\<close> when it is malformed.\<close>

definition exponent :: "bool \<Rightarrow> string \<Rightarrow> (int \<times> string) option" where
  "exponent hex s =
     (case s of
        c # cs \<Rightarrow>
          if to_lower_char c = (if hex then CHR ''p'' else CHR ''e'')
          then (let neg = (cs \<noteq> [] \<and> hd cs = CHR ''-''); ds = drop_sign cs
                in if ds = [] \<or> digit_val (hd ds) = None then None
                   else (let (e, r) = exponent_digits 0 ds in Some (if neg then - e else e, r)))
          else if hex then None else Some (0, s)
      | [] \<Rightarrow> if hex then None else Some (0, []))"

definition literal_value :: "bool \<Rightarrow> int \<Rightarrow> int \<Rightarrow> int \<Rightarrow> rat" where
  "literal_value hex m fd e =
     (if hex then of_int m * 2 powi (e - 4 * fd) else of_int m * 10 powi (e - fd))"

definition parse_literal :: "string \<Rightarrow> num_error + float64" where
  "parse_literal s =
     (let neg = (s \<noteq> [] \<and> hd s = CHR ''-''); t = drop_sign s;
          hex = (length t > 2 \<and> hd t = CHR ''0'' \<and> to_lower_char (t ! 1) = CHR ''x'');
          (sawdigits, m, fd, rest) = mantissa hex False False 0 0 (if hex then drop 2 t else t)
      in if \<not> sawdigits then Inl ErrSyntax
         else (case exponent hex rest of
                 None \<Rightarrow> Inl ErrSyntax
               | Some (e, r) \<Rightarrow>
                   if r \<noteq> [] \<or> (CHR ''_'' \<in> set s \<and> \<not> underscoreOK s) then Inl ErrSyntax
                   else (case to_f64 (literal_value hex m fd e) of
                           Fin x \<Rightarrow> Inr (Fin (if neg then - x else x))
                         | _ \<Rightarrow> Inl ErrRange)))"

definition parseFloat :: "string \<Rightarrow> num_error + float64" where
  "parseFloat s =
     (let t = to_lower (drop_sign s); neg = (s \<noteq> [] \<and> hd s = CHR ''-'')
      in if t = ''inf'' \<or> t = ''infinity'' then Inr (Inf (\<not> neg))
         else if to_lower s = ''nan'' then Inr NaN
         else parse_literal s)"

end
