(* ===== verification/KubeTypes.thy ===== *)
theory KubeTypes
  imports GoPrelude
begin

text \<open>
  The Kubernetes objects the plugins read, reduced to the fields they read, and the statuses they
  return.  A resource quantity is what the code observes of it: the results of its methods
  \<^verbatim>\<open>MilliValue\<close>, \<^verbatim>\<open>Value\<close> and \<^verbatim>\<open>IsZero\<close>.  A lister is a record of the answers it
  gives: a list of objects or an error.  The locale \<^verbatim>\<open>pod_cache\<close> states the documented
  behaviour of a lister that serves an informer's cache, and \<^verbatim>\<open>cache_lister\<close> provides it.
\<close>

section \<open>Quantities and resource lists\<close>

record quantity =
  q_milli :: int
  q_value :: int
  q_is_zero :: bool

definition zero_quantity :: quantity where
  "zero_quantity = \<lparr>q_milli = 0, q_value = 0, q_is_zero = True\<rparr>"

type_synonym resources = "quantity gomap"

text \<open>\<^verbatim>\<open>ResourceList.Cpu()\<close> and \<^verbatim>\<open>ResourceList.Memory()\<close>: the zero quantity when absent.\<close>

definition res_cpu :: "resources \<Rightarrow> quantity" where
  "res_cpu rl = (case lookup rl ''cpu'' of None \<Rightarrow> zero_quantity | Some q \<Rightarrow> q)"

definition res_memory :: "resources \<Rightarrow> quantity" where
  "res_memory rl = (case lookup rl ''memory'' of None \<Rightarrow> zero_quantity | Some q \<Rightarrow> q)"

definition gpu_resource :: string where
  "gpu_resource = ''nvidia.com/gpu''"

text \<open>The reads of a GPU quantity: a key that is absent contributes nothing, or the zero quantity.\<close>

definition gpu_value :: "resources \<Rightarrow> int" where
  "gpu_value rl = (case lookup rl gpu_resource of None \<Rightarrow> 0 | Some q \<Rightarrow> q_value q)"

section \<open>Pods\<close>

record container =
  c_image :: string
  c_requests :: resources
  c_limits :: resources

record claim_ref =
  cr_name :: string
  cr_template :: "string option"

record pod =
  p_name :: string
  p_ns :: string
  p_labels :: "string gomap"
  p_annots :: "string gomap"
  p_owner_kinds :: "string list"
  p_containers :: "container list"
  p_priority :: "int option"
  p_prio_class :: string
  p_node :: string
  p_node_selector :: "string gomap option"
  p_claims :: "claim_ref list"
  p_phase :: string
  p_qos :: string
  p_deleted :: bool

definition empty_pod :: pod where
  "empty_pod = \<lparr>p_name = '''', p_ns = '''', p_labels = [], p_annots = [], p_owner_kinds = [],
     p_containers = [], p_priority = None, p_prio_class = '''', p_node = '''',
     p_node_selector = None, p_claims = [], p_phase = '''', p_qos = '''', p_deleted = False\<rparr>"

abbreviation PodRunning :: string where "PodRunning \<equiv> ''Running''"
abbreviation PodPending :: string where "PodPending \<equiv> ''Pending''"

text \<open>The priority of a pod, read the way every plugin reads it: 0 when it is not set.\<close>

definition prio_or_0 :: "pod \<Rightarrow> int" where
  "prio_or_0 p = (case p_priority p of None \<Rightarrow> 0 | Some v \<Rightarrow> v)"

section \<open>Nodes\<close>

record node =
  n_name :: string
  n_labels :: "string gomap"
  n_allocatable :: resources
  n_capacity :: resources

record node_info =
  ni_node :: "node option"
  ni_req_cpu :: int
  ni_req_memory :: int
  ni_req_scalar :: "int gomap"

section \<open>Resource slices\<close>

text \<open>
  A device attribute has an integer, a string or neither (a pointer each); a missing attribute or
  capacity map reads as an empty one.  A capacity is the \<^verbatim>\<open>Value()\<close> of its quantity.
\<close>

record device_attr =
  da_int :: "int option"
  da_string :: "string option"

record dra_device =
  dv_name :: string
  dv_capacity :: "int gomap"
  dv_attrs :: "device_attr gomap"

record resource_slice =
  sl_node :: "string option"
  sl_driver :: string
  sl_devices :: "dra_device list"

section \<open>Statuses\<close>

datatype code = Success | Error | Unschedulable | UnschedulableAndUnresolvable | Wait

record status =
  st_code :: code
  st_reason :: string

definition mk_status :: "code \<Rightarrow> string \<Rightarrow> status" where
  "mk_status c r = \<lparr>st_code = c, st_reason = r\<rparr>"

abbreviation success :: status where
  "success \<equiv> mk_status Success ''''"

lemma st_mk_status [simp]: "st_code (mk_status c r) = c" "st_reason (mk_status c r) = r"
  by (simp_all add: mk_status_def)

lemma mk_status_eq [simp]: "mk_status c r = mk_status c' r' \<longleftrightarrow> c = c' \<and> r = r'"
  by (simp add: mk_status_def)

text \<open>\<^verbatim>\<open>framework.MaxNodeScore\<close>.\<close>

definition MaxNodeScore :: int where
  "MaxNodeScore = 100"

section \<open>Listers\<close>

text \<open>
  \<^verbatim>\<open>pl_list\<close> answers \<^verbatim>\<open>List(labels.Everything())\<close>; \<^verbatim>\<open>pl_ns_list\<close> answers
  \<^verbatim>\<open>Pods(namespace).List(selector)\<close>, where the selector is one required label or none.
\<close>

type_synonym selector = "(string \<times> string) option"

record pod_lister =
  pl_list :: "string + pod list"
  pl_ns_list :: "string \<Rightarrow> selector \<Rightarrow> string + pod list"

type_synonym node_lister = "string \<Rightarrow> string + node"

definition sel_matches :: "selector \<Rightarrow> pod \<Rightarrow> bool" where
  "sel_matches sel p = (case sel of None \<Rightarrow> True | Some (k, v) \<Rightarrow> lookup (p_labels p) k = Some v)"

locale pod_cache =
  fixes lister :: pod_lister
    and pods :: "pod list"
  assumes list_all: "pl_list lister = Inr pods"
    and list_ns: "pl_ns_list lister ns sel = Inr (filter (\<lambda>p. p_ns p = ns \<and> sel_matches sel p) pods)"
begin

lemma list_ns_sub: "pl_ns_list lister ns sel = Inr ps \<Longrightarrow> set ps \<subseteq> set pods"
  by (auto simp: list_ns)

lemma list_ns_ok: "\<exists>ps. pl_ns_list lister ns sel = Inr ps"
  by (simp add: list_ns)

lemma list_ns_label:
  "pl_ns_list lister ns (Some (k, v)) = Inr (filter (\<lambda>p. p_ns p = ns \<and> lookup (p_labels p) k = Some v) pods)"
  by (simp add: list_ns sel_matches_def)

end

text \<open>The lister over an informer cache that holds exactly the pods of a list.\<close>

definition cache_lister :: "pod list \<Rightarrow> pod_lister" where
  "cache_lister ps = \<lparr>pl_list = Inr ps,
     pl_ns_list = (\<lambda>ns sel. Inr (filter (\<lambda>p. p_ns p = ns \<and> sel_matches sel p) ps))\<rparr>"

interpretation cache: pod_cache "cache_lister ps" ps for ps
  by unfold_locales (simp_all add: cache_lister_def)

end
