(* ===== verification/Interfaces.thy ===== *)
theory Interfaces
  imports KubeTypes
begin

text \<open>
  The contracts several components share, as locales.

  \<^item> \<^verbatim>\<open>strict_weak_order\<close>: what the scheduling queue and \<^verbatim>\<open>sort.Slice\<close> expect of a less
    function; \<^verbatim>\<open>slice_sorter\<close> extends it by a sort routine that honours it.
  \<^item> \<^verbatim>\<open>tier_rank\<close>: a numeric ranking of the tenant tiers, of which the preemption, backfill
    and fragmentation plugins each have one.
  \<^item> \<^verbatim>\<open>score_plugin\<close>: a score plugin that succeeds with a score between 0 and
    \<^verbatim>\<open>framework.MaxNodeScore\<close>, which the framework checks after every scoring.
\<close>

section \<open>Less functions and sorting\<close>

locale strict_weak_order =
  fixes lt :: "'a \<Rightarrow> 'a \<Rightarrow> bool"
  assumes irrefl: "\<not> lt x x"
    and trans: "lt x y \<Longrightarrow> lt y z \<Longrightarrow> lt x z"
    and incomp_trans: "\<not> lt x y \<Longrightarrow> \<not> lt y z \<Longrightarrow> \<not> lt x z"
begin

lemma asym: "lt x y \<Longrightarrow> \<not> lt y x"
  using irrefl trans by blast

lemma equiv_replace: "\<not> lt x y \<Longrightarrow> \<not> lt y x \<Longrightarrow> lt x z \<longleftrightarrow> lt y z"
  using incomp_trans trans irrefl by meson

lemma equiv_replace_right: "\<not> lt x y \<Longrightarrow> \<not> lt y x \<Longrightarrow> lt z x \<longleftrightarrow> lt z y"
  using incomp_trans trans irrefl by meson

definition sorted_by :: "'a list \<Rightarrow> bool" where
  "sorted_by xs \<longleftrightarrow> sorted_wrt (\<lambda>x y. \<not> lt y x) xs"

text \<open>A prefix of a sorted slice holds no element that some later element must precede.\<close>

lemma sorted_by_take:
  assumes "sorted_by xs" "x \<in> set (take n xs)" "y \<in> set (drop n xs)"
  shows "\<not> lt y x"
proof -
  have "sorted_wrt (\<lambda>x y. \<not> lt y x) (take n xs @ drop n xs)"
    using assms(1) by (simp only: append_take_drop_id sorted_by_def)
  then show ?thesis using assms(2,3) by (simp only: sorted_wrt_append) blast
qed

lemma sorted_by_hd: "sorted_by (x # xs) \<Longrightarrow> y \<in> set xs \<Longrightarrow> \<not> lt y x"
  by (simp add: sorted_by_def)

end

text \<open>
  \<^verbatim>\<open>sort.Slice\<close> returns some permutation of the slice that is sorted by the less function;
  equal elements may come in any order, and the routine depends on the length of the slice.
\<close>

locale slice_sorter = strict_weak_order lt for lt :: "'a \<Rightarrow> 'a \<Rightarrow> bool" +
  fixes srt :: "'a list \<Rightarrow> 'a list"
  assumes perm: "mset (srt xs) = mset xs"
    and sorted: "sorted_wrt (\<lambda>x y. \<not> lt y x) (srt xs)"
begin

lemma set_srt [simp]: "set (srt xs) = set xs"
  using perm [of xs] by (metis set_mset_mset)

lemma length_srt [simp]: "length (srt xs) = length xs"
  using perm [of xs] by (metis size_mset)

lemma srt_sorted_by: "sorted_by (srt xs)"
  by (simp add: sorted_by_def sorted)

lemma srt_take:
  "x \<in> set (take n (srt xs)) \<Longrightarrow> y \<in> set (drop n (srt xs)) \<Longrightarrow> \<not> lt y x"
  by (rule sorted_by_take [OF srt_sorted_by])

end

text \<open>
  The insertion sort that \<^verbatim>\<open>sort.Slice\<close> runs on slices of at most twelve elements: an
  element moves left past every element it is less than.
\<close>

fun insert_left :: "('a \<Rightarrow> 'a \<Rightarrow> bool) \<Rightarrow> 'a \<Rightarrow> 'a list \<Rightarrow> 'a list" where
  "insert_left lt x [] = [x]"
| "insert_left lt x (y # ys) = (if lt x y then y # insert_left lt x ys else x # y # ys)"

text \<open>The sorted part is kept in reverse, its last element first.\<close>

definition insertion_sort :: "('a \<Rightarrow> 'a \<Rightarrow> bool) \<Rightarrow> 'a list \<Rightarrow> 'a list" where
  "insertion_sort lt xs = rev (foldl (\<lambda>acc x. insert_left lt x acc) [] xs)"

lemma mset_insert_left: "mset (insert_left lt x ys) = add_mset x (mset ys)"
  by (induction ys) auto

lemma set_insert_left: "set (insert_left lt x ys) = insert x (set ys)"
  by (induction ys) auto

lemma mset_insertion_foldl: "mset (foldl (\<lambda>acc x. insert_left lt x acc) acc xs) = mset acc + mset xs"
  by (induction xs arbitrary: acc) (simp_all add: mset_insert_left)

lemma mset_insertion_sort: "mset (insertion_sort lt xs) = mset xs"
  by (simp add: insertion_sort_def mset_insertion_foldl)

context strict_weak_order
begin

lemma sorted_insert_left:
  "sorted_wrt (\<lambda>x y. \<not> lt x y) ys \<Longrightarrow> sorted_wrt (\<lambda>x y. \<not> lt x y) (insert_left lt x ys)"
proof (induction ys)
  case (Cons y ys)
  show ?case
  proof (cases "lt x y")
    case True
    with Cons show ?thesis by (auto simp: set_insert_left dest: asym)
  next
    case False
    then have "\<not> lt x z" if "z \<in> set ys" for z
      using that Cons.prems incomp_trans [of x y z] by simp
    with False Cons.prems show ?thesis by simp
  qed
qed simp

lemma sorted_insertion_foldl:
  "sorted_wrt (\<lambda>x y. \<not> lt x y) acc \<Longrightarrow>
   sorted_wrt (\<lambda>x y. \<not> lt x y) (foldl (\<lambda>acc x. insert_left lt x acc) acc xs)"
  by (induction xs arbitrary: acc) (simp_all add: sorted_insert_left)

lemma sorted_insertion_sort: "sorted_wrt (\<lambda>x y. \<not> lt y x) (insertion_sort lt xs)"
  using sorted_insertion_foldl [of "[]" xs] by (simp add: insertion_sort_def sorted_wrt_rev)

lemma insertion_sorter: "slice_sorter lt (insertion_sort lt)"
  by unfold_locales (rule mset_insertion_sort, rule sorted_insertion_sort)

end

section \<open>Tenant tier rankings\<close>

locale tier_rank =
  fixes rank :: "string \<Rightarrow> int"
  assumes rank_gold: "rank ''gold'' = 3"
    and rank_silver: "rank ''silver'' = 2"
    and rank_bronze: "rank ''bronze'' = 1"
    and rank_range: "0 \<le> rank t \<and> rank t \<le> 3"
begin

lemma gold_top: "rank t \<le> rank ''gold''"
  using rank_range [of t] by (simp add: rank_gold)

lemma tiers_strict: "rank ''bronze'' < rank ''silver''" "rank ''silver'' < rank ''gold''"
  by (simp_all add: rank_gold rank_silver rank_bronze)

lemma rank_gap: "rank s - rank t \<le> 3"
  using rank_range [of s] rank_range [of t] by simp

end

section \<open>Score plugins\<close>

locale score_plugin =
  fixes score :: "'i \<Rightarrow> int \<times> status"
    and admissible :: "'i \<Rightarrow> bool"
  assumes score_ok: "admissible i \<Longrightarrow> st_code (snd (score i)) = Success"
    and score_range: "admissible i \<Longrightarrow> 0 \<le> fst (score i) \<and> fst (score i) \<le> MaxNodeScore"
begin

text \<open>
  The framework multiplies a plugin's score by its weight and adds the products up: with a
  non-negative weight the contribution of a plugin that keeps its contract is between 0 and
  \<^verbatim>\<open>100 * weight\<close>.
\<close>

lemma weighted_range:
  "admissible i \<Longrightarrow> 0 \<le> w \<Longrightarrow> 0 \<le> w * fst (score i) \<and> w * fst (score i) \<le> 100 * w"
  using score_range [of i] by (simp add: MaxNodeScore_def mult_left_mono mult.commute)

end

end
