(* ===== verification/PodGroups.thy ===== *)
theory PodGroups
  imports KubeTypes GoStrings GoFloat
begin

text \<open>
  \<^verbatim>\<open>pkg/utils/pod.go\<close> and \<^verbatim>\<open>pkg/utils/manager.go\<close>: how a pod names the pod group it
  belongs to (by its labels, or through the native \<^verbatim>\<open>Workload\<close> resource), and the group
  manager.  The API object of a \<^verbatim>\<open>Workload\<close> is a JSON value; the client that fetches it is a
  parameter.
\<close>

named_theorems pg_defs \<open>label keys of the pod group labels\<close>

section \<open>Label keys\<close>

definition PodGroupNameLabel :: string where
  "PodGroupNameLabel = ''pod-group.scheduling.kubenexus.io/name''"

definition PodGroupMinAvailableLabel :: string where
  "PodGroupMinAvailableLabel = ''pod-group.scheduling.kubenexus.io/min-available''"

definition LegacyPodGroupNameLabel :: string where
  "LegacyPodGroupNameLabel = ''pod-group.scheduling.sigs.k8s.io/name''"

definition LegacyPodGroupMinAvailableLabel :: string where
  "LegacyPodGroupMinAvailableLabel = ''pod-group.scheduling.sigs.k8s.io/min-available''"

definition NativeWorkloadNameLabel :: string where
  "NativeWorkloadNameLabel = ''scheduling.k8s.io/workload-name''"

definition NativePodGroupLabel :: string where
  "NativePodGroupLabel = ''scheduling.k8s.io/pod-group''"

lemmas [pg_defs] = PodGroupNameLabel_def PodGroupMinAvailableLabel_def LegacyPodGroupNameLabel_def
  LegacyPodGroupMinAvailableLabel_def NativeWorkloadNameLabel_def NativePodGroupLabel_def

section \<open>Pod groups from labels\<close>

datatype label_err = PodNil | ParseErr string num_error | TooSmall int

definition quoted :: "string \<Rightarrow> string" where
  "quoted s = [CHR 0x22] @ s @ [CHR 0x22]"

fun num_error_text :: "num_error \<Rightarrow> string" where
  "num_error_text ErrSyntax = ''invalid syntax''"
| "num_error_text ErrRange = ''value out of range''"

fun label_err_text :: "label_err \<Rightarrow> string" where
  "label_err_text PodNil = ''pod is nil''"
| "label_err_text (ParseErr s e) =
     ''failed to parse min-available value '' @ quoted s @ '': strconv.Atoi: parsing '' @ quoted s
       @ '': '' @ num_error_text e"
| "label_err_text (TooSmall n) = ''min-available must be at least 1, got '' @ itoa n"

text \<open>
  Both labels are read under the current key, then under the legacy one, when the first is absent
  or empty.
\<close>

definition first_nonempty :: "string gomap \<Rightarrow> string \<Rightarrow> string \<Rightarrow> string option" where
  "first_nonempty m k1 k2 =
     (case lookup_nonempty m k1 of Some n \<Rightarrow> Some n | None \<Rightarrow> lookup_nonempty m k2)"

text \<open>
  The three results of the source are a sum: \<^verbatim>\<open>Inl e\<close> is \<^verbatim>\<open>("", 0, e)\<close> and
  \<^verbatim>\<open>Inr (name, n)\<close> is \<^verbatim>\<open>(name, n, nil)\<close>.
\<close>

definition GetPodGroupLabels :: "pod option \<Rightarrow> label_err + string \<times> int" where
  "GetPodGroupLabels pod =
     (case pod of
        None \<Rightarrow> Inl PodNil
      | Some p \<Rightarrow>
         (case first_nonempty (p_labels p) PodGroupNameLabel LegacyPodGroupNameLabel of
            None \<Rightarrow> Inr ('''', 0)
          | Some name \<Rightarrow>
             (case first_nonempty (p_labels p) PodGroupMinAvailableLabel LegacyPodGroupMinAvailableLabel of
                None \<Rightarrow> Inr ('''', 0)
              | Some minAvailableStr \<Rightarrow>
                 (case atoi minAvailableStr of
                    Inl e \<Rightarrow> Inl (ParseErr minAvailableStr e)
                  | Inr minAvailable \<Rightarrow>
                      if minAvailable < 1 then Inl (TooSmall minAvailable)
                      else Inr (name, minAvailable)))))"

abbreviation pg_labels :: "pod \<Rightarrow> label_err + string \<times> int" where
  "pg_labels p \<equiv> GetPodGroupLabels (Some p)"

text \<open>The name alone, with the error ignored as several callers do.\<close>

definition pg_name :: "pod \<Rightarrow> string" where
  "pg_name p = (case pg_labels p of Inl _ \<Rightarrow> '''' | Inr (name, _) \<Rightarrow> name)"

definition IsPodInPodGroup :: "pod option \<Rightarrow> bool" where
  "IsPodInPodGroup pod =
     (case GetPodGroupLabels pod of Inl _ \<Rightarrow> False | Inr (name, m) \<Rightarrow> name \<noteq> '''' \<and> m > 1)"

definition GetPodGroupKey :: "string \<Rightarrow> string \<Rightarrow> string" where
  "GetPodGroupKey namespace podGroupName = namespace @ ''/'' @ podGroupName"

lemma first_nonemptyD:
  "first_nonempty m k1 k2 = Some s \<Longrightarrow> s \<noteq> '''' \<and> (lookup m k1 = Some s \<or> lookup m k2 = Some s)"
  by (auto simp: first_nonempty_def dest: lookup_nonemptyD split: option.splits)

lemma GetPodGroupLabels_Inr:
  "pg_labels p = Inr (name, m) \<Longrightarrow>
   (name = '''' \<and> m = 0) \<or>
   (first_nonempty (p_labels p) PodGroupNameLabel LegacyPodGroupNameLabel = Some name \<and> 1 \<le> m \<and> i64 m)"
  using atoi_i64 by (auto simp: GetPodGroupLabels_def split: option.splits sum.splits if_splits)

lemma GetPodGroupLabels_cases:
  obtains (err) e where "pg_labels p = Inl e"
    | (none) "pg_labels p = Inr ('''', 0)"
    | (group) name m where "pg_labels p = Inr (name, m)" "name \<noteq> ''''" "1 \<le> m" "i64 m"
proof (cases "pg_labels p")
  case (Inr r)
  then obtain name m where r: "pg_labels p = Inr (name, m)" by (cases r) simp
  show ?thesis using GetPodGroupLabels_Inr [OF r] first_nonemptyD r none group by metis
qed (rule err)

text \<open>The name of a group is the value of one of the two name labels.\<close>

lemma pg_labels_name:
  assumes "pg_labels p = Inr (name, m)" "name \<noteq> ''''"
  shows "lookup (p_labels p) PodGroupNameLabel = Some name \<or> lookup (p_labels p) LegacyPodGroupNameLabel = Some name"
  using GetPodGroupLabels_Inr [OF assms(1)] assms(2) first_nonemptyD by metis

lemma pg_name_label:
  assumes "pg_name p \<noteq> ''''"
  shows "lookup (p_labels p) PodGroupNameLabel = Some (pg_name p) \<or> lookup (p_labels p) LegacyPodGroupNameLabel = Some (pg_name p)"
proof -
  obtain m where "pg_labels p = Inr (pg_name p, m)"
    using assms by (auto simp: pg_name_def split: sum.splits prod.splits)
  then show ?thesis using assms by (rule pg_labels_name)
qed

text \<open>
  The key of a group determines the namespace and the name when neither holds a slash, which
  Kubernetes names and label values never do.
\<close>

lemma GetPodGroupKey_split:
  assumes "CHR ''/'' \<notin> set ns" "CHR ''/'' \<notin> set name"
  shows "split_on (CHR ''/'') (GetPodGroupKey ns name) = [ns, name]"
  unfolding GetPodGroupKey_def using split_on_append [OF assms(1), of name] split_on_no_sep [OF assms(2)] by simp

lemma GetPodGroupKey_inj:
  assumes "CHR ''/'' \<notin> set ns" "CHR ''/'' \<notin> set name" "CHR ''/'' \<notin> set ns'" "CHR ''/'' \<notin> set name'"
    and "GetPodGroupKey ns name = GetPodGroupKey ns' name'"
  shows "ns = ns' \<and> name = name'"
proof -
  have "[ns, name] = [ns', name']"
    using GetPodGroupKey_split [OF assms(1,2)] GetPodGroupKey_split [OF assms(3,4)]
    unfolding assms(5) by (rule subst)
  then show ?thesis by simp
qed

section \<open>Pod groups from the native Workload resource\<close>

datatype json =
    JMap "(string \<times> json) list"
  | JList "json list"
  | JStr string
  | JInt64 int
  | JInt32 int
  | JInt int
  | JFloat float64
  | JOther

text \<open>
  The results \<^verbatim>\<open>(v, true, nil)\<close>, \<^verbatim>\<open>(zero, false, nil)\<close> and \<^verbatim>\<open>(zero, false, err)\<close>
  of the nested getters.
\<close>

datatype 'a nested = Found 'a | NotFound | WrongType

definition getNestedMap :: "json gomap \<Rightarrow> string \<Rightarrow> json gomap nested" where
  "getNestedMap obj key =
     (case lookup obj key of None \<Rightarrow> NotFound | Some v \<Rightarrow> (case v of JMap m \<Rightarrow> Found m | _ \<Rightarrow> WrongType))"

definition getNestedSlice :: "json gomap \<Rightarrow> string \<Rightarrow> json list nested" where
  "getNestedSlice obj key =
     (case lookup obj key of None \<Rightarrow> NotFound | Some v \<Rightarrow> (case v of JList l \<Rightarrow> Found l | _ \<Rightarrow> WrongType))"

definition getNestedString :: "json gomap \<Rightarrow> string \<Rightarrow> string nested" where
  "getNestedString obj key =
     (case lookup obj key of None \<Rightarrow> NotFound | Some v \<Rightarrow> (case v of JStr s \<Rightarrow> Found s | _ \<Rightarrow> WrongType))"

definition getNestedInt64 :: "json gomap \<Rightarrow> string \<Rightarrow> int nested" where
  "getNestedInt64 obj key =
     (case lookup obj key of
        None \<Rightarrow> NotFound
      | Some v \<Rightarrow> (case v of
            JInt64 n \<Rightarrow> Found n
          | JInt32 n \<Rightarrow> Found n
          | JInt n \<Rightarrow> Found n
          | JFloat f \<Rightarrow> Found (f_to_int f)
          | _ \<Rightarrow> WrongType))"

record pod_group_info =
  pgi_name :: string
  pgi_min_member :: int
  pgi_from_crd :: bool
  pgi_timeout :: int

text \<open>One entry of \<^verbatim>\<open>spec.podGroups\<close>: \<^verbatim>\<open>None\<close> is every \<^verbatim>\<open>continue\<close> of the loop.\<close>

definition gang_of_entry :: "string \<Rightarrow> json \<Rightarrow> pod_group_info option" where
  "gang_of_entry podGroupName pg =
     (case pg of
        JMap pgMap \<Rightarrow>
          (let name = (case getNestedString pgMap ''name'' of Found s \<Rightarrow> Some s | NotFound \<Rightarrow> Some '''' | WrongType \<Rightarrow> None)
           in if name \<noteq> Some podGroupName then None
              else (case getNestedMap pgMap ''policy'' of
                      Found policy \<Rightarrow>
                        (case getNestedMap policy ''gang'' of
                           Found gang \<Rightarrow>
                             (case getNestedInt64 gang ''minCount'' of
                                Found minCount \<Rightarrow>
                                  Some \<lparr>pgi_name = podGroupName, pgi_min_member = minCount,
                                        pgi_from_crd = True, pgi_timeout = 60\<rparr>
                              | _ \<Rightarrow> None)
                         | _ \<Rightarrow> None)
                    | _ \<Rightarrow> None))
      | _ \<Rightarrow> None)"

fun find_gang :: "string \<Rightarrow> json list \<Rightarrow> pod_group_info option" where
  "find_gang podGroupName [] = None"
| "find_gang podGroupName (pg # pgs) =
     (case gang_of_entry podGroupName pg of Some i \<Rightarrow> Some i | None \<Rightarrow> find_gang podGroupName pgs)"

type_synonym workload_client = "string \<Rightarrow> string \<Rightarrow> string + json gomap"

definition GetWorkloadPodGroupInfo :: "pod \<Rightarrow> workload_client \<Rightarrow> string + pod_group_info option" where
  "GetWorkloadPodGroupInfo p client =
     (let workloadName = lookup_str (p_labels p) NativeWorkloadNameLabel;
          podGroupName = lookup_str (p_labels p) NativePodGroupLabel
      in if workloadName = '''' \<or> podGroupName = '''' then Inr None
         else (case client (p_ns p) workloadName of
                 Inl _ \<Rightarrow> Inr None
               | Inr obj \<Rightarrow>
                  (case getNestedMap obj ''spec'' of
                     Found spec \<Rightarrow>
                       (case getNestedSlice spec ''podGroups'' of
                          Found podGroups \<Rightarrow> Inr (find_gang podGroupName podGroups)
                        | _ \<Rightarrow> Inl ''podGroups not found in Workload spec'')
                   | _ \<Rightarrow> Inl ''invalid Workload spec'')))"

definition GetPodGroupInfo :: "pod option \<Rightarrow> workload_client option \<Rightarrow> string + pod_group_info option" where
  "GetPodGroupInfo pod dynamicClient =
     (case pod of
        None \<Rightarrow> Inl ''pod is nil''
      | Some p \<Rightarrow>
         (let fallback =
                (case dynamicClient of
                   None \<Rightarrow> Inr None
                 | Some client \<Rightarrow>
                    (case GetWorkloadPodGroupInfo p client of
                       Inr (Some i) \<Rightarrow> Inr (Some i)
                     | _ \<Rightarrow> Inr None))
          in (case pg_labels p of
                Inl _ \<Rightarrow> fallback
              | Inr (name, minAvailable) \<Rightarrow>
                  if name \<noteq> '''' \<and> minAvailable > 0
                  then Inr (Some \<lparr>pgi_name = name, pgi_min_member = minAvailable,
                                  pgi_from_crd = False, pgi_timeout = 60\<rparr>)
                  else fallback)))"

lemma gang_of_entry_Some:
  "gang_of_entry g pg = Some i \<Longrightarrow> pgi_name i = g \<and> pgi_from_crd i \<and> pgi_timeout i = 60"
  by (auto simp: gang_of_entry_def Let_def split: json.splits nested.splits if_splits)

lemma find_gang_Some:
  "find_gang g pgs = Some i \<Longrightarrow> pgi_name i = g \<and> pgi_from_crd i \<and> pgi_timeout i = 60"
  by (induction pgs) (auto dest: gang_of_entry_Some split: option.splits)

section \<open>Resource totals and Spark labels\<close>

text \<open>The addition of quantities is an operation of the Kubernetes library and a parameter.\<close>

fun GetPodResourceRequests_loop ::
  "(quantity \<Rightarrow> quantity \<Rightarrow> quantity) \<Rightarrow> container list \<Rightarrow> quantity \<times> quantity \<Rightarrow> quantity \<times> quantity" where
  "GetPodResourceRequests_loop add [] acc = acc"
| "GetPodResourceRequests_loop add (c # cs) (cpu, memory) =
     GetPodResourceRequests_loop add cs
       (case lookup (c_requests c) ''cpu'' of None \<Rightarrow> cpu | Some q \<Rightarrow> add cpu q,
        case lookup (c_requests c) ''memory'' of None \<Rightarrow> memory | Some q \<Rightarrow> add memory q)"

definition GetPodResourceRequests :: "(quantity \<Rightarrow> quantity \<Rightarrow> quantity) \<Rightarrow> pod \<Rightarrow> quantity \<times> quantity" where
  "GetPodResourceRequests add p = GetPodResourceRequests_loop add (p_containers p) (zero_quantity, zero_quantity)"

definition GetSparkApplicationID :: "pod \<Rightarrow> string" where
  "GetSparkApplicationID p = (case lookup (p_labels p) ''spark-app-id'' of Some a \<Rightarrow> a | None \<Rightarrow> '''')"

definition GetSparkRole :: "pod \<Rightarrow> string" where
  "GetSparkRole p = (case lookup (p_labels p) ''spark-role'' of Some r \<Rightarrow> r | None \<Rightarrow> '''')"

definition IsSparkDriver :: "pod \<Rightarrow> bool" where
  "IsSparkDriver p \<longleftrightarrow> GetSparkRole p = ''driver''"

definition IsSparkExecutor :: "pod \<Rightarrow> bool" where
  "IsSparkExecutor p \<longleftrightarrow> GetSparkRole p = ''executor''"

section \<open>The pod group manager\<close>

text \<open>The list both methods work on: the old label is tried when the first query fails.\<close>

definition group_pods :: "pod_lister \<Rightarrow> string \<Rightarrow> string \<Rightarrow> string + pod list" where
  "group_pods lister namespace podGroupName =
     (case pl_ns_list lister namespace (Some (PodGroupNameLabel, podGroupName)) of
        Inr pods \<Rightarrow> Inr pods
      | Inl _ \<Rightarrow> pl_ns_list lister namespace (Some (LegacyPodGroupNameLabel, podGroupName)))"

definition GetPodGroupSize :: "pod_lister \<Rightarrow> string \<Rightarrow> string \<Rightarrow> string + int" where
  "GetPodGroupSize lister namespace podGroupName =
     (case group_pods lister namespace podGroupName of Inl e \<Rightarrow> Inl e | Inr pods \<Rightarrow> Inr (int (length pods)))"

definition GetRunningPods :: "pod_lister \<Rightarrow> string \<Rightarrow> string \<Rightarrow> string + int" where
  "GetRunningPods lister namespace podGroupName =
     (case group_pods lister namespace podGroupName of
        Inl e \<Rightarrow> Inl e
      | Inr pods \<Rightarrow> Inr (count_if (\<lambda>p. p_phase p = PodRunning) pods))"

text \<open>
  \<^verbatim>\<open>RetryWithBackoff\<close>: \<^verbatim>\<open>fn\<close> runs in a world and returns its error, \<^verbatim>\<open>wait\<close> is the
  \<^verbatim>\<open>select\<close> between the end of the context (an error) and the end of the delay.
\<close>

fun retry_loop ::
  "('w \<Rightarrow> string option \<times> 'w) \<Rightarrow> (duration \<Rightarrow> 'w \<Rightarrow> string option \<times> 'w) \<Rightarrow> nat \<Rightarrow> duration \<Rightarrow> string option
     \<Rightarrow> 'w \<Rightarrow> string option \<times> 'w" where
  "retry_loop fn wait 0 delay err w = (err, w)"
| "retry_loop fn wait (Suc n) delay err w =
     (case fn w of
        (None, w1) \<Rightarrow> (None, w1)
      | (Some e, w1) \<Rightarrow>
         (case wait delay w1 of
            (Some ctx_err, w2) \<Rightarrow> (Some ctx_err, w2)
          | (None, w2) \<Rightarrow> retry_loop fn wait n (wrap64 (delay * 2)) (Some e) w2))"

definition RetryWithBackoff ::
  "int \<Rightarrow> duration \<Rightarrow> ('w \<Rightarrow> string option \<times> 'w) \<Rightarrow> (duration \<Rightarrow> 'w \<Rightarrow> string option \<times> 'w)
     \<Rightarrow> 'w \<Rightarrow> string option \<times> 'w" where
  "RetryWithBackoff attempts initialDelay fn wait w = retry_loop fn wait (nat attempts) initialDelay None w"

section \<open>Properties\<close>

lemma itoa_nonempty [simp]: "itoa n \<noteq> ''''"
  by (simp add: itoa_def)

text \<open>The labels round-trip: a pod labelled with a group name and the decimal text of an
  integer \<^verbatim>\<open>n\<close> reads back exactly that name and number when \<^verbatim>\<open>n\<close> is at least 1, and the
  error that names \<^verbatim>\<open>n\<close> otherwise.\<close>

theorem GetPodGroupLabels_roundtrip:
  assumes "lookup_nonempty (p_labels p) PodGroupNameLabel = Some g"
    and "lookup (p_labels p) PodGroupMinAvailableLabel = Some (itoa n)" and "i64 n"
  shows "GetPodGroupLabels (Some p) = (if n < 1 then Inl (TooSmall n) else Inr (g, n))"
  using assms atoi_itoa [OF assms(3)]
  by (simp add: GetPodGroupLabels_def first_nonempty_def lookup_nonempty_def)

definition ex_gang_pod :: pod where
  "ex_gang_pod = empty_pod \<lparr>p_name := ''w-0'', p_ns := ''ml'',
     p_labels := [(PodGroupNameLabel, ''w''), (PodGroupMinAvailableLabel, ''3'')]\<rparr>"

lemma ex_gang_pod_labels: "pg_labels ex_gang_pod = Inr (''w'', 3)"
  by code_simp

lemma GetPodGroupLabels_roundtrip_witness: "GetPodGroupLabels (Some ex_gang_pod) = Inr (''w'', 3)"
proof -
  have "lookup_nonempty (p_labels ex_gang_pod) PodGroupNameLabel = Some ''w''"
    "lookup (p_labels ex_gang_pod) PodGroupMinAvailableLabel = Some (itoa 3)" "i64 3"
    by code_simp+
  from GetPodGroupLabels_roundtrip [OF this] show ?thesis by simp
qed

lemma GetWorkloadPodGroupInfo_Some:
  assumes "GetWorkloadPodGroupInfo p client = Inr (Some i)"
  shows "pgi_from_crd i \<and> pgi_timeout i = 60 \<and> pgi_name i \<noteq> '''' \<and>
    pgi_name i = lookup_str (p_labels p) NativePodGroupLabel \<and>
    (\<exists>obj. client (p_ns p) (lookup_str (p_labels p) NativeWorkloadNameLabel) = Inr obj)"
  using assms
  by (auto simp: GetWorkloadPodGroupInfo_def Let_def dest: find_gang_Some split: if_splits sum.splits nested.splits)

text \<open>\<^verbatim>\<open>GetPodGroupInfo\<close> fails only on a nil pod: a malformed label or a failing API call is
  never an error.  What it returns has a timeout of 60 seconds and is either the group of the
  labels, exactly as they parse, or, only when the labels give no group, the gang of that name in
  the fetched \<^verbatim>\<open>Workload\<close>.\<close>

theorem GetPodGroupInfo_source:
  "(\<exists>r. GetPodGroupInfo (Some p) dc = Inr r) \<and>
   (GetPodGroupInfo (Some p) dc = Inr (Some i) \<longrightarrow>
      pgi_timeout i = 60 \<and>
      (if pgi_from_crd i
       then pg_name p = '''' \<and>
         (\<exists>client obj. dc = Some client \<and> pgi_name i = lookup_str (p_labels p) NativePodGroupLabel \<and>
            client (p_ns p) (lookup_str (p_labels p) NativeWorkloadNameLabel) = Inr obj)
       else pg_labels p = Inr (pgi_name i, pgi_min_member i) \<and> 1 \<le> pgi_min_member i))"
proof -
  define fb where "fb = (case dc of None \<Rightarrow> Inr None
     | Some client \<Rightarrow> (case GetWorkloadPodGroupInfo p client of Inr (Some i) \<Rightarrow> Inr (Some i) | _ \<Rightarrow> (Inr None :: string + _)))"
  have eq: "GetPodGroupInfo (Some p) dc = (case pg_labels p of Inl _ \<Rightarrow> fb
     | Inr (name, m) \<Rightarrow> if name \<noteq> '''' \<and> m > 0
         then Inr (Some \<lparr>pgi_name = name, pgi_min_member = m, pgi_from_crd = False, pgi_timeout = 60\<rparr>) else fb)"
    unfolding GetPodGroupInfo_def fb_def Let_def by simp
  have tot: "\<exists>r. fb = Inr r" by (auto simp: fb_def split: option.splits sum.splits)
  have fb: "fb = Inr (Some i) \<Longrightarrow> \<exists>client. dc = Some client \<and> GetWorkloadPodGroupInfo p client = Inr (Some i)"
    by (auto simp: fb_def split: option.splits sum.splits)
  show ?thesis
  proof (cases rule: GetPodGroupLabels_cases [of p])
    case (group name m)
    then show ?thesis by (auto simp: eq)
  qed (use tot fb GetWorkloadPodGroupInfo_Some in \<open>auto simp: eq pg_name_def; blast\<close>)+
qed

lemma GetPodGroupInfo_source_witness:
  "GetPodGroupInfo (Some ex_gang_pod) None =
     Inr (Some \<lparr>pgi_name = ''w'', pgi_min_member = 3, pgi_from_crd = False, pgi_timeout = 60\<rparr>) \<and>
   pg_labels ex_gang_pod = Inr (''w'', 3)"
proof -
  define i where "i = \<lparr>pgi_name = ''w'', pgi_min_member = 3, pgi_from_crd = False, pgi_timeout = 60\<rparr>"
  have "GetPodGroupInfo (Some ex_gang_pod) None = Inr (Some i)" unfolding i_def by code_simp
  then show ?thesis using GetPodGroupInfo_source [of ex_gang_pod None i] by (simp add: i_def)
qed

text \<open>Over an informer cache the size of a group is the number of pods of the namespace that
  carry the current name label, whatever the legacy labels say, and at most that many run.\<close>

theorem GetPodGroupSize_cache:
  "GetPodGroupSize (cache_lister pods) ns g =
     Inr (count_if (\<lambda>p. p_ns p = ns \<and> lookup (p_labels p) PodGroupNameLabel = Some g) pods) \<and>
   GetRunningPods (cache_lister pods) ns g =
     Inr (count_if (\<lambda>p. p_ns p = ns \<and> lookup (p_labels p) PodGroupNameLabel = Some g \<and> p_phase p = PodRunning) pods)"
  by (simp add: GetPodGroupSize_def GetRunningPods_def group_pods_def cache.list_ns_label count_if_def
      conj_commute conj_left_commute)

text \<open>
  A world that counts the calls of \<^verbatim>\<open>fn\<close>, whose outcomes are given in advance, and records the
  delays waited for.
\<close>

definition logged_fn :: "(nat \<Rightarrow> string option) \<Rightarrow> nat \<times> duration list \<Rightarrow> string option \<times> nat \<times> duration list" where
  "logged_fn outcome w = (case w of (k, ds) \<Rightarrow> (outcome k, Suc k, ds))"

definition logged_wait :: "duration \<Rightarrow> nat \<times> duration list \<Rightarrow> string option \<times> nat \<times> duration list" where
  "logged_wait d w = (case w of (k, ds) \<Rightarrow> (None, k, ds @ [d]))"

lemma retry_loop_logged:
  assumes "i64 d"
  shows "retry_loop (logged_fn out) logged_wait n d err (k, ds) =
    (if \<forall>i<n. out (k + i) \<noteq> None
     then (if n = 0 then err else out (k + n - 1), k + n, ds @ map (\<lambda>i. wrap64 (d * 2 ^ i)) [0..<n])
     else (let j = (LEAST i. out (k + i) = None)
           in (None, k + j + 1, ds @ map (\<lambda>i. wrap64 (d * 2 ^ i)) [0..<j])))"
  using assms
proof (induction n arbitrary: d err k ds)
  case (Suc n)
  have m: "wrap64 (wrap64 (d * 2) * 2 ^ i) = wrap64 (d * 2 ^ Suc i)" for i
    using wrap64_mult_left [of "d * 2" "2 ^ i"] by (simp add: mult.assoc)
  have up: "[d] @ map (\<lambda>i. wrap64 (wrap64 (d * 2) * 2 ^ i)) [0..<j] = map (\<lambda>i. wrap64 (d * 2 ^ i)) [0..<Suc j]" for j
    unfolding m upt_conv_Cons [OF zero_less_Suc] map_Suc_upt [symmetric] using Suc.prems
    by (simp add: wrap64_id del: upt_Suc)
  show ?case
  proof (cases "out k")
    case None
    then have "(LEAST i. out (k + i) = None) = 0" by (intro Least_eq_0) simp
    then show ?thesis using None by (auto simp: logged_fn_def)
  next
    case (Some e)
    have all: "(\<forall>i<Suc n. out (k + i) \<noteq> None) \<longleftrightarrow> (\<forall>i<n. out (Suc k + i) \<noteq> None)"
      using Some by (auto simp: less_Suc_eq_0_disj)
    have lst: "(LEAST i. out (k + i) = None) = Suc (LEAST i. out (Suc k + i) = None)" if "\<exists>i. out (Suc k + i) = None"
    proof -
      from that obtain i where "out (k + Suc i) = None" by auto
      from Least_Suc [of "\<lambda>i. out (k + i) = None", OF this] show ?thesis using Some by simp
    qed
    have step: "retry_loop (logged_fn out) logged_wait (Suc n) d err (k, ds) =
      retry_loop (logged_fn out) logged_wait n (wrap64 (d * 2)) (Some e) (Suc k, ds @ [d])"
      using Some by (simp add: logged_fn_def logged_wait_def)
    have eq: "ds @ map (\<lambda>i. wrap64 (d * 2 ^ i)) [0..<Suc j] =
      (ds @ [d]) @ map (\<lambda>i. wrap64 (wrap64 (d * 2) * 2 ^ i)) [0..<j]" for j
      unfolding up [symmetric] by simp
    note IH = Suc.IH [of "wrap64 (d * 2)" "Some e" "Suc k" "ds @ [d]", OF i64_wrap64]
    show ?thesis
    proof (cases "\<forall>i<n. out (Suc k + i) \<noteq> None")
      case True
      then show ?thesis unfolding step IH all eq using Some by simp
    next
      case False
      then have "\<exists>i. out (Suc k + i) = None" by auto
      from lst [OF this] False show ?thesis
        unfolding step IH all Let_def by (simp only: eq if_False) simp
    qed
  qed
qed simp

section \<open>Retries\<close>

text \<open>\<^verbatim>\<open>RetryWithBackoff\<close> calls \<^verbatim>\<open>fn\<close> until it first succeeds and at most
  \<^verbatim>\<open>attempts\<close> times, waits the initial delay and then twice the previous one after every
  failed call, the last one included, and returns the last error exactly when every call failed;
  with no attempts allowed it reports success without a call.\<close>

theorem RetryWithBackoff_calls:
  assumes "i64 d"
  shows "RetryWithBackoff n d (logged_fn out) logged_wait (0, []) =
    (if n \<le> 0 then (None, 0, [])
     else if \<forall>i<nat n. out i \<noteq> None
     then (out (nat n - 1), nat n, map (\<lambda>i. wrap64 (d * 2 ^ i)) [0..<nat n])
     else (let j = (LEAST i. out i = None) in (None, j + 1, map (\<lambda>i. wrap64 (d * 2 ^ i)) [0..<j])))"
  using retry_loop_logged [OF assms, of out "nat n" None 0 "[]"]
  by (auto simp: RetryWithBackoff_def Let_def)

lemma RetryWithBackoff_calls_witness:
  "RetryWithBackoff 3 10 (logged_fn (\<lambda>_. Some ''e'')) logged_wait (0, []) = (Some ''e'', 3, [10, 20, 40])"
proof -
  have "i64 10" by (simp add: i64_def)
  from RetryWithBackoff_calls [OF this, of 3 "\<lambda>_. Some ''e''"] show ?thesis
    by (simp add: upt_rec wrap64_def)
qed

end
