(* ===== verification/Workload.thy ===== *)
theory Workload
  imports PodGroups
begin

text \<open>
  \<^verbatim>\<open>pkg/workload/classification.go\<close>: the two-way split of pods into batch and service
  workloads that the queue, the score plugins and the profile classifier build on.
\<close>

datatype workload_type = TypeService | TypeBatch

fun workload_type_String :: "workload_type \<Rightarrow> string" where
  "workload_type_String TypeService = ''service''"
| "workload_type_String TypeBatch = ''batch''"

definition batchIndicators :: "string list" where
  "batchIndicators =
     [''spark-role'', ''spark-app-id'', ''tf-replica-type'', ''pytorch-replica-type'',
      ''mpi-job-role'', ''ray.io/node-type'', ''kubeflow.org/component'',
      ''batch.kubernetes.io/job-name'']"

definition workload_label :: string where
  "workload_label = ''workload.kubenexus.io/type''"

definition ClassifyPod :: "pod option \<Rightarrow> workload_type" where
  "ClassifyPod pod =
     (case pod of
        None \<Rightarrow> TypeService
      | Some p \<Rightarrow>
          if (case GetPodGroupLabels pod of Inl _ \<Rightarrow> False | Inr (name, minAvailable) \<Rightarrow> name \<noteq> '''' \<and> minAvailable > 0)
          then TypeBatch
          else (case lookup (p_labels p) workload_label of
                  Some workloadType \<Rightarrow> if workloadType = ''batch'' then TypeBatch else TypeService
                | None \<Rightarrow>
                    if list_ex (\<lambda>indicator. has_key (p_labels p) indicator) batchIndicators then TypeBatch
                    else if list_ex (\<lambda>kind. kind = ''Job'' \<or> kind = ''CronJob'') (p_owner_kinds p) then TypeBatch
                    else TypeService))"

definition IsBatch :: "pod option \<Rightarrow> bool" where
  "IsBatch pod \<longleftrightarrow> ClassifyPod pod = TypeBatch"

definition IsService :: "pod option \<Rightarrow> bool" where
  "IsService pod \<longleftrightarrow> ClassifyPod pod = TypeService"

lemma IsService_iff: "IsService pod \<longleftrightarrow> \<not> IsBatch pod"
  by (cases "ClassifyPod pod") (simp_all add: IsService_def IsBatch_def)

lemma ClassifyPod_group: "pg_name p \<noteq> '''' \<Longrightarrow> ClassifyPod (Some p) = TypeBatch"
  by (cases rule: GetPodGroupLabels_cases [of p]) (simp_all add: ClassifyPod_def pg_name_def)

lemma ClassifyPod_label:
  "pg_name p = '''' \<Longrightarrow> lookup (p_labels p) workload_label = Some t \<Longrightarrow>
   ClassifyPod (Some p) = (if t = ''batch'' then TypeBatch else TypeService)"
  by (cases rule: GetPodGroupLabels_cases [of p]) (simp_all add: ClassifyPod_def pg_name_def)

lemma ClassifyPod_plain:
  "pg_name p = '''' \<Longrightarrow> lookup (p_labels p) workload_label = None \<Longrightarrow>
   ClassifyPod (Some p) = TypeBatch \<longleftrightarrow>
     (\<exists>k \<in> set batchIndicators. has_key (p_labels p) k) \<or> ''Job'' \<in> set (p_owner_kinds p) \<or> ''CronJob'' \<in> set (p_owner_kinds p)"
  by (cases rule: GetPodGroupLabels_cases [of p]) (auto simp: ClassifyPod_def pg_name_def list_ex_iff)

text \<open>A pod is batch exactly when it belongs to a pod group, or its type label is
  \<^verbatim>\<open>batch\<close>, or it has no type label and carries an indicator label or an owner of kind
  \<^verbatim>\<open>Job\<close> or \<^verbatim>\<open>CronJob\<close>; a pod group decides whatever the type label says.\<close>

theorem IsBatch_iff:
  "IsBatch (Some p) \<longleftrightarrow>
     pg_name p \<noteq> '''' \<or>
     lookup (p_labels p) workload_label = Some ''batch'' \<or>
     (lookup (p_labels p) workload_label = None \<and>
      ((\<exists>k \<in> set batchIndicators. has_key (p_labels p) k) \<or>
       ''Job'' \<in> set (p_owner_kinds p) \<or> ''CronJob'' \<in> set (p_owner_kinds p)))"
  using ClassifyPod_group [of p] ClassifyPod_label [of p] ClassifyPod_plain [of p]
  by (cases "lookup (p_labels p) workload_label"; cases "pg_name p = ''''") (auto simp: IsBatch_def)

end
