(* ===== verification/Profile.thy ===== *)
theory Profile
  imports Workload
begin

text \<open>
  \<^verbatim>\<open>pkg/plugins/profileclassifier/profileclassifier.go\<close>: the PreFilter plugin that
  classifies a pod into a tenant tier and a workload type and leaves the result in the cycle state,
  where the plugins of the later phases read it.  The API client that fetches a namespace is a
  parameter: it answers a name by the labels of the namespace or an error.
\<close>

section \<open>Data\<close>

datatype tenant_tier = TierGold | TierSilver | TierBronze | TierUnknown

fun tier_string :: "tenant_tier \<Rightarrow> string" where
  "tier_string TierGold = ''gold''"
| "tier_string TierSilver = ''silver''"
| "tier_string TierBronze = ''bronze''"
| "tier_string TierUnknown = ''unknown''"

text \<open>The tiers by what they are entitled to; a tenant without a tier is last.\<close>

fun tier_level :: "tenant_tier \<Rightarrow> nat" where
  "tier_level TierUnknown = 0"
| "tier_level TierBronze = 1"
| "tier_level TierSilver = 2"
| "tier_level TierGold = 3"

lemma tier_level_inj: "tier_level s = tier_level t \<Longrightarrow> s = t"
  by (cases s; cases t) simp_all

instantiation tenant_tier :: linorder
begin

definition less_eq_tenant_tier :: "tenant_tier \<Rightarrow> tenant_tier \<Rightarrow> bool" where
  "less_eq_tenant_tier s t \<longleftrightarrow> tier_level s \<le> tier_level t"

definition less_tenant_tier :: "tenant_tier \<Rightarrow> tenant_tier \<Rightarrow> bool" where
  "less_tenant_tier s t \<longleftrightarrow> tier_level s < tier_level t"

instance
  by standard (auto simp: less_eq_tenant_tier_def less_tenant_tier_def intro: tier_level_inj)

end

lemmas tier_order = less_eq_tenant_tier_def less_tenant_tier_def

datatype profile_workload =
    WorkloadTraining | WorkloadInference | WorkloadBatch | WorkloadService | WorkloadInteractive | WorkloadUnknown

fun workload_string :: "profile_workload \<Rightarrow> string" where
  "workload_string WorkloadTraining = ''training''"
| "workload_string WorkloadInference = ''inference''"
| "workload_string WorkloadBatch = ''batch''"
| "workload_string WorkloadService = ''service''"
| "workload_string WorkloadInteractive = ''interactive''"
| "workload_string WorkloadUnknown = ''unknown''"

record scheduling_profile =
  sp_tier :: tenant_tier
  sp_tenant :: string
  sp_workload :: profile_workload
  sp_gang :: bool
  sp_preemptible :: bool
  sp_priority :: int
  sp_qos :: string

type_synonym ns_client = "string \<Rightarrow> string + string gomap"

text \<open>
  The cycle state maps keys to values of any type; the plugins tell by a type assertion whether the
  value is a profile.  A nil cycle state is \<^verbatim>\<open>None\<close>.
\<close>

datatype 'o state_data = ProfileData scheduling_profile | OtherData 'o

type_synonym 'o cycle_state = "string \<rightharpoonup> 'o state_data"

definition stateKey :: string where
  "stateKey = ''ProfileClassifier''"

section \<open>Parsers\<close>

definition parseTenantTier :: "string \<Rightarrow> tenant_tier" where
  "parseTenantTier s =
     (let l = to_lower s
      in if l = ''gold'' then TierGold
         else if l = ''silver'' then TierSilver
         else if l = ''bronze'' then TierBronze
         else TierUnknown)"

definition parseWorkloadType :: "string \<Rightarrow> profile_workload" where
  "parseWorkloadType s =
     (let l = to_lower s
      in if l = ''training'' then WorkloadTraining
         else if l = ''inference'' then WorkloadInference
         else if l = ''batch'' then WorkloadBatch
         else if l = ''service'' then WorkloadService
         else if l = ''interactive'' then WorkloadInteractive
         else WorkloadUnknown)"

definition inferTierFromName :: "string \<Rightarrow> tenant_tier" where
  "inferTierFromName name =
     (let nameLower = to_lower name
      in if contains nameLower ''prod'' then TierGold
         else if contains nameLower ''staging'' then TierSilver
         else if contains nameLower ''dev'' then TierBronze
         else TierUnknown)"

lemma parseTenantTier_string: "parseTenantTier (tier_string t) = t"
  by (cases t; hypsubst; code_simp)

lemma parseWorkloadType_string: "parseWorkloadType (workload_string w) = w"
  by (cases w; hypsubst; code_simp)

lemma parseTenantTier_lower [simp]: "parseTenantTier (to_lower s) = parseTenantTier s"
  by (simp add: parseTenantTier_def)

section \<open>Tenant classification\<close>

abbreviation queue_label :: string where "queue_label \<equiv> ''kueue.x-k8s.io/queue-name''"
abbreviation tier_label :: string where "tier_label \<equiv> ''tenant.kubenexus.io/tier''"
abbreviation tenant_label :: string where "tenant_label \<equiv> ''tenant.kubenexus.io/name''"

definition getTenantFromKueue :: "ns_client \<Rightarrow> pod \<Rightarrow> tenant_tier \<times> string" where
  "getTenantFromKueue client p =
     (case lookup (p_labels p) queue_label of
        None \<Rightarrow> (TierUnknown, '''')
      | Some queueName \<Rightarrow>
         (case client (p_ns p) of
            Inl _ \<Rightarrow> (TierUnknown, '''')
          | Inr nsl \<Rightarrow>
             (let tier = parseTenantTier (lookup_str nsl tier_label)
              in if tier \<noteq> TierUnknown then (tier, queueName)
                 else (case lookup nsl tenant_label of
                         None \<Rightarrow> (TierUnknown, '''')
                       | Some tenantName \<Rightarrow>
                          (let t = inferTierFromName tenantName
                           in if t \<noteq> TierUnknown then (t, tenantName) else (TierBronze, tenantName))))))"

definition getTenantFromNamespace :: "ns_client \<Rightarrow> pod \<Rightarrow> tenant_tier \<times> string" where
  "getTenantFromNamespace client p =
     (case client (p_ns p) of
        Inl _ \<Rightarrow> (TierUnknown, '''')
      | Inr nsl \<Rightarrow>
         (case lookup nsl tier_label of
            None \<Rightarrow> (TierUnknown, '''')
          | Some tierStr \<Rightarrow>
             (let tenantName = lookup_str nsl tenant_label
              in (parseTenantTier tierStr, if tenantName = '''' then p_ns p else tenantName))))"

definition getTenantFromPriority :: "pod \<Rightarrow> tenant_tier" where
  "getTenantFromPriority p =
     (let c = p_prio_class p
      in if c = '''' then TierUnknown
         else if c = ''high-priority'' \<or> c = ''system-cluster-critical'' \<or> c = ''system-node-critical'' then TierGold
         else if c = ''medium-priority'' \<or> c = ''default-priority'' then TierSilver
         else if c = ''low-priority'' \<or> c = ''best-effort'' then TierBronze
         else TierUnknown)"

definition getTenantFromAnnotations :: "pod \<Rightarrow> tenant_tier" where
  "getTenantFromAnnotations p =
     (case lookup (p_annots p) tier_label of Some tierStr \<Rightarrow> parseTenantTier tierStr | None \<Rightarrow> TierUnknown)"

definition classifyTenant :: "ns_client \<Rightarrow> pod \<Rightarrow> tenant_tier \<times> string" where
  "classifyTenant client p =
     (let (tier, name) = getTenantFromKueue client p
      in if tier \<noteq> TierUnknown then (tier, name)
         else let (tier, name) = getTenantFromNamespace client p
         in if tier \<noteq> TierUnknown then (tier, name)
         else let tier = getTenantFromPriority p
         in if tier \<noteq> TierUnknown then (tier, p_ns p)
         else let tier = getTenantFromAnnotations p
         in if tier \<noteq> TierUnknown then (tier, p_ns p)
         else (TierBronze, p_ns p))"

section \<open>Workload classification\<close>

definition isGangPod :: "pod \<Rightarrow> bool" where
  "isGangPod p \<longleftrightarrow>
     has_key (p_annots p) ''scheduling.kubenexus.io/min-available'' \<or>
     has_key (p_annots p) ''scheduling.x-k8s.io/pod-group'' \<or>
     has_key (p_labels p) ''gang.scheduling.kubenexus.io/name''"

fun profile_getGPURequest_loop :: "container list \<Rightarrow> int \<Rightarrow> int" where
  "profile_getGPURequest_loop [] totalGPU = totalGPU"
| "profile_getGPURequest_loop (c # cs) totalGPU =
     profile_getGPURequest_loop cs
       (case lookup (c_requests c) gpu_resource of None \<Rightarrow> totalGPU | Some q \<Rightarrow> wrap64 (totalGPU + q_value q))"

definition profile_getGPURequest :: "pod \<Rightarrow> int" where
  "profile_getGPURequest p = profile_getGPURequest_loop (p_containers p) 0"

definition isTrainingWorkload :: "pod \<Rightarrow> bool" where
  "isTrainingWorkload p \<longleftrightarrow>
     has_key (p_labels p) ''training.kubeflow.org/job-name'' \<or>
     has_key (p_labels p) ''pytorch.org/job-name'' \<or>
     has_key (p_labels p) ''tensorflow.org/job-name'' \<or>
     isGangPod p \<or>
     profile_getGPURequest p > 1"

definition isInferenceWorkload :: "pod \<Rightarrow> bool" where
  "isInferenceWorkload p \<longleftrightarrow>
     has_key (p_labels p) ''serving.kubeflow.org/inferenceservice'' \<or>
     has_key (p_labels p) ''serving.kserve.io/inferenceservice'' \<or>
     has_key (p_labels p) ''seldon.io/deployment'' \<or>
     (case lookup (p_labels p) ''app.kubernetes.io/component'' of
        None \<Rightarrow> False
      | Some role \<Rightarrow> role = ''predictor'' \<or> role = ''inference'' \<or> role = ''serving'')"

definition interactive_image :: "container \<Rightarrow> bool" where
  "interactive_image c \<longleftrightarrow>
     (let image = to_lower (c_image c)
      in contains image ''jupyter'' \<or> contains image ''rstudio'' \<or> contains image ''code-server'' \<or>
         contains image ''vscode'' \<or> contains image ''nteract'')"

definition isInteractiveWorkload :: "pod \<Rightarrow> bool" where
  "isInteractiveWorkload p \<longleftrightarrow>
     lookup (p_labels p) workload_label = Some ''interactive'' \<or>
     lookup (p_annots p) workload_label = Some ''interactive'' \<or>
     has_key (p_labels p) ''app.jupyter.org/hub-version'' \<or>
     (has_key (p_labels p) ''app.kubernetes.io/name'' \<and>
        (let name = lookup_str (p_labels p) ''app.kubernetes.io/name'' in name = ''jupyter'' \<or> name = ''jupyterhub'')) \<or>
     has_key (p_labels p) ''app.rstudio.com/rstudio-server'' \<or>
     lookup (p_labels p) ''app.kubernetes.io/name'' = Some ''rstudio'' \<or>
     (case lookup (p_labels p) ''app.kubernetes.io/name'' of
        None \<Rightarrow> False
      | Some name \<Rightarrow> name = ''code-server'' \<or> name = ''vscode'') \<or>
     (case lookup (p_labels p) ''app.kubernetes.io/name'' of
        None \<Rightarrow> False
      | Some name \<Rightarrow>
          (let app = to_lower name
           in contains app ''ide'' \<or> contains app ''repl'' \<or> contains app ''lab'' \<or> contains app ''notebook'')) \<or>
     list_ex interactive_image (p_containers p)"

definition classifyWorkload :: "pod \<Rightarrow> profile_workload" where
  "classifyWorkload p =
     (case lookup (p_labels p) workload_label of
        Some wlType \<Rightarrow> parseWorkloadType wlType
      | None \<Rightarrow>
         (case lookup (p_annots p) workload_label of
            Some wlType \<Rightarrow> parseWorkloadType wlType
          | None \<Rightarrow>
              if isInteractiveWorkload p then WorkloadInteractive
              else (case ClassifyPod (Some p) of
                      TypeBatch \<Rightarrow> if isTrainingWorkload p then WorkloadTraining else WorkloadBatch
                    | TypeService \<Rightarrow> if isInferenceWorkload p then WorkloadInference else WorkloadService)))"

definition isPreemptible :: "pod \<Rightarrow> bool" where
  "isPreemptible p =
     (case lookup (p_labels p) ''workload.kubenexus.io/preemptible'' of
        Some preemptible \<Rightarrow> preemptible = ''true''
      | None \<Rightarrow>
          if p_prio_class p = ''low-priority'' \<or> p_prio_class p = ''best-effort'' then True
          else (case p_priority p of None \<Rightarrow> False | Some v \<Rightarrow> v \<le> 100))"

section \<open>The plugin\<close>

definition classifyPod :: "ns_client \<Rightarrow> pod \<Rightarrow> scheduling_profile" where
  "classifyPod client p =
     (let (tier, name) = classifyTenant client p
      in \<lparr>sp_tier = tier, sp_tenant = name, sp_workload = classifyWorkload p, sp_gang = isGangPod p,
          sp_preemptible = isPreemptible p, sp_priority = prio_or_0 p, sp_qos = p_qos p\<rparr>)"

text \<open>The nil status is \<^verbatim>\<open>success\<close>.\<close>

definition profile_PreFilter :: "ns_client \<Rightarrow> 'o cycle_state \<Rightarrow> pod \<Rightarrow> 'o cycle_state \<times> status" where
  "profile_PreFilter client cs p = (cs(stateKey \<mapsto> ProfileData (classifyPod client p)), success)"

datatype profile_err = CycleStateNil | NotInState | NotAProfile

definition GetProfile :: "'o cycle_state option \<Rightarrow> profile_err + scheduling_profile" where
  "GetProfile state =
     (case state of
        None \<Rightarrow> Inl CycleStateNil
      | Some cs \<Rightarrow>
         (case cs stateKey of
            None \<Rightarrow> Inl NotInState
          | Some (ProfileData sp) \<Rightarrow> Inr sp
          | Some (OtherData _) \<Rightarrow> Inl NotAProfile))"

definition profile_Clone :: "scheduling_profile \<Rightarrow> scheduling_profile" where
  "profile_Clone sp =
     \<lparr>sp_tier = sp_tier sp, sp_tenant = sp_tenant sp, sp_workload = sp_workload sp, sp_gang = sp_gang sp,
      sp_preemptible = sp_preemptible sp, sp_priority = sp_priority sp, sp_qos = sp_qos sp\<rparr>"

section \<open>Properties\<close>

lemma classifyTenant_kueue:
  "fst (getTenantFromKueue client p) \<noteq> TierUnknown \<Longrightarrow> classifyTenant client p = getTenantFromKueue client p"
  by (auto simp: classifyTenant_def Let_def split: prod.splits)

lemma classifyTenant_namespace:
  "fst (getTenantFromKueue client p) = TierUnknown \<Longrightarrow> fst (getTenantFromNamespace client p) \<noteq> TierUnknown \<Longrightarrow>
   classifyTenant client p = getTenantFromNamespace client p"
  by (auto simp: classifyTenant_def Let_def split: prod.splits)

lemma classifyTenant_pod:
  "fst (getTenantFromKueue client p) = TierUnknown \<Longrightarrow> fst (getTenantFromNamespace client p) = TierUnknown \<Longrightarrow>
   classifyTenant client p =
     (if getTenantFromPriority p \<noteq> TierUnknown then getTenantFromPriority p
      else if getTenantFromAnnotations p \<noteq> TierUnknown then getTenantFromAnnotations p
      else TierBronze, p_ns p)"
  by (auto simp: classifyTenant_def Let_def split: prod.splits)

lemma namespace_tier_wins:
  assumes "client (p_ns p) = Inr nsl" and "lookup nsl tier_label = Some t"
    and "parseTenantTier t \<noteq> TierUnknown"
  shows "fst (classifyTenant client p) = parseTenantTier t"
proof -
  have ns: "fst (getTenantFromNamespace client p) = parseTenantTier t"
    using assms by (simp add: getTenantFromNamespace_def Let_def)
  have "fst (getTenantFromKueue client p) \<in> {TierUnknown, parseTenantTier t}"
    using assms by (auto simp: getTenantFromKueue_def lookup_str_def split: option.splits)
  then show ?thesis
    using ns assms(3) classifyTenant_kueue [of client p] classifyTenant_namespace [of client p] by auto
qed

text \<open>The administrator's tier label on the namespace is authoritative: when it parses to a tier,
  in any letter case, every pod of the namespace is classified in that tier, whatever its own queue
  label, priority class and annotations say.\<close>

theorem classifyTenant_namespace_tier:
  assumes "client (p_ns p) = Inr nsl" and "lookup nsl tier_label = Some t"
    and "parseTenantTier t \<noteq> TierUnknown"
  shows "fst (classifyTenant client p) = parseTenantTier t"
  by (rule namespace_tier_wins [of client p nsl t, OF assms])

definition ex_ns_client :: ns_client where
  "ex_ns_client ns = (if ns = ''ml'' then Inr [(tier_label, ''Silver'')] else Inl ''not found'')"

lemma classifyTenant_namespace_tier_witness:
  "fst (classifyTenant ex_ns_client (ex_gang_pod \<lparr>p_annots := [(tier_label, ''gold'')]\<rparr>)) = TierSilver"
proof -
  let ?p = "ex_gang_pod \<lparr>p_annots := [(tier_label, ''gold'')]\<rparr>"
  have "ex_ns_client (p_ns ?p) = Inr [(tier_label, ''Silver'')]"
    by (simp add: ex_ns_client_def ex_gang_pod_def)
  moreover have t: "parseTenantTier ''Silver'' = TierSilver" by code_simp
  ultimately show ?thesis using classifyTenant_namespace_tier [of ex_ns_client ?p "[(tier_label, ''Silver'')]" "''Silver''"]
    by simp
qed

text \<open>Every pod gets a tier: the classification is never unknown, and where neither the queue nor
  the namespace gives one the tenant is the namespace and the tier comes from the priority class,
  then from the annotation the pod carries itself, then is bronze.\<close>

theorem classifyTenant_total:
  "fst (classifyTenant client p) \<noteq> TierUnknown \<and>
   (fst (getTenantFromKueue client p) = TierUnknown \<and> fst (getTenantFromNamespace client p) = TierUnknown \<longrightarrow>
      classifyTenant client p =
        (if getTenantFromPriority p \<noteq> TierUnknown then getTenantFromPriority p
         else if getTenantFromAnnotations p \<noteq> TierUnknown then getTenantFromAnnotations p
         else TierBronze, p_ns p))"
proof -
  consider "fst (getTenantFromKueue client p) \<noteq> TierUnknown"
    | "fst (getTenantFromKueue client p) = TierUnknown" "fst (getTenantFromNamespace client p) \<noteq> TierUnknown"
    | "fst (getTenantFromKueue client p) = TierUnknown" "fst (getTenantFromNamespace client p) = TierUnknown"
    by blast
  then show ?thesis by cases (simp_all add: classifyTenant_kueue classifyTenant_namespace classifyTenant_pod)
qed

lemma classifyTenant_total_witness:
  "classifyTenant ex_ns_client (ex_gang_pod \<lparr>p_ns := ''b'', p_annots := [(tier_label, ''GOLD'')]\<rparr>) = (TierGold, ''b'')"
proof -
  let ?p = "ex_gang_pod \<lparr>p_ns := ''b'', p_annots := [(tier_label, ''GOLD'')]\<rparr>"
  have "fst (getTenantFromKueue ex_ns_client ?p) = TierUnknown" "fst (getTenantFromNamespace ex_ns_client ?p) = TierUnknown"
    "getTenantFromPriority ?p = TierUnknown" "getTenantFromAnnotations ?p = TierGold" "p_ns ?p = ''b''"
    by code_simp+
  with classifyTenant_total [of ex_ns_client ?p] show ?thesis by simp
qed

text \<open>The two classifiers of the repository. Without an explicit type a pod that is not
  interactive is training or batch for the profile exactly when \<^verbatim>\<open>ClassifyPod\<close> calls it batch,
  and its type is never unknown. They part on an explicit type label: a pod outside every pod group
  that is labelled \<^verbatim>\<open>training\<close> is a training workload for the profile and a service for
  \<^verbatim>\<open>ClassifyPod\<close>.\<close>

theorem classifyWorkload_vs_ClassifyPod:
  "(lookup (p_labels p) workload_label = None \<and> lookup (p_annots p) workload_label = None \<longrightarrow>
      classifyWorkload p \<noteq> WorkloadUnknown \<and>
      (\<not> isInteractiveWorkload p \<longrightarrow>
        (classifyWorkload p \<in> {WorkloadTraining, WorkloadBatch} \<longleftrightarrow> IsBatch (Some p)))) \<and>
   (lookup (p_labels p) workload_label = Some ''training'' \<and> pg_name p = '''' \<longrightarrow>
      classifyWorkload p = WorkloadTraining \<and> IsService (Some p))"
proof -
  have t: "parseWorkloadType ''training'' = WorkloadTraining" by code_simp
  show ?thesis
    by (auto simp: classifyWorkload_def IsBatch_def IsService_def ClassifyPod_label t split: workload_type.splits)
qed

lemma classifyWorkload_vs_ClassifyPod_witness:
  "classifyWorkload (empty_pod \<lparr>p_labels := [(workload_label, ''training'')]\<rparr>) = WorkloadTraining \<and>
   IsService (Some (empty_pod \<lparr>p_labels := [(workload_label, ''training'')]\<rparr>)) \<and>
   classifyWorkload (empty_pod \<lparr>p_owner_kinds := [''Job'']\<rparr>) = WorkloadBatch \<and>
   IsBatch (Some (empty_pod \<lparr>p_owner_kinds := [''Job'']\<rparr>))"
proof -
  let ?p = "empty_pod \<lparr>p_labels := [(workload_label, ''training'')]\<rparr>"
  let ?q = "empty_pod \<lparr>p_owner_kinds := [''Job'']\<rparr>"
  have "lookup (p_labels ?p) workload_label = Some ''training''" "pg_name ?p = ''''" by code_simp+
  then have p: "classifyWorkload ?p = WorkloadTraining \<and> IsService (Some ?p)"
    using classifyWorkload_vs_ClassifyPod [of ?p] by simp
  have "lookup (p_labels ?q) workload_label = None" "lookup (p_annots ?q) workload_label = None"
    "\<not> isInteractiveWorkload ?q" "classifyWorkload ?q = WorkloadBatch"
    by code_simp+
  with classifyWorkload_vs_ClassifyPod [of ?q] p show ?thesis by simp
qed

text \<open>What PreFilter writes, a later plugin reads: \<^verbatim>\<open>GetProfile\<close> on the state after
  \<^verbatim>\<open>PreFilter\<close> returns the classification of the pod, whatever the state held, a clone of it is
  equal to it, and no other key of the cycle state changes.\<close>

theorem GetProfile_PreFilter:
  "GetProfile (Some (fst (profile_PreFilter client cs p))) = Inr (profile_Clone (classifyPod client p)) \<and>
   (\<forall>k. k \<noteq> stateKey \<longrightarrow> fst (profile_PreFilter client cs p) k = cs k) \<and>
   st_code (snd (profile_PreFilter client cs p)) = Success"
  by (simp add: profile_PreFilter_def GetProfile_def profile_Clone_def)

lemma GetProfile_PreFilter_witness:
  "fst (profile_PreFilter ex_ns_client [''k'' \<mapsto> OtherData ()] ex_gang_pod) ''k'' = Some (OtherData ())"
proof -
  have "''k'' \<noteq> stateKey" by (simp add: stateKey_def)
  with GetProfile_PreFilter [of ex_ns_client "[''k'' \<mapsto> OtherData ()]" ex_gang_pod] show ?thesis by simp
qed

end
