(* ===== verification/Coscheduling.thy ===== *)
theory Coscheduling
  imports Profile Interfaces
begin

text \<open>
  \<^verbatim>\<open>pkg/plugins/coscheduling/coscheduling.go\<close>: the order of the scheduling queue, the cache
  of pod groups with its eviction, and the gang checks of the PreFilter, Permit and Unreserve phases.

  The state is the map of pod groups and its counter.  A reading of the clock is an argument.  The
  framework's set of waiting pods is a list; \<^verbatim>\<open>Permit\<close> and \<^verbatim>\<open>Unreserve\<close> return which of
  them they allow or reject.
\<close>

section \<open>State\<close>

record pg_entry =
  pe_name :: string
  pe_namespace :: string
  pe_min_available :: int
  pe_timestamp :: time
  pe_last_update :: time

record pg_state =
  podGroupInfos :: "(string \<times> pg_entry) list"
  podGroupCount :: int

record queued =
  q_pod :: pod
  q_timestamp :: time

definition staleEntryTTL :: duration where
  "staleEntryTTL = seconds 600"

definition maxPodGroupEntries :: int where
  "maxPodGroupEntries = 50000"

definition PermitWaitingTime :: duration where
  "PermitWaitingTime = seconds 10"

definition StarvationThreshold :: duration where
  "StarvationThreshold = seconds 60"

definition empty_pg_state :: pg_state where
  "empty_pg_state = \<lparr>podGroupInfos = [], podGroupCount = 0\<rparr>"

text \<open>\<^verbatim>\<open>podGroupInfos.Delete(key)\<close> followed by \<^verbatim>\<open>podGroupCount.Add(-1)\<close>.\<close>

definition delete_entry :: "string \<Rightarrow> pg_state \<Rightarrow> pg_state" where
  "delete_entry k st =
     st\<lparr>podGroupInfos := filter (\<lambda>(k', _). k' \<noteq> k) (podGroupInfos st), podGroupCount := podGroupCount st - 1\<rparr>"

section \<open>Eviction\<close>

text \<open>The inner loop of the selection: the index of the oldest entry from \<^verbatim>\<open>i\<close> on.\<close>

definition oldest_idx :: "(string \<times> time) list \<Rightarrow> nat \<Rightarrow> nat" where
  "oldest_idx es i =
     foldl (\<lambda>oldestIdx j. if snd (es ! j) < snd (es ! oldestIdx) then j else oldestIdx) i [i + 1..<length es]"

definition swap :: "'a list \<Rightarrow> nat \<Rightarrow> nat \<Rightarrow> 'a list" where
  "swap xs i j = xs[i := xs ! j, j := xs ! i]"

text \<open>The outer loop, \<^verbatim>\<open>n\<close> iterations from index \<^verbatim>\<open>i\<close>.\<close>

fun evict_loop :: "nat \<Rightarrow> nat \<Rightarrow> (string \<times> time) list \<Rightarrow> pg_state \<Rightarrow> pg_state" where
  "evict_loop 0 i es st = st"
| "evict_loop (Suc n) i es st =
     (if i < length es
      then (let es' = swap es i (oldest_idx es i)
            in evict_loop n (i + 1) es' (delete_entry (fst (es' ! i)) st))
      else st)"

definition evictOldestEntries :: "pg_state \<Rightarrow> pg_state" where
  "evictOldestEntries st =
     (let entries = map (\<lambda>(k, i). (k, pe_last_update i)) (podGroupInfos st);
          evictCount = (let c = length entries div 5 in if c < 1 then 1 else c)
      in evict_loop evictCount 0 entries st)"

text \<open>One tick of the cleanup goroutine at time \<^verbatim>\<open>now\<close>: a \<^verbatim>\<open>Range\<close> over the map.\<close>

definition cleanup_tick :: "time \<Rightarrow> pg_state \<Rightarrow> pg_state" where
  "cleanup_tick now st =
     foldl (\<lambda>s (k, i). if time_sub now (pe_last_update i) > staleEntryTTL then delete_entry k s else s)
       st (podGroupInfos st)"

section \<open>Queue order\<close>

definition getPodGroupInfoFromQueued :: "time \<Rightarrow> queued \<Rightarrow> pg_state \<Rightarrow> pg_entry \<times> pg_state" where
  "getPodGroupInfoFromQueued now q st =
     (let p = q_pod q;
          regular = \<lparr>pe_name = '''', pe_namespace = p_ns p, pe_min_available = 0,
                     pe_timestamp = q_timestamp q, pe_last_update = 0\<rparr>
      in (case pg_labels p of
            Inl _ \<Rightarrow> (regular, st)
          | Inr (podGroupName, minAvailable) \<Rightarrow>
              if podGroupName \<noteq> '''' \<and> minAvailable > 1
              then (let key = GetPodGroupKey (p_ns p) podGroupName
                    in (case lookup (podGroupInfos st) key of
                          Some pgInfo \<Rightarrow> (pgInfo, st)
                        | None \<Rightarrow>
                           (let st1 = (if podGroupCount st \<ge> maxPodGroupEntries then evictOldestEntries st else st);
                                pgInfo = \<lparr>pe_name = podGroupName, pe_namespace = p_ns p,
                                          pe_min_available = minAvailable,
                                          pe_timestamp = q_timestamp q, pe_last_update = now\<rparr>
                            in (case lookup (podGroupInfos st1) key of
                                  None \<Rightarrow> (pgInfo, st1\<lparr>podGroupInfos := (key, pgInfo) # podGroupInfos st1,
                                                         podGroupCount := podGroupCount st1 + 1\<rparr>)
                                | Some _ \<Rightarrow> (pgInfo, st1)))))
              else (regular, st)))"

text \<open>The comparison of two pods once their group infos are known.\<close>

definition queue_less :: "time \<Rightarrow> pod \<times> pg_entry \<Rightarrow> pod \<times> pg_entry \<Rightarrow> bool" where
  "queue_less now x y =
     (let (pod1, pgInfo1) = x; (pod2, pgInfo2) = y;
          starving1 = (time_sub now (pe_timestamp pgInfo1) > StarvationThreshold);
          starving2 = (time_sub now (pe_timestamp pgInfo2) > StarvationThreshold)
      in if starving1 \<and> \<not> starving2 then True
         else if \<not> starving1 \<and> starving2 then False
         else let priority1 = prio_or_0 pod1; priority2 = prio_or_0 pod2
         in if priority1 \<noteq> priority2 then priority1 > priority2
         else let time1 = pe_timestamp pgInfo1; time2 = pe_timestamp pgInfo2
         in if time1 \<noteq> time2 then time1 < time2
         else GetPodGroupKey (p_ns pod1) (pe_name pgInfo1) < GetPodGroupKey (p_ns pod2) (pe_name pgInfo2))"

text \<open>
  \<^verbatim>\<open>Less\<close> reads the clock up to three times: for either entry it inserts, and once to compare.
\<close>

definition Less :: "time \<Rightarrow> time \<Rightarrow> time \<Rightarrow> queued \<Rightarrow> queued \<Rightarrow> pg_state \<Rightarrow> bool \<times> pg_state" where
  "Less t1 t2 now podInfo1 podInfo2 st =
     (let (pgInfo1, st1) = getPodGroupInfoFromQueued t1 podInfo1 st;
          (pgInfo2, st2) = getPodGroupInfoFromQueued t2 podInfo2 st1
      in (queue_less now (q_pod podInfo1, pgInfo1) (q_pod podInfo2, pgInfo2), st2))"

section \<open>Gang checks\<close>

text \<open>The pods under the current label, or under the legacy one when there are none.\<close>

definition gang_list :: "pod_lister \<Rightarrow> string \<Rightarrow> string \<Rightarrow> string + pod list" where
  "gang_list lister podGroupName namespace =
     (case pl_ns_list lister namespace (Some (PodGroupNameLabel, podGroupName)) of
        Inr (p # ps) \<Rightarrow> Inr (p # ps)
      | _ \<Rightarrow> pl_ns_list lister namespace (Some (LegacyPodGroupNameLabel, podGroupName)))"

definition calculateTotalPods :: "pod_lister \<Rightarrow> string \<Rightarrow> string \<Rightarrow> int" where
  "calculateTotalPods lister podGroupName namespace =
     (case gang_list lister podGroupName namespace of Inl _ \<Rightarrow> 0 | Inr pods \<Rightarrow> int (length pods))"

definition counts_active :: "string \<Rightarrow> pod \<Rightarrow> bool" where
  "counts_active excludeName p \<longleftrightarrow>
     \<not> (excludeName \<noteq> '''' \<and> p_name p = excludeName) \<and> \<not> p_deleted p \<and>
     (p_phase p = PodRunning \<or> p_phase p = PodPending \<or> p_phase p = '''')"

definition calculateRunningPodsExcluding :: "pod_lister \<Rightarrow> string \<Rightarrow> string \<Rightarrow> string \<Rightarrow> int" where
  "calculateRunningPodsExcluding lister podGroupName namespace excludeName =
     (case gang_list lister podGroupName namespace of
        Inl _ \<Rightarrow> 0
      | Inr pods \<Rightarrow> count_if (counts_active excludeName) pods)"

definition waits_in_gang :: "string \<Rightarrow> string \<Rightarrow> pod \<Rightarrow> bool" where
  "waits_in_gang podGroupName namespace w \<longleftrightarrow>
     p_ns w = namespace \<and>
     (lookup (p_labels w) PodGroupNameLabel = Some podGroupName \<or>
      lookup (p_labels w) LegacyPodGroupNameLabel = Some podGroupName)"

text \<open>
  \<^verbatim>\<open>None\<close> is a framework handle that is nil, or whose \<^verbatim>\<open>IterateOverWaitingPods\<close> panics,
  which the code recovers from.
\<close>

type_synonym waiting_pods = "pod list option"

definition calculateWaitingPods :: "waiting_pods \<Rightarrow> string \<Rightarrow> string \<Rightarrow> int" where
  "calculateWaitingPods handle podGroupName namespace =
     (case handle of None \<Rightarrow> 0 | Some ws \<Rightarrow> count_if (waits_in_gang podGroupName namespace) ws)"

text \<open>\<^verbatim>\<open>True\<close> is the empty, non-nil \<^verbatim>\<open>PreFilterResult\<close>.\<close>

definition cosched_PreFilter :: "pod_lister \<Rightarrow> 'o cycle_state option \<Rightarrow> pod \<Rightarrow> bool \<times> status" where
  "cosched_PreFilter lister state p =
     (let check_labels = (\<lambda>isGang.
        case pg_labels p of
          Inl e \<Rightarrow> (False, mk_status Error (label_err_text e))
        | Inr (podGroupName, minAvailable) \<Rightarrow>
            if \<not> isGang \<and> (podGroupName = '''' \<or> minAvailable \<le> 1) then (False, success)
            else let total = calculateTotalPods lister podGroupName (p_ns p)
            in if total < minAvailable
               then (False, mk_status Unschedulable
                       (''pod group has '' @ itoa total @ '' pods, needs at least '' @ itoa minAvailable))
               else (True, success))
      in (case GetProfile state of
            Inr profile \<Rightarrow> if \<not> sp_gang profile then (False, success) else check_labels (sp_gang profile)
          | Inl _ \<Rightarrow> check_labels False))"

text \<open>The waiting pods \<^verbatim>\<open>Permit\<close> allows, and those \<^verbatim>\<open>Unreserve\<close> rejects.\<close>

definition same_gang :: "string \<Rightarrow> string \<Rightarrow> pod \<Rightarrow> bool" where
  "same_gang podGroupName namespace w \<longleftrightarrow> p_ns w = namespace \<and> pg_name w = podGroupName"

definition Permit :: "pod_lister \<Rightarrow> waiting_pods \<Rightarrow> pod \<Rightarrow> status \<times> duration \<times> pod list" where
  "Permit lister handle p =
     (case pg_labels p of
        Inl _ \<Rightarrow> (success, 0, [])
      | Inr (podGroupName, minAvailable) \<Rightarrow>
          if podGroupName = '''' \<or> minAvailable \<le> 1 then (success, 0, [])
          else let namespace = p_ns p;
                   running = calculateRunningPodsExcluding lister podGroupName namespace (p_name p);
                   waiting = calculateWaitingPods handle podGroupName namespace;
                   current = running + waiting + 1
          in if current < minAvailable then (mk_status Wait '''', PermitWaitingTime, [])
             else (success, 0, case handle of None \<Rightarrow> [] | Some ws \<Rightarrow> filter (same_gang podGroupName namespace) ws))"

definition cosched_Reserve :: "pod \<Rightarrow> string \<Rightarrow> status" where
  "cosched_Reserve p nodeName = success"

definition cosched_Unreserve :: "pod list \<Rightarrow> pod \<Rightarrow> pod list" where
  "cosched_Unreserve ws p =
     (case pg_labels p of
        Inl _ \<Rightarrow> []
      | Inr (podGroupName, _) \<Rightarrow>
          if podGroupName = '''' then [] else filter (same_gang podGroupName (p_ns p)) ws)"

section \<open>Eviction: which entries go\<close>

lemma oldest_idx:
  assumes "i < length es"
  shows "i \<le> oldest_idx es i \<and> oldest_idx es i < length es \<and>
    (\<forall>j. i \<le> j \<and> j < length es \<longrightarrow> snd (es ! oldest_idx es i) \<le> snd (es ! j))"
proof -
  define f where "f = (\<lambda>oldestIdx j. if snd (es ! j) < snd (es ! oldestIdx) then j else oldestIdx)"
  have "i \<le> foldl f i [i + 1..<k] \<and> foldl f i [i + 1..<k] < k \<and>
      (\<forall>j. i \<le> j \<and> j < k \<longrightarrow> snd (es ! foldl f i [i + 1..<k]) \<le> snd (es ! j))" if "i < k" for k
    using that
  proof (induction k)
    case (Suc k)
    show ?case
    proof (cases "i = k")
      case False
      then have "i < k" using Suc.prems by simp
      with Suc.IH show ?thesis
        by (auto simp: f_def less_Suc_eq)
    next
      case True
      have "snd (es ! k) \<le> snd (es ! j)" if "k \<le> j" "j < Suc k" for j
      proof -
        have "j = k" using that by linarith
        then show ?thesis by simp
      qed
      with True show ?thesis by simp
    qed
  qed simp
  from this [OF assms] show ?thesis by (simp add: oldest_idx_def f_def)
qed

lemma swap_drop:
  assumes "i \<le> m" "m < length es"
  shows "mset (drop i (swap es i m)) = mset (drop i es)"
    and "drop i (swap es i m) = es ! m # drop (i + 1) (swap es i m)"
    and "swap es i m ! i = es ! m" and "length (swap es i m) = length es"
proof -
  have "drop i (swap es i m) = (drop i es)[0 := drop i es ! (m - i), m - i := drop i es ! 0]"
    using assms by (simp add: swap_def drop_update_swap)
  moreover have "m - i < length (drop i es)" "0 < length (drop i es)" using assms by simp_all
  ultimately show "mset (drop i (swap es i m)) = mset (drop i es)"
    using mset_swap [of "m - i" "drop i es" 0] by simp
  show len: "length (swap es i m) = length es" by (simp add: swap_def)
  show nth: "swap es i m ! i = es ! m" using assms by (cases "i = m") (simp_all add: swap_def)
  show "drop i (swap es i m) = es ! m # drop (i + 1) (swap es i m)"
    using Cons_nth_drop_Suc [of i "swap es i m"] assms len nth by simp
qed

lemma evict_loop_spec:
  assumes "i \<le> length es"
  shows "\<exists>D R. mset (drop i es) = mset D + mset R \<and> length D = min n (length es - i) \<and>
    (\<forall>d \<in> set D. \<forall>r \<in> set R. snd d \<le> snd r) \<and>
    evict_loop n i es st =
      st\<lparr>podGroupInfos := filter (\<lambda>(k, _). k \<notin> fst ` set D) (podGroupInfos st),
         podGroupCount := podGroupCount st - int (length D)\<rparr>"
  using assms
proof (induction n i es st rule: evict_loop.induct)
  case (1 i es st)
  show ?case by (rule exI [of _ "[]"], rule exI [of _ "drop i es"]) simp
next
  case (2 n i es st)
  show ?case
  proof (cases "i < length es")
    case False
    with 2 have "drop i es = []" by simp
    with False 2 show ?thesis by (intro exI [of _ "[]"]) simp
  next
    case True
    define m where "m = oldest_idx es i"
    define es' where "es' = swap es i m"
    have m: "i \<le> m" "m < length es" "\<And>j. i \<le> j \<Longrightarrow> j < length es \<Longrightarrow> snd (es ! m) \<le> snd (es ! j)"
      using oldest_idx [OF True] by (simp_all add: m_def)
    note sw = swap_drop [OF m(1,2), folded es'_def]
    from "2.IH" [OF True, of es'] True
    obtain D R where D: "mset (drop (i + 1) es') = mset D + mset R"
      "length D = min n (length es - (i + 1))" "\<forall>d \<in> set D. \<forall>r \<in> set R. snd d \<le> snd r"
      "evict_loop n (i + 1) es' (delete_entry (fst (es' ! i)) st) =
        (delete_entry (fst (es' ! i)) st)\<lparr>podGroupInfos := filter (\<lambda>(k, _). k \<notin> fst ` set D) (podGroupInfos (delete_entry (fst (es' ! i)) st)),
         podGroupCount := podGroupCount (delete_entry (fst (es' ! i)) st) - int (length D)\<rparr>"
      by (auto simp: es'_def m_def sw swap_def)
    have ms: "mset (drop i es) = mset (es ! m # D) + mset R"
      using sw(1) sw(2) D(1) by simp
    have "set R \<subseteq> set (drop i es)" using arg_cong [OF ms, of set_mset] by auto
    moreover have "snd (es ! m) \<le> snd r" if "r \<in> set (drop i es)" for r
    proof -
      from that obtain j where "j < length es - i" "r = es ! (i + j)" by (auto simp: in_set_conv_nth)
      then show ?thesis using m(3) [of "i + j"] by simp
    qed
    ultimately have min: "\<forall>r \<in> set R. snd (es ! m) \<le> snd r" by blast
    have "evict_loop (Suc n) i es st = st\<lparr>podGroupInfos := filter (\<lambda>(k, _). k \<notin> fst ` set (es ! m # D)) (podGroupInfos st),
         podGroupCount := podGroupCount st - int (length (es ! m # D))\<rparr>"
      using True D(4) sw(3)
      by (simp add: Let_def flip: m_def es'_def) (simp add: delete_entry_def case_prod_beta' diff_diff_eq)
    with ms min D(2,3) True show ?thesis
      by (intro exI [of _ "es ! m # D"] exI [of _ R]) auto
  qed
qed

text \<open>The well-formed states of the cache: one entry per key, counted, each under its own key.\<close>

definition entry_ok :: "string \<times> pg_entry \<Rightarrow> bool" where
  "entry_ok e \<longleftrightarrow> fst e = GetPodGroupKey (pe_namespace (snd e)) (pe_name (snd e)) \<and>
     pe_name (snd e) \<noteq> '''' \<and> pe_min_available (snd e) \<ge> 2"

definition pg_wf :: "pg_state \<Rightarrow> bool" where
  "pg_wf st \<longleftrightarrow> distinct (map fst (podGroupInfos st)) \<and>
     podGroupCount st = int (length (podGroupInfos st)) \<and>
     podGroupCount st \<le> maxPodGroupEntries \<and>
     list_all entry_ok (podGroupInfos st)"

lemma pg_wf_empty [simp]: "pg_wf empty_pg_state"
  by (simp add: pg_wf_def empty_pg_state_def maxPodGroupEntries_def)

lemma length_filter_keys:
  assumes "distinct (map fst xs)" "distinct ks" "set ks \<subseteq> fst ` set xs"
  shows "length (filter (\<lambda>(k, _). k \<notin> set ks) xs) + length ks = length xs"
proof -
  have "set (map fst (filter (\<lambda>(k, _). k \<notin> set ks) xs)) = fst ` set xs - set ks" by auto
  moreover have "distinct (map fst (filter (\<lambda>(k, _). k \<notin> set ks) xs))"
    using assms(1) by (rule distinct_map_filter)
  ultimately have "length (filter (\<lambda>(k, _). k \<notin> set ks) xs) = card (fst ` set xs - set ks)"
    by (metis distinct_card length_map)
  also have "\<dots> = length xs - length ks"
    using assms by (metis card_Diff_subset distinct_card finite_set length_map list.set_map)
  finally show ?thesis
    using assms by (metis card_mono distinct_card finite_imageI finite_set le_add_diff_inverse2 length_map list.set_map)
qed

lemma filter_keys_wf:
  assumes "distinct (map fst xs)" "list_all entry_ok xs"
  shows "distinct (map fst (filter P xs)) \<and> list_all entry_ok (filter P xs)"
  using assms by (auto simp: list_all_iff intro: distinct_map_filter)

lemma evictOldestEntries_obtain:
  assumes "distinct (map fst (podGroupInfos st))"
  obtains ks where "distinct ks" "set ks \<subseteq> fst ` set (podGroupInfos st)"
    "length ks = min (max 1 (length (podGroupInfos st) div 5)) (length (podGroupInfos st))"
    "\<And>k i k' i'. (k, i) \<in> set (podGroupInfos st) \<Longrightarrow> (k', i') \<in> set (podGroupInfos st) \<Longrightarrow>
       k \<in> set ks \<Longrightarrow> k' \<notin> set ks \<Longrightarrow> pe_last_update i \<le> pe_last_update i'"
    "evictOldestEntries st = st\<lparr>podGroupInfos := filter (\<lambda>(k, _). k \<notin> set ks) (podGroupInfos st),
       podGroupCount := podGroupCount st - int (length ks)\<rparr>"
proof -
  define es where "es = map (\<lambda>(k, i). (k, pe_last_update i)) (podGroupInfos st)"
  define n where "n = max 1 (length es div 5)"
  have keys: "map fst es = map fst (podGroupInfos st)" by (simp add: es_def case_prod_beta)
  obtain D R where D: "mset es = mset D + mset R" "length D = min n (length es)"
    "\<forall>d \<in> set D. \<forall>r \<in> set R. snd d \<le> snd r"
    "evict_loop n 0 es st = st\<lparr>podGroupInfos := filter (\<lambda>(k, _). k \<notin> fst ` set D) (podGroupInfos st),
         podGroupCount := podGroupCount st - int (length D)\<rparr>"
    using evict_loop_spec [of 0 es n st] by auto
  have ev: "evictOldestEntries st = evict_loop n 0 es st"
    by (simp add: evictOldestEntries_def Let_def es_def n_def max_def)
  have "mset (map fst es) = mset (map fst D) + mset (map fst R)" using D(1) by (metis image_mset_union mset_map)
  then have mm: "mset (map fst D @ map fst R) = mset (map fst (podGroupInfos st))" by (simp add: keys)
  then have dist: "distinct (map fst D @ map fst R)" using assms by (metis mset_eq_imp_distinct_iff)
  have sets: "set es = set D \<union> set R" using arg_cong [OF D(1), of set_mset] by simp
  show thesis
  proof (rule that [of "map fst D"])
    show "distinct (map fst D)" using dist by simp
    show "set (map fst D) \<subseteq> fst ` set (podGroupInfos st)"
      using arg_cong [OF mm, of set_mset] by auto
    show "length (map fst D) = min (max 1 (length (podGroupInfos st) div 5)) (length (podGroupInfos st))"
      using D(2) by (simp add: n_def es_def)
    show "evictOldestEntries st = st\<lparr>podGroupInfos := filter (\<lambda>(k, _). k \<notin> set (map fst D)) (podGroupInfos st),
       podGroupCount := podGroupCount st - int (length (map fst D))\<rparr>"
      using ev D(4) by simp
    fix k i k' i'
    assume a: "(k, i) \<in> set (podGroupInfos st)" "(k', i') \<in> set (podGroupInfos st)"
      "k \<in> set (map fst D)" "k' \<notin> set (map fst D)"
    have "(k, pe_last_update i) \<in> set es" "(k', pe_last_update i') \<in> set es"
      using a(1,2) by (force simp: es_def)+
    moreover have "(k, pe_last_update i) \<notin> set R" using a(3) dist by force
    moreover have "(k', pe_last_update i') \<notin> set D" using a(4) by force
    ultimately show "pe_last_update i \<le> pe_last_update i'" using D(3) sets by fastforce
  qed
qed

lemma evictOldestEntries_sub:
  assumes "distinct (map fst (podGroupInfos st))"
  shows "set (podGroupInfos (evictOldestEntries st)) \<subseteq> set (podGroupInfos st)"
  by (rule evictOldestEntries_obtain [OF assms]) auto

lemma evictOldestEntries_wf:
  assumes "pg_wf st"
  shows "pg_wf (evictOldestEntries st) \<and>
    podGroupCount (evictOldestEntries st) = podGroupCount st - min (max 1 (podGroupCount st div 5)) (podGroupCount st)"
proof -
  have wf: "distinct (map fst (podGroupInfos st))" "podGroupCount st = int (length (podGroupInfos st))"
    "podGroupCount st \<le> maxPodGroupEntries" "list_all entry_ok (podGroupInfos st)"
    using assms by (simp_all add: pg_wf_def)
  from wf(1) obtain ks where ks: "distinct ks" "set ks \<subseteq> fst ` set (podGroupInfos st)"
    "length ks = min (max 1 (length (podGroupInfos st) div 5)) (length (podGroupInfos st))"
    "evictOldestEntries st = st\<lparr>podGroupInfos := filter (\<lambda>(k, _). k \<notin> set ks) (podGroupInfos st),
       podGroupCount := podGroupCount st - int (length ks)\<rparr>"
    by (rule evictOldestEntries_obtain) blast
  have "int (length (filter (\<lambda>(k, _). k \<notin> set ks) (podGroupInfos st))) = podGroupCount st - int (length ks)"
    using length_filter_keys [OF wf(1) ks(1,2)] wf(2) by linarith
  moreover have "int (length ks) = min (max 1 (podGroupCount st div 5)) (podGroupCount st)"
    unfolding ks(3) wf(2) by (simp add: zdiv_int of_nat_min of_nat_max)
  ultimately show ?thesis
    using filter_keys_wf [OF wf(1,4)] wf(3) by (simp add: pg_wf_def ks(4))
qed

definition stale :: "time \<Rightarrow> pg_entry \<Rightarrow> bool" where
  "stale now i \<longleftrightarrow> time_sub now (pe_last_update i) > staleEntryTTL"

lemma stale_iff: "stale now i \<longleftrightarrow> now - pe_last_update i > staleEntryTTL"
  by (simp add: stale_def time_sub_gt_iff staleEntryTTL_def seconds_def)

lemma cleanup_foldl:
  "foldl (\<lambda>s (k, i). if time_sub now (pe_last_update i) > staleEntryTTL then delete_entry k s else s) st xs =
   st\<lparr>podGroupInfos := filter (\<lambda>(k, _). k \<notin> fst ` set (filter (\<lambda>(_, i). stale now i) xs)) (podGroupInfos st),
      podGroupCount := podGroupCount st - count_if (\<lambda>(_, i). stale now i) xs\<rparr>"
proof (induction xs arbitrary: st)
  case (Cons e xs)
  obtain k i where e: "e = (k, i)" by (cases e)
  show ?case
    unfolding e foldl_Cons prod.case Cons.IH
    by (auto simp: stale_def delete_entry_def case_prod_beta' diff_diff_eq intro!: filter_cong)
qed (simp add: case_prod_beta')

lemma cleanup_tick_spec:
  assumes "distinct (map fst (podGroupInfos st))"
  shows "cleanup_tick now st =
    st\<lparr>podGroupInfos := filter (\<lambda>(_, i). \<not> stale now i) (podGroupInfos st),
       podGroupCount := podGroupCount st - count_if (\<lambda>(_, i). stale now i) (podGroupInfos st)\<rparr>"
proof -
  have "filter (\<lambda>(k, _). k \<notin> fst ` set (filter (\<lambda>(_, i). stale now i) (podGroupInfos st))) (podGroupInfos st) =
    filter (\<lambda>(_, i). \<not> stale now i) (podGroupInfos st)"
    using assms by (intro filter_cong) (auto simp: image_iff dest: eq_key_imp_eq_value)
  then show ?thesis by (simp add: cleanup_tick_def cleanup_foldl)
qed

lemma cleanup_tick_wf:
  assumes "pg_wf st"
  shows "pg_wf (cleanup_tick now st)"
proof -
  have "podGroupCount st = int (length (podGroupInfos st))" using assms by (simp add: pg_wf_def)
  moreover have "length (filter (\<lambda>(_, i). \<not> stale now i) (podGroupInfos st)) + length (filter (\<lambda>(_, i). stale now i) (podGroupInfos st)) = length (podGroupInfos st)"
    using sum_length_filter_compl [of "\<lambda>(_, i). stale now i" "podGroupInfos st"]
    by (simp add: case_prod_beta' add.commute)
  ultimately show ?thesis
    using assms filter_keys_wf [of "podGroupInfos st" "\<lambda>(_, i). \<not> stale now i"] count_if_nonneg [of "\<lambda>(_, i). stale now i" "podGroupInfos st"]
    by (auto simp: pg_wf_def cleanup_tick_spec count_if_def)
qed

section \<open>Reachable states of the cache\<close>

text \<open>Whether a queued pod is a member of a gang, by its labels, and the key of the gang.\<close>

definition gang_key :: "pod \<Rightarrow> string option" where
  "gang_key p = (case pg_labels p of Inl _ \<Rightarrow> None
     | Inr (name, m) \<Rightarrow> if name \<noteq> '''' \<and> m > 1 then Some (GetPodGroupKey (p_ns p) name) else None)"

lemma getPodGroupInfo_regular:
  "gang_key (q_pod q) = None \<Longrightarrow> getPodGroupInfoFromQueued now q st =
     (\<lparr>pe_name = '''', pe_namespace = p_ns (q_pod q), pe_min_available = 0, pe_timestamp = q_timestamp q, pe_last_update = 0\<rparr>, st)"
  by (auto simp: gang_key_def getPodGroupInfoFromQueued_def Let_def split: sum.splits prod.splits if_splits)

lemma getPodGroupInfo_hit:
  "gang_key (q_pod q) = Some k \<Longrightarrow> lookup (podGroupInfos st) k = Some i \<Longrightarrow>
   getPodGroupInfoFromQueued now q st = (i, st)"
  by (auto simp: gang_key_def getPodGroupInfoFromQueued_def Let_def split: sum.splits prod.splits if_splits)

lemma getPodGroupInfo_miss:
  assumes "gang_key (q_pod q) = Some k" "lookup (podGroupInfos st) k = None" "pg_wf st"
  obtains i st1 where "entry_ok (k, i)" "pe_timestamp i = q_timestamp q" "pe_last_update i = now"
    "st1 = (if podGroupCount st \<ge> maxPodGroupEntries then evictOldestEntries st else st)"
    "pg_wf st1" "podGroupCount st1 < maxPodGroupEntries" "lookup (podGroupInfos st1) k = None"
    "getPodGroupInfoFromQueued now q st =
       (i, st1\<lparr>podGroupInfos := (k, i) # podGroupInfos st1, podGroupCount := podGroupCount st1 + 1\<rparr>)"
proof -
  obtain name m where n: "pg_labels (q_pod q) = Inr (name, m)" "name \<noteq> ''''" "m > 1"
    "k = GetPodGroupKey (p_ns (q_pod q)) name"
    using assms(1) by (auto simp: gang_key_def split: sum.splits prod.splits if_splits)
  define st1 where "st1 = (if podGroupCount st \<ge> maxPodGroupEntries then evictOldestEntries st else st)"
  define i where "i = \<lparr>pe_name = name, pe_namespace = p_ns (q_pod q), pe_min_available = m,
     pe_timestamp = q_timestamp q, pe_last_update = now\<rparr>"
  have dist: "distinct (map fst (podGroupInfos st))" using assms(3) by (simp add: pg_wf_def)
  have none: "lookup (podGroupInfos st1) k = None"
    using assms(2) evictOldestEntries_sub [OF dist] by (auto simp: st1_def map_of_eq_None_iff)
  have wf: "pg_wf st1" using assms(3) evictOldestEntries_wf by (simp add: st1_def)
  have "podGroupCount st1 < maxPodGroupEntries"
    using assms(3) evictOldestEntries_wf [OF assms(3)] by (auto simp: st1_def maxPodGroupEntries_def pg_wf_def)
  moreover have "getPodGroupInfoFromQueued now q st =
       (i, st1\<lparr>podGroupInfos := (k, i) # podGroupInfos st1, podGroupCount := podGroupCount st1 + 1\<rparr>)"
    using assms(2) n none by (simp add: getPodGroupInfoFromQueued_def Let_def st1_def [symmetric] i_def)
  ultimately show thesis using n wf none that [of i st1] by (simp add: i_def entry_ok_def st1_def)
qed

lemma getPodGroupInfo_wf:
  assumes "pg_wf st"
  shows "pg_wf (snd (getPodGroupInfoFromQueued now q st))"
proof (cases "gang_key (q_pod q)")
  case None
  then show ?thesis using assms by (simp add: getPodGroupInfo_regular)
next
  case (Some k)
  show ?thesis
  proof (cases "lookup (podGroupInfos st) k")
    case None
    from Some None assms show ?thesis
      by (rule getPodGroupInfo_miss [where now = now]) (auto simp: pg_wf_def map_of_eq_None_iff image_iff)
  next
    case (Some i)
    with \<open>gang_key (q_pod q) = Some k\<close> assms show ?thesis by (simp add: getPodGroupInfo_hit)
  qed
qed

text \<open>
  The operations that change the cache, in any order and at any times: a comparison of two queued
  pods, and a tick of the cleanup goroutine.  Each is one step (the two goroutines are not
  interleaved within an operation).
\<close>

inductive cache_step :: "pg_state \<Rightarrow> pg_state \<Rightarrow> bool" where
  step_less: "cache_step st (snd (Less t1 t2 now q1 q2 st))"
| step_tick: "cache_step st (cleanup_tick now st)"

inductive cache_reachable :: "pg_state \<Rightarrow> bool" where
  reach_init: "cache_reachable empty_pg_state"
| reach_step: "cache_reachable st \<Longrightarrow> cache_step st st' \<Longrightarrow> cache_reachable st'"

inductive_cases cache_stepE: "cache_step st st'"

lemma Less_wf: "pg_wf st \<Longrightarrow> pg_wf (snd (Less t1 t2 now q1 q2 st))"
  using getPodGroupInfo_wf by (simp add: Less_def Let_def split_beta)

lemma cache_step_wf: "cache_step st st' \<Longrightarrow> pg_wf st \<Longrightarrow> pg_wf st'"
  by (erule cache_stepE) (simp_all add: Less_wf cleanup_tick_wf)

text \<open>C3: The cache of pod groups is bounded and its counter exact as long as the comparisons of the scheduling
  queue and the ticks of the cleanup goroutine run one after another, each to its end: after every such
  sequence from the empty cache there is one entry per key, the atomic counter equals the number of
  entries and is at most the cap of 50000, and every entry is a gang of at least two pods stored under its
  own namespace and name.  (When the two goroutines interleave inside an operation, neither the exact
  counter nor the cap holds; the theory CacheThreads says what then does.)\<close>

theorem cache_reachable_wf:
  assumes "cache_reachable st"
  shows "distinct (map fst (podGroupInfos st)) \<and>
    podGroupCount st = int (length (podGroupInfos st)) \<and> podGroupCount st \<le> 50000 \<and>
    (\<forall>(k, i) \<in> set (podGroupInfos st).
       k = GetPodGroupKey (pe_namespace i) (pe_name i) \<and> pe_name i \<noteq> '''' \<and> 2 \<le> pe_min_available i)"
proof -
  have "pg_wf st" using assms by (induction) (auto intro: cache_step_wf)
  then show ?thesis by (auto simp: pg_wf_def maxPodGroupEntries_def list_all_iff entry_ok_def)
qed

definition ex_queued :: queued where
  "ex_queued = \<lparr>q_pod = ex_gang_pod, q_timestamp = 7\<rparr>"

definition ex_cache :: pg_state where
  "ex_cache = snd (Less 10 10 10 ex_queued ex_queued empty_pg_state)"

lemma ex_cache_eq:
  "ex_cache = \<lparr>podGroupInfos = [(''ml/w'', \<lparr>pe_name = ''w'', pe_namespace = ''ml'', pe_min_available = 3,
     pe_timestamp = 7, pe_last_update = 10\<rparr>)], podGroupCount = 1\<rparr>"
  by code_simp

lemma cache_reachable_wf_witness: "podGroupCount ex_cache = int (length (podGroupInfos ex_cache))"
proof -
  have "cache_reachable ex_cache"
    unfolding ex_cache_def by (intro reach_step [OF reach_init] step_less)
  from cache_reachable_wf [OF this] show ?thesis by (simp add: ex_cache_eq)
qed

text \<open>The emergency eviction removes a fifth of the entries, at least one, keeps the rest
  unchanged, and never removes an entry inserted later than one it keeps.\<close>

theorem evictOldestEntries_oldest:
  assumes "pg_wf st"
  shows "set (podGroupInfos (evictOldestEntries st)) \<subseteq> set (podGroupInfos st) \<and>
    int (length (podGroupInfos (evictOldestEntries st))) =
      podGroupCount st - min (max 1 (podGroupCount st div 5)) (podGroupCount st) \<and>
    (\<forall>e \<in> set (podGroupInfos st) - set (podGroupInfos (evictOldestEntries st)).
      \<forall>e' \<in> set (podGroupInfos (evictOldestEntries st)). pe_last_update (snd e) \<le> pe_last_update (snd e'))"
proof -
  have dist: "distinct (map fst (podGroupInfos st))" using assms by (simp add: pg_wf_def)
  have "\<forall>e \<in> set (podGroupInfos st) - set (podGroupInfos (evictOldestEntries st)).
      \<forall>e' \<in> set (podGroupInfos (evictOldestEntries st)). pe_last_update (snd e) \<le> pe_last_update (snd e')"
    by (rule evictOldestEntries_obtain [OF dist]) auto
  then show ?thesis
    using evictOldestEntries_wf [OF assms] evictOldestEntries_sub [OF dist] by (simp add: pg_wf_def)
qed

definition ex_entry :: "time \<Rightarrow> pg_entry" where
  "ex_entry t = \<lparr>pe_name = ''g'', pe_namespace = ''n'', pe_min_available = 2, pe_timestamp = 0, pe_last_update = t\<rparr>"

definition ex_cache2 :: pg_state where
  "ex_cache2 = \<lparr>podGroupInfos = [(''n/g'', ex_entry 9), (''n/h'', ex_entry 4 \<lparr>pe_name := ''h''\<rparr>)], podGroupCount = 2\<rparr>"

lemma evictOldestEntries_oldest_witness:
  "pe_last_update (ex_entry 4) \<le> pe_last_update (ex_entry 9) \<and>
   evictOldestEntries ex_cache2 = \<lparr>podGroupInfos = [(''n/g'', ex_entry 9)], podGroupCount = 1\<rparr>"
proof -
  have wf: "pg_wf ex_cache2" by code_simp
  have e: "evictOldestEntries ex_cache2 = \<lparr>podGroupInfos = [(''n/g'', ex_entry 9)], podGroupCount = 1\<rparr>" by code_simp
  have "(''n/h'', ex_entry 4 \<lparr>pe_name := ''h''\<rparr>) \<in> set (podGroupInfos ex_cache2) - {(''n/g'', ex_entry 9)}"
    by (simp add: ex_cache2_def)
  moreover from evictOldestEntries_oldest [OF wf]
  have "\<forall>x \<in> set (podGroupInfos ex_cache2) - {(''n/g'', ex_entry 9)}. pe_last_update (snd x) \<le> pe_last_update (ex_entry 9)"
    by (simp add: e)
  ultimately have "pe_last_update (ex_entry 4 \<lparr>pe_name := ''h''\<rparr>) \<le> pe_last_update (ex_entry 9)"
    by (metis snd_conv)
  with e show ?thesis by (simp add: ex_entry_def)
qed

text \<open>An entry lives ten minutes from its insertion, not from its last use: a comparison of pods of
  tracked gangs leaves the cache as it is, the entry's time of last update included, and the first
  tick of the cleanup more than \<^verbatim>\<open>staleEntryTTL\<close> after the insertion removes the entry however
  often the gang was compared in between.\<close>

theorem entry_expires_in_use:
  assumes "pg_wf st" and "lookup (podGroupInfos st) k = Some i"
    and "gang_key (q_pod q1) = Some k" and "gang_key (q_pod q2) = Some k"
  shows "snd (Less t1 t2 now q1 q2 st) = st \<and>
    (now - pe_last_update i > staleEntryTTL \<longrightarrow>
       lookup (podGroupInfos (cleanup_tick now (snd (Less t1 t2 now q1 q2 st)))) k = None)"
proof -
  have l: "snd (Less t1 t2 now q1 q2 st) = st"
    using assms by (simp add: Less_def getPodGroupInfo_hit)
  have "lookup (podGroupInfos (cleanup_tick now st)) k = None" if "now - pe_last_update i > staleEntryTTL"
    using assms(1,2) that filter_map_of_distinct [of "podGroupInfos st" "\<lambda>_ i. \<not> stale now i" k]
    by (simp add: pg_wf_def cleanup_tick_spec stale_iff)
  with l show ?thesis by simp
qed

lemma entry_expires_in_use_witness:
  "podGroupInfos (cleanup_tick (seconds 601) (snd (Less 0 0 (seconds 601) ex_queued ex_queued ex_cache))) = []"
proof -
  have "pg_wf ex_cache" "lookup (podGroupInfos ex_cache) ''ml/w'' = Some (snd (hd (podGroupInfos ex_cache)))"
    "gang_key (q_pod ex_queued) = Some ''ml/w''"
    by code_simp+
  note * = entry_expires_in_use [OF this this(3), of 0 0 "seconds 601"]
  have "seconds 601 - pe_last_update (snd (hd (podGroupInfos ex_cache))) > staleEntryTTL" by code_simp
  with * have "snd (Less 0 0 (seconds 601) ex_queued ex_queued ex_cache) = ex_cache" by simp
  moreover have "podGroupInfos (cleanup_tick (seconds 601) ex_cache) = []" by code_simp
  ultimately show ?thesis by simp
qed

section \<open>The queue order is a strict weak order\<close>

text \<open>The group info a pod is compared by, in a given state of the cache.\<close>

definition queue_view :: "pg_state \<Rightarrow> queued \<Rightarrow> pg_entry" where
  "queue_view st q = fst (getPodGroupInfoFromQueued 0 q st)"

definition queue_lt :: "time \<Rightarrow> pg_state \<Rightarrow> queued \<Rightarrow> queued \<Rightarrow> bool" where
  "queue_lt now st q1 q2 = queue_less now (q_pod q1, queue_view st q1) (q_pod q2, queue_view st q2)"

definition tracked :: "pg_state \<Rightarrow> queued \<Rightarrow> bool" where
  "tracked st q \<longleftrightarrow> (case gang_key (q_pod q) of None \<Rightarrow> True | Some k \<Rightarrow> lookup (podGroupInfos st) k \<noteq> None)"

lemma getPodGroupInfo_tracked: "tracked st q \<Longrightarrow> getPodGroupInfoFromQueued now q st = (queue_view st q, st)"
  by (auto simp: tracked_def queue_view_def getPodGroupInfo_regular getPodGroupInfo_hit split: option.splits)

lemma Less_tracked: "tracked st q1 \<Longrightarrow> tracked st q2 \<Longrightarrow> Less t1 t2 now q1 q2 st = (queue_lt now st q1 q2, st)"
  by (simp add: Less_def getPodGroupInfo_tracked queue_lt_def)

definition starving :: "time \<Rightarrow> pg_state \<Rightarrow> queued \<Rightarrow> bool" where
  "starving now st q \<longleftrightarrow> time_sub now (pe_timestamp (queue_view st q)) > StarvationThreshold"

definition queue_key :: "pg_state \<Rightarrow> queued \<Rightarrow> string" where
  "queue_key st q = GetPodGroupKey (p_ns (q_pod q)) (pe_name (queue_view st q))"

lemma queue_lt_lex:
  "queue_lt now st q1 q2 \<longleftrightarrow>
     (starving now st q1 \<and> \<not> starving now st q2) \<or>
     (starving now st q1 = starving now st q2 \<and>
       (prio_or_0 (q_pod q1) > prio_or_0 (q_pod q2) \<or>
        prio_or_0 (q_pod q1) = prio_or_0 (q_pod q2) \<and>
          (pe_timestamp (queue_view st q1) < pe_timestamp (queue_view st q2) \<or>
           pe_timestamp (queue_view st q1) = pe_timestamp (queue_view st q2) \<and> queue_key st q1 < queue_key st q2)))"
  by (auto simp: queue_lt_def queue_less_def starving_def queue_key_def Let_def)

interpretation queue: strict_weak_order "queue_lt now st" for now st
  by unfold_locales (auto simp: queue_lt_lex)

text \<open>C2: The scheduling queue gets a strict weak order: at one reading of the clock \<^verbatim>\<open>Less\<close> on pods
  whose gangs are tracked is irreflexive, transitive and has a transitive incomparability, and it
  does not change the cache, so the heap of the queue is never given contradictory answers.\<close>

theorem Less_strict_weak_order:
  assumes "tracked st q1" "tracked st q2" "tracked st q3"
  shows "snd (Less t t now q1 q2 st) = st \<and>
    \<not> fst (Less t t now q1 q1 st) \<and>
    (fst (Less t t now q1 q2 st) \<and> fst (Less t t now q2 q3 st) \<longrightarrow> fst (Less t t now q1 q3 st)) \<and>
    (\<not> fst (Less t t now q1 q2 st) \<and> \<not> fst (Less t t now q2 q3 st) \<longrightarrow> \<not> fst (Less t t now q1 q3 st))"
  using assms queue.irrefl queue.trans [of now st q1 q2 q3] queue.incomp_trans [of now st q1 q2 q3]
  by (auto simp: Less_tracked)

definition ex_plain :: "int \<Rightarrow> time \<Rightarrow> queued" where
  "ex_plain pr t = \<lparr>q_pod = empty_pod \<lparr>p_ns := ''web'', p_priority := Some pr\<rparr>, q_timestamp = t\<rparr>"

lemma tracked_ex: "tracked ex_cache ex_queued" "tracked st (ex_plain pr t)"
proof -
  show "tracked ex_cache ex_queued" by code_simp
  have "gang_key (empty_pod \<lparr>p_ns := ''web'', p_priority := Some pr\<rparr>) = None"
    by (simp add: gang_key_def GetPodGroupLabels_def empty_pod_def first_nonempty_def lookup_nonempty_def)
  then show "tracked st (ex_plain pr t)" by (simp add: tracked_def ex_plain_def)
qed

lemma Less_strict_weak_order_witness:
  "fst (Less 0 0 20 (ex_plain 5 1) (ex_plain 3 2) ex_cache) \<and> fst (Less 0 0 20 (ex_plain 3 2) ex_queued ex_cache) \<and>
   fst (Less 0 0 20 (ex_plain 5 1) ex_queued ex_cache)"
proof -
  have "fst (Less 0 0 20 (ex_plain 5 1) (ex_plain 3 2) ex_cache)" "fst (Less 0 0 20 (ex_plain 3 2) ex_queued ex_cache)"
    by code_simp+
  with Less_strict_weak_order [OF tracked_ex(2) [of ex_cache 5 1] tracked_ex(2) [of ex_cache 3 2] tracked_ex(1), where t = 0 and now = 20] show ?thesis by simp
qed

text \<open>Starvation comes first: a pod whose gang has waited more than 60 seconds precedes every pod
  whose gang has not, whatever their priorities, and is never preceded by one.\<close>

theorem Less_starving_first:
  assumes "tracked st q1" "tracked st q2"
    and "now - pe_timestamp (queue_view st q1) > seconds 60" and "now - pe_timestamp (queue_view st q2) \<le> seconds 60"
  shows "fst (Less t1 t2 now q1 q2 st) \<and> \<not> fst (Less t1 t2 now q2 q1 st)"
  using assms by (simp add: Less_tracked queue_lt_lex starving_def StarvationThreshold_def time_sub_gt_iff seconds_def)

lemma Less_starving_first_witness:
  "fst (Less 0 0 (seconds 61) ex_queued (ex_plain 1000 (seconds 2)) ex_cache)"
proof -
  have "seconds 61 - pe_timestamp (queue_view ex_cache ex_queued) > seconds 60"
    "seconds 61 - pe_timestamp (queue_view ex_cache (ex_plain 1000 (seconds 2))) \<le> seconds 60"
    by code_simp+
  from Less_starving_first [OF tracked_ex(1) tracked_ex(2) this] show ?thesis by simp
qed

text \<open>Members of one tracked gang with equal priority stay together in the queue: none precedes the
  other, and every other pod compares to both alike, so no pod that the order separates from one of
  them can stand strictly between them.\<close>

theorem Less_gang_together:
  assumes "gang_key (q_pod q1) = Some k" "gang_key (q_pod q2) = Some k" "lookup (podGroupInfos st) k = Some i"
    and "prio_or_0 (q_pod q1) = prio_or_0 (q_pod q2)" "p_ns (q_pod q1) = p_ns (q_pod q2)" and "tracked st z"
  shows "\<not> fst (Less t t now q1 q2 st) \<and>
    fst (Less t t now q1 z st) = fst (Less t t now q2 z st) \<and>
    fst (Less t t now z q1 st) = fst (Less t t now z q2 st)"
proof -
  have t: "tracked st q1" "tracked st q2" using assms(1-3) by (simp_all add: tracked_def)
  have v: "queue_view st q1 = i" "queue_view st q2 = i"
    using assms(1-3) by (simp_all add: queue_view_def getPodGroupInfo_hit)
  have e: "\<not> queue_lt now st q1 q2" "\<not> queue_lt now st q2 q1"
    using assms(4,5) v by (simp_all add: queue_lt_lex starving_def queue_key_def)
  show ?thesis
    using e(1) queue.equiv_replace [OF e, of z] queue.equiv_replace_right [OF e, of z] t assms(6)
    by (simp add: Less_tracked)
qed

lemma Less_gang_together_witness:
  "\<not> fst (Less 0 0 20 ex_queued (ex_queued \<lparr>q_timestamp := 19\<rparr>) ex_cache) \<and>
   fst (Less 0 0 20 (ex_plain 5 1) (ex_queued \<lparr>q_timestamp := 19\<rparr>) ex_cache)"
proof -
  let ?q = "ex_queued \<lparr>q_timestamp := 19\<rparr>"
  have k: "gang_key (q_pod ex_queued) = Some ''ml/w''" "gang_key (q_pod ?q) = Some ''ml/w''"
    "prio_or_0 (q_pod ex_queued) = prio_or_0 (q_pod ?q)" "p_ns (q_pod ex_queued) = p_ns (q_pod ?q)"
    "fst (Less 0 0 20 (ex_plain 5 1) ex_queued ex_cache)" by code_simp+
  have "lookup (podGroupInfos ex_cache) ''ml/w'' = Some (snd (hd (podGroupInfos ex_cache)))" by code_simp
  from Less_gang_together [OF k(1,2) this k(3,4) tracked_ex(2) [of ex_cache 5 1], of 0 20] k(5)
  show ?thesis by simp
qed

section \<open>Properties of the gang checks\<close>

lemma gang_list_cache:
  "gang_list (cache_lister pods) g ns =
     Inr (if \<exists>p \<in> set pods. p_ns p = ns \<and> lookup (p_labels p) PodGroupNameLabel = Some g
          then filter (\<lambda>p. p_ns p = ns \<and> lookup (p_labels p) PodGroupNameLabel = Some g) pods
          else filter (\<lambda>p. p_ns p = ns \<and> lookup (p_labels p) LegacyPodGroupNameLabel = Some g) pods)"
proof (cases "\<exists>p \<in> set pods. p_ns p = ns \<and> lookup (p_labels p) PodGroupNameLabel = Some g")
  case True
  then have "filter (\<lambda>p. p_ns p = ns \<and> lookup (p_labels p) PodGroupNameLabel = Some g) pods \<noteq> []"
    by (auto simp: filter_empty_conv)
  then show ?thesis using True
    by (cases "filter (\<lambda>p. p_ns p = ns \<and> lookup (p_labels p) PodGroupNameLabel = Some g) pods")
       (simp_all add: gang_list_def cache.list_ns_label)
next
  case False
  then have "filter (\<lambda>p. p_ns p = ns \<and> lookup (p_labels p) PodGroupNameLabel = Some g) pods = []"
    by (auto simp: filter_empty_conv)
  then show ?thesis
    by (simp only: gang_list_def cache.list_ns_label if_not_P [OF False] sum.case list.case)
qed

lemma gang_list_waits:
  "gang_list (cache_lister pods) g ns = Inr ms \<Longrightarrow> p \<in> set ms \<Longrightarrow> waits_in_gang g ns p"
  by (auto simp: gang_list_cache waits_in_gang_def split: if_splits)

text \<open>PreFilter and the gang minimum: without a profile, a pod of a gang of at least two pods passes
  when the lister shows at least the minimum number of pods of the gang, and is unschedulable with
  both numbers in the message otherwise; a malformed label is an error.\<close>

theorem cosched_PreFilter_counts:
  "cosched_PreFilter lister None p =
     (case pg_labels p of
        Inl e \<Rightarrow> (False, mk_status Error (label_err_text e))
      | Inr (g, m) \<Rightarrow>
          if m \<le> 1 then (False, success)
          else if m \<le> calculateTotalPods lister g (p_ns p) then (True, success)
          else (False, mk_status Unschedulable (''pod group has '' @ itoa (calculateTotalPods lister g (p_ns p))
                 @ '' pods, needs at least '' @ itoa m)))"
  by (cases rule: GetPodGroupLabels_cases [of p]) (simp_all add: cosched_PreFilter_def GetProfile_def)

text \<open>The decision of Permit for a member of a gang of at least two: it waits, for ten seconds and
  allowing nobody, exactly when the active other members in the lister plus the waiting members plus
  one are fewer than the minimum; otherwise it succeeds and allows the waiting members of the gang,
  which are also the ones Unreserve rejects.\<close>

theorem Permit_decision:
  assumes "pg_labels p = Inr (g, m)" and "m \<ge> 2"
  shows "Permit lister (Some ws) p =
    (if calculateRunningPodsExcluding lister g (p_ns p) (p_name p) + count_if (waits_in_gang g (p_ns p)) ws + 1 < m
     then (mk_status Wait '''', seconds 10, [])
     else (success, 0, cosched_Unreserve ws p))"
proof -
  have "g \<noteq> ''''" using GetPodGroupLabels_Inr [OF assms(1)] assms(2) first_nonemptyD by fastforce
  with assms show ?thesis
    by (simp add: Permit_def cosched_Unreserve_def calculateWaitingPods_def PermitWaitingTime_def Let_def)
qed

definition ex_member :: "string \<Rightarrow> bool \<Rightarrow> pod" where
  "ex_member n deleted = ex_gang_pod \<lparr>p_name := n, p_phase := PodPending, p_deleted := deleted,
     p_labels := [(PodGroupNameLabel, ''w''), (PodGroupMinAvailableLabel, ''5'')]\<rparr>"

lemma ex_member_labels: "pg_labels (ex_member n d) = Inr (''w'', 5)"
  by (simp add: ex_member_def GetPodGroupLabels_def first_nonempty_def lookup_nonempty_def) code_simp

lemma Permit_decision_witness:
  "Permit (cache_lister [ex_member ''a'' False]) (Some [ex_member ''b'' False]) (ex_member ''a'' False) =
     (mk_status Wait '''', seconds 10, [])"
proof -
  have "calculateRunningPodsExcluding (cache_lister [ex_member ''a'' False]) ''w'' (p_ns (ex_member ''a'' False)) (p_name (ex_member ''a'' False))
     + count_if (waits_in_gang ''w'' (p_ns (ex_member ''a'' False))) [ex_member ''b'' False] + 1 < 5"
    by code_simp
  then show ?thesis
    using Permit_decision [OF ex_member_labels [of "''a''" False], of "cache_lister [ex_member ''a'' False]" "[ex_member ''b'' False]"]
    by simp
qed

text \<open>After the failure of a member no member of its gang is left waiting: Unreserve rejects every
  waiting pod of the namespace with the group name of the pod, and no other pod.\<close>

theorem cosched_Unreserve_all:
  assumes "pg_name p \<noteq> ''''"
  shows "w \<in> set (cosched_Unreserve ws p) \<longleftrightarrow> w \<in> set ws \<and> p_ns w = p_ns p \<and> pg_name w = pg_name p"
  using assms by (auto simp: cosched_Unreserve_def pg_name_def same_gang_def split: sum.splits prod.splits)

lemma cosched_Unreserve_all_witness:
  "ex_member ''b'' False \<in> set (cosched_Unreserve [ex_member ''b'' False] (ex_member ''a'' False))"
proof -
  have n: "pg_name (ex_member x False) = ''w''" for x by (simp add: pg_name_def ex_member_labels)
  then have "pg_name (ex_member ''a'' False) \<noteq> ''''" by simp
  from cosched_Unreserve_all [OF this, of "ex_member ''b'' False" "[ex_member ''b'' False]"] n show ?thesis
    by (simp add: ex_member_def)
qed

lemma count_active_others:
  assumes "distinct (map p_name ms)" "\<forall>x \<in> set ms. \<not> p_deleted x \<and> p_phase x \<in> {PodRunning, PodPending, ''''}"
  shows "count_if (counts_active n) ms \<ge> int (length ms) - 1"
  using assms
proof (induction ms)
  case (Cons x xs)
  show ?case
  proof (cases "p_name x = n")
    case True
    have "counts_active n y" if "y \<in> set xs" for y
    proof -
      have "p_name y \<noteq> n" using that True Cons.prems(1) by (auto simp: image_iff)
      with that Cons.prems(2) show ?thesis by (auto simp: counts_active_def)
    qed
    then have "count_if (counts_active n) xs = int (length xs)" by (rule count_if_all)
    then show ?thesis by simp
  next
    case False
    with Cons.prems have "counts_active n x" by (auto simp: counts_active_def)
    with Cons show ?thesis by simp
  qed
qed simp

text \<open>C35: Permit does not wait for the members it is meant to wait for. Pending members count as
  running, so once PreFilter has accepted a pod, that is once the pods of the gang exist, and
  none of them has finished or is being deleted, Permit succeeds at once, even when no other member
  has been given a node.\<close>

theorem Permit_never_waits:
  assumes "pg_labels p = Inr (g, m)" and "m \<ge> 2"
    and "gang_list lister g (p_ns p) = Inr ms" and "distinct (map p_name ms)"
    and "\<forall>x \<in> set ms. \<not> p_deleted x \<and> p_phase x \<in> {PodRunning, PodPending, ''''}"
    and "cosched_PreFilter lister None p = (True, success)"
  shows "st_code (fst (Permit lister handle p)) = Success"
proof -
  have g: "g \<noteq> ''''" using GetPodGroupLabels_Inr [OF assms(1)] assms(2) first_nonemptyD by fastforce
  have "m \<le> int (length ms)"
    using assms(1-3,6) g by (auto simp: cosched_PreFilter_def GetProfile_def calculateTotalPods_def Let_def split: if_splits)
  then have "m \<le> calculateRunningPodsExcluding lister g (p_ns p) (p_name p) + 1"
    using count_active_others [OF assms(4,5), of "p_name p"] assms(3)
    by (simp add: calculateRunningPodsExcluding_def)
  moreover have "0 \<le> calculateWaitingPods handle g (p_ns p)"
    by (simp add: calculateWaitingPods_def split: option.splits)
  ultimately show ?thesis using assms(1,2) g by (simp add: Permit_def Let_def)
qed

definition ex_five :: "pod list" where
  "ex_five = map (\<lambda>n. ex_member n False) [''a'', ''b'', ''c'', ''d'', ''e'']"

lemma Permit_never_waits_witness:
  "st_code (fst (Permit (cache_lister ex_five) (Some []) (ex_member ''a'' False))) = Success"
proof -
  have p: "p_ns (ex_member ''a'' False) = ''ml''" by (simp add: ex_member_def ex_gang_pod_def)
  have l: "gang_list (cache_lister ex_five) ''w'' ''ml'' = Inr ex_five"
    and d: "distinct (map p_name ex_five)" "\<forall>x \<in> set ex_five. \<not> p_deleted x \<and> p_phase x \<in> {PodRunning, PodPending, ''''}"
    by code_simp+
  have "calculateTotalPods (cache_lister ex_five) ''w'' ''ml'' = 5" by code_simp
  then have "cosched_PreFilter (cache_lister ex_five) None (ex_member ''a'' False) = (True, success)"
    by (simp add: cosched_PreFilter_def GetProfile_def ex_member_labels p)
  from Permit_never_waits [OF ex_member_labels _ l [folded p] d this, of "Some []"] show ?thesis by simp
qed

text \<open>A waiting member is counted twice, as a pending pod of the lister and as a waiting pod: when
  the waiting pods are the active other members, a gang of minimum \<^verbatim>\<open>m\<close> is let through with
  about half of its members.\<close>

theorem Permit_counts_waiting_twice:
  assumes "pg_labels p = Inr (g, m)" and "m \<ge> 2"
    and "gang_list (cache_lister pods) g (p_ns p) = Inr ms"
    and "ws = filter (counts_active (p_name p)) ms"
  shows "st_code (fst (Permit (cache_lister pods) (Some ws) p)) = Success \<longleftrightarrow> m \<le> 2 * int (length ws) + 1"
proof -
  have "count_if (waits_in_gang g (p_ns p)) ws = int (length ws)"
    using gang_list_waits [OF assms(3)] assms(4) by (intro count_if_all) auto
  moreover have "calculateRunningPodsExcluding (cache_lister pods) g (p_ns p) (p_name p) = int (length ws)"
    by (simp add: calculateRunningPodsExcluding_def assms(3,4) count_if_def)
  moreover have "g \<noteq> ''''" using GetPodGroupLabels_Inr [OF assms(1)] assms(2) first_nonemptyD by fastforce
  ultimately show ?thesis
    using assms(1,2) by (simp add: Permit_def calculateWaitingPods_def Let_def)
qed

text \<open>Three live members of a gang that needs five, two of them waiting.\<close>

definition ex_short :: "pod list" where
  "ex_short = [ex_member ''a'' False, ex_member ''b'' False, ex_member ''c'' False,
     ex_member ''d'' True, ex_member ''e'' True]"

lemma Permit_counts_waiting_twice_witness:
  "st_code (fst (Permit (cache_lister ex_short) (Some [ex_member ''b'' False, ex_member ''c'' False]) (ex_member ''a'' False))) = Success"
proof -
  have p: "p_ns (ex_member ''a'' False) = ''ml''" by (simp add: ex_member_def ex_gang_pod_def)
  have l: "gang_list (cache_lister ex_short) ''w'' ''ml'' = Inr ex_short"
    and w: "[ex_member ''b'' False, ex_member ''c'' False] = filter (counts_active (p_name (ex_member ''a'' False))) ex_short"
    by code_simp+
  from Permit_counts_waiting_twice [OF ex_member_labels _ l [folded p] w] show ?thesis by simp
qed

text \<open>The two gang detectors disagree: a pod labelled as a member of a gang that carries none of the
  three keys of the profile classifier passes the PreFilter of the coscheduling plugin in every
  scheduling cycle in which the classifier ran, however few pods of its gang exist.\<close>

theorem labelled_gang_bypasses_PreFilter:
  assumes "\<not> isGangPod p"
  shows "cosched_PreFilter lister (Some (fst (profile_PreFilter client cs p))) p = (False, success)"
  using assms by (simp add: cosched_PreFilter_def GetProfile_def profile_PreFilter_def classifyPod_def split_beta)

lemma labelled_gang_bypasses_PreFilter_witness:
  "cosched_PreFilter (cache_lister []) (Some (fst (profile_PreFilter ex_ns_client Map.empty ex_gang_pod))) ex_gang_pod = (False, success) \<and>
   st_code (snd (cosched_PreFilter (cache_lister []) None ex_gang_pod)) = Unschedulable"
proof -
  have "\<not> isGangPod ex_gang_pod" "st_code (snd (cosched_PreFilter (cache_lister []) None ex_gang_pod)) = Unschedulable"
    by code_simp+
  with labelled_gang_bypasses_PreFilter [of ex_gang_pod "cache_lister []" ex_ns_client Map.empty] show ?thesis by simp
qed

end
