(* ===== verification/Preemption.thy ===== *)
theory Preemption
  imports Profile Interfaces "HOL-Library.AList"
begin

text \<open>
  \<^verbatim>\<open>pkg/plugins/preemption/gang_preemption.go\<close>: the PostFilter plugin that, for a gang that
  cannot be scheduled, selects running pods whose removal would free what the whole gang needs.

  The state is the map of the last preemption attempts per gang.  The pod lister, the snapshot of
  the nodes, the clock readings, the sort routine and the order in which Go iterates over a map are
  arguments.  The annotations \<^verbatim>\<open>markVictimForPreemption\<close> sets are set on a copy that the code
  drops, so \<^verbatim>\<open>PostFilter\<close> has no effect on the victims.
\<close>

section \<open>Constants and tiers\<close>

definition MinimumPreemptionGap :: duration where
  "MinimumPreemptionGap = seconds 30"

definition MaxVictimsPerGang :: nat where
  "MaxVictimsPerGang = 50"

definition getTierPriority :: "string \<Rightarrow> int" where
  "getTierPriority tier =
     (let t = to_lower tier
      in if t = ''gold'' then 3 else if t = ''silver'' then 2 else if t = ''bronze'' then 1 else 1)"

lemma getTierPriority_simps [simp]:
  "getTierPriority ''gold'' = 3" "getTierPriority ''silver'' = 2" "getTierPriority ''bronze'' = 1"
  by code_simp+

interpretation preempt_tier: tier_rank getTierPriority
  by unfold_locales (simp_all, simp add: getTierPriority_def Let_def)

definition getTenantTierFromProfile :: "'o cycle_state option \<Rightarrow> string" where
  "getTenantTierFromProfile state =
     (case GetProfile state of Inr profile \<Rightarrow> to_lower (tier_string (sp_tier profile)) | Inl _ \<Rightarrow> ''bronze'')"

definition getTenantTierFromPod :: "pod \<Rightarrow> string" where
  "getTenantTierFromPod p =
     (let by_namespace =
            (if p_ns p \<noteq> '''' \<and> contains (to_lower (p_ns p)) ''gold'' then ''gold''
             else if p_ns p \<noteq> '''' \<and> contains (to_lower (p_ns p)) ''silver'' then ''silver''
             else ''bronze'')
      in (case lookup (p_labels p) ''kueue.x-k8s.io/queue-name'' of
            Some queueName \<Rightarrow>
              if contains (to_lower queueName) ''gold'' then ''gold''
              else if contains (to_lower queueName) ''silver'' then ''silver''
              else by_namespace
          | None \<Rightarrow> by_namespace))"

section \<open>Resource needs\<close>

record resource_requirements =
  rr_cpu :: int
  rr_memory :: int
  rr_gpu :: int

text \<open>The loop over the containers, which both the needs and the victims are summed by.\<close>

fun sum_requests :: "container list \<Rightarrow> resource_requirements \<Rightarrow> resource_requirements" where
  "sum_requests [] acc = acc"
| "sum_requests (c # cs) acc =
     sum_requests cs
       \<lparr>rr_cpu = wrap64 (rr_cpu acc + q_milli (res_cpu (c_requests c))),
        rr_memory = wrap64 (rr_memory acc + q_value (res_memory (c_requests c))),
        rr_gpu = (case lookup (c_requests c) gpu_resource of
                    None \<Rightarrow> rr_gpu acc | Some q \<Rightarrow> wrap64 (rr_gpu acc + q_value q))\<rparr>"

definition no_resources :: resource_requirements where
  "no_resources = \<lparr>rr_cpu = 0, rr_memory = 0, rr_gpu = 0\<rparr>"

definition calculateGangResourceNeeds :: "pod \<Rightarrow> int \<Rightarrow> resource_requirements" where
  "calculateGangResourceNeeds p minAvailable =
     (let single = sum_requests (p_containers p) no_resources
      in \<lparr>rr_cpu = wrap64 (rr_cpu single * minAvailable),
          rr_memory = wrap64 (rr_memory single * minAvailable),
          rr_gpu = wrap64 (rr_gpu single * minAvailable)\<rparr>)"

section \<open>Victims\<close>

record victim_candidate =
  vc_pod :: pod
  vc_node :: string
  vc_priority :: int
  vc_tier :: string
  vc_res :: resource_requirements

definition node_names :: "node_info list \<Rightarrow> string set" where
  "node_names nodeInfos = {n_name n | n. Some n \<in> ni_node ` set nodeInfos}"

lemma node_names_code [code]:
  "node_names nodeInfos = set (map n_name (concat (map (\<lambda>ni. case ni_node ni of None \<Rightarrow> [] | Some n \<Rightarrow> [n]) nodeInfos)))"
  by (force simp: node_names_def split: option.splits)

text \<open>One iteration of the candidate loop: \<^verbatim>\<open>None\<close> is a \<^verbatim>\<open>continue\<close>.\<close>

definition victim_of ::
  "'o cycle_state option \<Rightarrow> pod \<Rightarrow> node_info list \<Rightarrow> pod \<Rightarrow> victim_candidate option" where
  "victim_of state gangPod nodeInfos victimPod =
     (let gangPriority = prio_or_0 gangPod;
          gangTierPriority = getTierPriority (getTenantTierFromProfile state)
      in if p_node victimPod = '''' then None
         else if p_node victimPod \<notin> node_names nodeInfos then None
         else if p_ns victimPod = p_ns gangPod \<and>
                 (case pg_labels victimPod of
                    Inr (victimGroupName, _) \<Rightarrow> victimGroupName \<noteq> '''' \<and>
                      (case pg_labels gangPod of
                         Inr (gangGroupName, _) \<Rightarrow> victimGroupName = gangGroupName
                       | Inl _ \<Rightarrow> False)
                  | Inl _ \<Rightarrow> False)
         then None
         else let victimPriority = prio_or_0 victimPod;
                  victimTenantTier = getTenantTierFromPod victimPod;
                  victimTierPriority = getTierPriority victimTenantTier
         in if gangTierPriority < victimTierPriority then None
            else if gangTierPriority = victimTierPriority \<and> victimPriority \<ge> gangPriority then None
            else Some \<lparr>vc_pod = victimPod, vc_node = p_node victimPod, vc_priority = victimPriority,
                       vc_tier = victimTenantTier, vc_res = sum_requests (p_containers victimPod) no_resources\<rparr>)"

fun collect_candidates :: "(pod \<Rightarrow> victim_candidate option) \<Rightarrow> pod list \<Rightarrow> victim_candidate list" where
  "collect_candidates f [] = []"
| "collect_candidates f (p # ps) =
     (case f p of None \<Rightarrow> collect_candidates f ps | Some c \<Rightarrow> c # collect_candidates f ps)"

text \<open>The less function given to \<^verbatim>\<open>sort.Slice\<close>.\<close>

definition victim_less :: "victim_candidate \<Rightarrow> victim_candidate \<Rightarrow> bool" where
  "victim_less x y =
     (let iTierPrio = getTierPriority (vc_tier x); jTierPrio = getTierPriority (vc_tier y)
      in if iTierPrio \<noteq> jTierPrio then iTierPrio < jTierPrio
         else if vc_priority x \<noteq> vc_priority y then vc_priority x < vc_priority y
         else rr_cpu (vc_res x) < rr_cpu (vc_res y))"

definition add_res :: "resource_requirements \<Rightarrow> resource_requirements \<Rightarrow> resource_requirements" where
  "add_res a b = \<lparr>rr_cpu = wrap64 (rr_cpu a + rr_cpu b), rr_memory = wrap64 (rr_memory a + rr_memory b),
     rr_gpu = wrap64 (rr_gpu a + rr_gpu b)\<rparr>"

definition enough :: "resource_requirements \<Rightarrow> resource_requirements \<Rightarrow> bool" where
  "enough freed needs \<longleftrightarrow> rr_cpu freed \<ge> rr_cpu needs \<and> rr_memory freed \<ge> rr_memory needs \<and> rr_gpu freed \<ge> rr_gpu needs"

text \<open>The greedy loop, from index \<^verbatim>\<open>i\<close>: the victims it adds and what they free in all.\<close>

fun select_victims ::
  "nat \<Rightarrow> resource_requirements \<Rightarrow> victim_candidate list \<Rightarrow> resource_requirements
     \<Rightarrow> victim_candidate list \<times> resource_requirements" where
  "select_victims i needs [] freed = ([], freed)"
| "select_victims i needs (c # cs) freed =
     (if i \<ge> MaxVictimsPerGang then ([], freed)
      else let freed' = add_res freed (vc_res c)
      in if enough freed' needs then ([c], freed')
         else let (vs, f) = select_victims (i + 1) needs cs freed' in (c # vs, f))"

definition findPreemptionVictims ::
  "(victim_candidate list \<Rightarrow> victim_candidate list) \<Rightarrow> pod_lister \<Rightarrow> 'o cycle_state option \<Rightarrow> pod
     \<Rightarrow> resource_requirements \<Rightarrow> node_info list \<Rightarrow> pod list" where
  "findPreemptionVictims sort_slice lister state gangPod needs nodeInfos =
     (case pl_list lister of
        Inl _ \<Rightarrow> []
      | Inr allPods \<Rightarrow>
         (let candidates = collect_candidates (victim_of state gangPod nodeInfos) allPods
          in if candidates = [] then []
             else let (victims, freed) = select_victims 0 needs (sort_slice candidates) no_resources
             in if rr_cpu freed < rr_cpu needs \<or> rr_memory freed < rr_memory needs \<or> rr_gpu freed < rr_gpu needs
                then [] else map vc_pod victims))"

section \<open>The nominated node\<close>

fun add_freed :: "string \<Rightarrow> container list \<Rightarrow> int gomap \<Rightarrow> int gomap" where
  "add_freed nodeName [] m = m"
| "add_freed nodeName (c # cs) m =
     add_freed nodeName cs
       (AList.update nodeName
          (wrap64 ((case lookup m nodeName of None \<Rightarrow> 0 | Some v \<Rightarrow> v) + q_milli (res_cpu (c_requests c)))) m)"

fun freed_by_node :: "pod list \<Rightarrow> int gomap \<Rightarrow> int gomap" where
  "freed_by_node [] m = m"
| "freed_by_node (v # vs) m =
     freed_by_node vs (if p_node v = '''' then m else add_freed (p_node v) (p_containers v) m)"

fun best_node :: "int gomap \<Rightarrow> string \<times> int \<Rightarrow> string \<times> int" where
  "best_node [] best = best"
| "best_node ((nodeName, freed) # m) (bestNode, maxFreed) =
     best_node m (if freed > maxFreed then (nodeName, freed) else (bestNode, maxFreed))"

definition selectNominatedNode :: "(int gomap \<Rightarrow> int gomap) \<Rightarrow> pod list \<Rightarrow> string" where
  "selectNominatedNode range_order victims = fst (best_node (range_order (freed_by_node victims [])) ('''', 0))"

section \<open>PostFilter\<close>

type_synonym attempts = "time gomap"

definition markVictimForPreemption :: "time \<Rightarrow> pod option \<Rightarrow> string \<Rightarrow> pod option" where
  "markVictimForPreemption unix_now victim gangGroupName =
     (case victim of
        None \<Rightarrow> None
      | Some p \<Rightarrow>
          Some (p\<lparr>p_annots := AList.update ''scheduling.kubenexus.io/preemption-timestamp'' (itoa unix_now)
                   (AList.update ''scheduling.kubenexus.io/preemption-for-gang'' gangGroupName (p_annots p))\<rparr>))"

text \<open>
  The result is the nominated node, when there is one.  \<^verbatim>\<open>now1\<close> is the reading of
  \<^verbatim>\<open>time.Since\<close>, \<^verbatim>\<open>now2\<close> the one that is stored.
\<close>

definition PostFilter ::
  "(victim_candidate list \<Rightarrow> victim_candidate list) \<Rightarrow> (int gomap \<Rightarrow> int gomap) \<Rightarrow> pod_lister
     \<Rightarrow> string + node_info list \<Rightarrow> time \<Rightarrow> time \<Rightarrow> 'o cycle_state option \<Rightarrow> pod \<Rightarrow> attempts
     \<Rightarrow> (string option \<times> status) \<times> attempts" where
  "PostFilter sort_slice range_order lister snapshot now1 now2 state p lastPreemptionAttempts =
     (case pg_labels p of
        Inl _ \<Rightarrow> ((None, mk_status Unschedulable ''not a gang pod''), lastPreemptionAttempts)
      | Inr (podGroupName, minAvailable) \<Rightarrow>
          if podGroupName = '''' \<or> minAvailable \<le> 1
          then ((None, mk_status Unschedulable ''not a gang pod''), lastPreemptionAttempts)
          else let gangKey = p_ns p @ ''/'' @ podGroupName
          in if (case lookup lastPreemptionAttempts gangKey of
                   None \<Rightarrow> False | Some lastAttempt \<Rightarrow> time_sub now1 lastAttempt < MinimumPreemptionGap)
             then ((None, mk_status Unschedulable ''preemption cooldown active''), lastPreemptionAttempts)
             else let attempts' = AList.update gangKey now2 lastPreemptionAttempts
             in (case snapshot of
                   Inl err \<Rightarrow> ((None, mk_status Error (''error listing nodes: '' @ err)), attempts')
                 | Inr nodeInfos \<Rightarrow>
                    (let victims = findPreemptionVictims sort_slice lister state p
                                     (calculateGangResourceNeeds p minAvailable) nodeInfos
                     in if victims = []
                        then ((None, mk_status Unschedulable ''no preemption victims found''), attempts')
                        else ((Some (selectNominatedNode range_order victims),
                               mk_status Success (''preempting '' @ itoa (int (length victims))
                                 @ '' pods to benefit gang '' @ podGroupName)), attempts'))))"

section \<open>The order of the victims\<close>

interpretation victims: strict_weak_order victim_less
  by unfold_locales (auto simp: victim_less_def Let_def split: if_splits)

interpretation victim_sort: slice_sorter victim_less "insertion_sort victim_less"
  by (rule victims.insertion_sorter)

lemma set_collect: "set (collect_candidates f ps) = {c. \<exists>p \<in> set ps. f p = Some c}"
  by (induction ps) (auto split: option.splits)

lemma victim_of_pod: "victim_of state g nis v = Some c \<Longrightarrow> vc_pod c = v"
  by (auto simp: victim_of_def Let_def split: if_splits)

lemma map_pod_collect:
  "map vc_pod (collect_candidates (victim_of state g nis) ps) = filter (\<lambda>p. victim_of state g nis p \<noteq> None) ps"
  by (induction ps) (auto dest: victim_of_pod split: option.splits)

section \<open>The greedy selection\<close>

definition total_res :: "victim_candidate list \<Rightarrow> resource_requirements" where
  "total_res cs = foldl add_res no_resources (map vc_res cs)"

lemma select_victims_spec:
  assumes "i \<le> MaxVictimsPerGang"
  shows "\<exists>n. fst (select_victims i needs cs freed) = take n cs \<and> n \<le> length cs \<and> i + n \<le> MaxVictimsPerGang \<and>
    snd (select_victims i needs cs freed) = foldl add_res freed (map vc_res (take n cs)) \<and>
    (\<forall>m. 0 < m \<and> m < n \<longrightarrow> \<not> enough (foldl add_res freed (map vc_res (take m cs))) needs) \<and>
    (0 < n \<and> enough (foldl add_res freed (map vc_res (take n cs))) needs \<or> n = length cs \<or> i + n = MaxVictimsPerGang)"
  using assms
proof (induction i needs cs freed rule: select_victims.induct)
  case (2 i needs c cs freed)
  define freed' where "freed' = add_res freed (vc_res c)"
  consider "i = MaxVictimsPerGang" | "i < MaxVictimsPerGang" "enough freed' needs" | "i < MaxVictimsPerGang" "\<not> enough freed' needs"
    using "2.prems" by linarith
  then show ?case
  proof cases
    case 2
    then show ?thesis by (intro exI [of _ 1]) (simp add: freed'_def)
  next
    case 3
    from 3 "2.IH" [OF _ freed'_def] obtain n where n: "fst (select_victims (i + 1) needs cs freed') = take n cs" "n \<le> length cs"
      "i + 1 + n \<le> MaxVictimsPerGang"
      "snd (select_victims (i + 1) needs cs freed') = foldl add_res freed' (map vc_res (take n cs))"
      "\<forall>m. 0 < m \<and> m < n \<longrightarrow> \<not> enough (foldl add_res freed' (map vc_res (take m cs))) needs"
      "0 < n \<and> enough (foldl add_res freed' (map vc_res (take n cs))) needs \<or> n = length cs \<or> i + 1 + n = MaxVictimsPerGang"
      by auto
    have "\<not> enough (foldl add_res freed (map vc_res (take m (c # cs)))) needs" if "0 < m" "m < Suc n" for m
      using that n(5) 3(2) by (cases m; cases "m - 1") (auto simp: freed'_def)
    with n 3 show ?thesis
      by (intro exI [of _ "Suc n"]) (simp add: freed'_def split_beta Let_def, blast)
  qed simp
qed simp

text \<open>
  The plan the greedy loop carries out: the shortest non-empty prefix of the sorted candidates, of at
  most fifty pods, that frees enough, when there is one.
\<close>

definition sufficient :: "resource_requirements \<Rightarrow> victim_candidate list \<Rightarrow> nat \<Rightarrow> bool" where
  "sufficient needs cs n \<longleftrightarrow> 0 < n \<and> n \<le> 50 \<and> n \<le> length cs \<and> enough (total_res (take n cs)) needs"

definition victim_plan :: "resource_requirements \<Rightarrow> victim_candidate list \<Rightarrow> victim_candidate list" where
  "victim_plan needs cs =
     (case filter (sufficient needs cs) [1..<51] of [] \<Rightarrow> [] | n # _ \<Rightarrow> take n cs)"

lemma victim_plan_least:
  assumes "sufficient needs cs n" "\<forall>m. 0 < m \<and> m < n \<longrightarrow> \<not> enough (total_res (take m cs)) needs"
  shows "victim_plan needs cs = take n cs"
proof -
  have n: "0 < n" "n \<le> 50" using assms(1) by (simp_all add: sufficient_def)
  then have "[1..<51] = [1..<n] @ n # [Suc n..<51]"
    using upt_add_eq_append [of 1 n "51 - n"] by (simp add: upt_conv_Cons)
  moreover have "filter (sufficient needs cs) [1..<n] = []"
    using assms(2) by (auto simp: filter_empty_conv sufficient_def)
  ultimately show ?thesis using assms(1) by (simp add: victim_plan_def)
qed

lemma victim_plan_none:
  assumes "\<And>n. \<not> sufficient needs cs n"
  shows "victim_plan needs cs = []"
  using assms by (simp add: victim_plan_def)

lemma enough_iff: "enough f needs \<longleftrightarrow> \<not> (rr_cpu f < rr_cpu needs \<or> rr_memory f < rr_memory needs \<or> rr_gpu f < rr_gpu needs)"
  by (auto simp: enough_def)

lemma select_victims_plan:
  "(let (victims, freed) = select_victims 0 needs cs no_resources
    in if rr_cpu freed < rr_cpu needs \<or> rr_memory freed < rr_memory needs \<or> rr_gpu freed < rr_gpu needs
       then [] else victims) = victim_plan needs cs"
proof -
  obtain n where n: "fst (select_victims 0 needs cs no_resources) = take n cs" "n \<le> length cs" "n \<le> 50"
    "snd (select_victims 0 needs cs no_resources) = total_res (take n cs)"
    "\<forall>m. 0 < m \<and> m < n \<longrightarrow> \<not> enough (total_res (take m cs)) needs"
    "0 < n \<and> enough (total_res (take n cs)) needs \<or> n = length cs \<or> n = 50"
    using select_victims_spec [of 0 needs cs no_resources] by (auto simp: total_res_def MaxVictimsPerGang_def)
  show ?thesis
  proof (cases "enough (total_res (take n cs)) needs \<and> 0 < n")
    case True
    then have "sufficient needs cs n" using n by (simp add: sufficient_def)
    from victim_plan_least [OF this n(5)] True n show ?thesis
      by (auto simp: split_beta Let_def enough_iff)
  next
    case False
    have "\<not> sufficient needs cs m" for m
    proof
      assume "sufficient needs cs m"
      then have m: "0 < m" "m \<le> 50" "m \<le> length cs" "enough (total_res (take m cs)) needs" by (simp_all add: sufficient_def)
      with n(5) have "n \<le> m" by (meson linorder_not_le)
      with m n(2,3,6) False show False by (metis le_antisym nat_less_le neq0_conv)
    qed
    then have "victim_plan needs cs = []" by (rule victim_plan_none)
    with False n show ?thesis by (auto simp: split_beta Let_def enough_iff)
  qed
qed

text \<open>The loop and the check after it carry out the plan, wrap-around included.\<close>

lemma findPreemptionVictims_plan:
  "findPreemptionVictims srt lister state g needs nis =
     (case pl_list lister of
        Inl _ \<Rightarrow> []
      | Inr pods \<Rightarrow>
         (let cands = collect_candidates (victim_of state g nis) pods
          in if cands = [] then []
             else map vc_pod (victim_plan needs (srt cands))))"
  unfolding findPreemptionVictims_def select_victims_plan [symmetric]
  by (auto simp: Let_def split_beta split: sum.splits)

lemma victim_plan_obtain:
  assumes "victim_plan needs cs \<noteq> []"
  obtains n where "victim_plan needs cs = take n cs" "n \<le> 50" "enough (total_res (take n cs)) needs"
    "\<forall>m. 0 < m \<and> m < n \<longrightarrow> \<not> enough (total_res (take m cs)) needs"
proof -
  from assms obtain n ns where f: "filter (sufficient needs cs) [1..<51] = n # ns"
    by (auto simp: victim_plan_def split: list.splits)
  then have "n \<in> set (filter (sufficient needs cs) [1..<51])" by simp
  then have n: "sufficient needs cs n" by simp
  have "sorted (filter (sufficient needs cs) [1..<51])" using sorted_filter [of id "[1..<51]"] by simp
  then have least: "\<And>m. m \<in> set (filter (sufficient needs cs) [1..<51]) \<Longrightarrow> n \<le> m" unfolding f by auto
  have "\<not> enough (total_res (take m cs)) needs" if m: "0 < m \<and> m < n" for m
  proof
    assume "enough (total_res (take m cs)) needs"
    with m n have "m \<in> set (filter (sufficient needs cs) [1..<51])" by (auto simp: sufficient_def)
    from least [OF this] m show False by simp
  qed
  with n f show thesis using that [of n] by (simp add: victim_plan_def sufficient_def)
qed

lemma victims_obtain:
  assumes "pl_list lister = Inr pods" and "findPreemptionVictims srt lister state g needs nis = vs" and "vs \<noteq> []"
    and "slice_sorter victim_less srt"
  obtains n cs where "cs = srt (collect_candidates (victim_of state g nis) pods)"
    "vs = map vc_pod (take n cs)" "n \<le> 50" "enough (total_res (take n cs)) needs"
    "\<forall>m. 0 < m \<and> m < n \<longrightarrow> \<not> enough (total_res (take m cs)) needs"
    "mset cs = mset (collect_candidates (victim_of state g nis) pods)"
proof -
  define cs where "cs = srt (collect_candidates (victim_of state g nis) pods)"
  have vs: "vs = map vc_pod (victim_plan needs cs)" "victim_plan needs cs \<noteq> []"
    using assms(1-3) by (auto simp: findPreemptionVictims_plan cs_def Let_def split: if_splits)
  from vs(2) obtain n where "victim_plan needs cs = take n cs" "n \<le> 50" "enough (total_res (take n cs)) needs"
    "\<forall>m. 0 < m \<and> m < n \<longrightarrow> \<not> enough (total_res (take m cs)) needs"
    by (rule victim_plan_obtain)
  then show thesis using slice_sorter.perm [OF assms(4)] vs(1) that [of cs n] by (simp add: cs_def)
qed

lemma victim_plan_empty_iff: "victim_plan needs cs = [] \<longleftrightarrow> (\<forall>n. \<not> sufficient needs cs n)"
proof
  assume e: "victim_plan needs cs = []"
  show "\<forall>n. \<not> sufficient needs cs n"
  proof (rule allI, rule notI)
    fix n assume n: "sufficient needs cs n"
    then have "n \<in> set (filter (sufficient needs cs) [1..<51])" by (auto simp: sufficient_def)
    then obtain m ms where m: "filter (sufficient needs cs) [1..<51] = m # ms"
      by (metis empty_iff empty_set list.exhaust)
    then have "m \<in> set (filter (sufficient needs cs) [1..<51])" by simp
    then have "sufficient needs cs m" by simp
    with e m show False by (simp add: victim_plan_def sufficient_def)
  qed
qed (simp add: victim_plan_none)

text \<open>The pods an invocation may evict, as a predicate on pods.\<close>

definition eligible :: "'o cycle_state option \<Rightarrow> pod \<Rightarrow> node_info list \<Rightarrow> pod \<Rightarrow> bool" where
  "eligible state g nis v \<longleftrightarrow>
     p_node v \<in> node_names nis \<and> p_node v \<noteq> '''' \<and>
     \<not> (p_ns v = p_ns g \<and> pg_name v \<noteq> '''' \<and> pg_name v = pg_name g) \<and>
     (getTierPriority (getTenantTierFromPod v) < getTierPriority (getTenantTierFromProfile state) \<or>
      getTierPriority (getTenantTierFromPod v) = getTierPriority (getTenantTierFromProfile state) \<and>
      prio_or_0 v < prio_or_0 g)"

definition candidate_of :: "pod \<Rightarrow> victim_candidate" where
  "candidate_of v = \<lparr>vc_pod = v, vc_node = p_node v, vc_priority = prio_or_0 v, vc_tier = getTenantTierFromPod v,
     vc_res = sum_requests (p_containers v) no_resources\<rparr>"

lemma candidate_pod [simp]: "vc_pod (candidate_of v) = v"
  by (simp add: candidate_of_def)

lemma candidate_res: "vc_res (candidate_of v) = sum_requests (p_containers v) no_resources"
  by (simp add: candidate_of_def)

abbreviation pods_res :: "pod list \<Rightarrow> resource_requirements" where
  "pods_res vs \<equiv> foldl add_res no_resources (map (\<lambda>v. sum_requests (p_containers v) no_resources) vs)"

lemma total_candidates:
  assumes "\<And>c. c \<in> set cs \<Longrightarrow> c = candidate_of (vc_pod c)"
  shows "total_res cs = pods_res (map vc_pod cs)"
proof -
  have "map vc_res cs = map (\<lambda>c. vc_res (candidate_of (vc_pod c))) cs"
    using assms by (intro map_cong) simp_all
  then have "map vc_res cs = map (\<lambda>v. sum_requests (p_containers v) no_resources) (map vc_pod cs)"
    by (simp add: candidate_res)
  then show ?thesis by (simp only: total_res_def)
qed

lemma same_group_iff:
  "(case pg_labels v of Inr (a, _) \<Rightarrow> a \<noteq> '''' \<and> (case pg_labels g of Inr (b, _) \<Rightarrow> a = b | Inl _ \<Rightarrow> False) | Inl _ \<Rightarrow> False)
     \<longleftrightarrow> pg_name v \<noteq> '''' \<and> pg_name v = pg_name g"
  by (auto simp: pg_name_def split: sum.splits prod.splits)

lemma victim_of_eq: "victim_of state g nis v = (if eligible state g nis v then Some (candidate_of v) else None)"
  by (auto simp: victim_of_def eligible_def candidate_of_def same_group_iff Let_def)

lemma collect_eligible:
  "collect_candidates (victim_of state g nis) ps = map candidate_of (filter (eligible state g nis) ps)"
  by (induction ps) (auto simp: victim_of_eq)

text \<open>C1: Whom a gang may evict: the victims are at most fifty pods of the lister, each assigned to a
  node of the snapshot, none a member of the gang itself, each of a lower tenant tier than the gang
  or of its tier and of lower priority, and what they request together, summed in 64 bits, covers the
  needs the search is called with, which \<^verbatim>\<open>PostFilter\<close> makes the CPU, memory and GPUs of the whole gang.\<close>

theorem findPreemptionVictims_sound:
  assumes "slice_sorter victim_less srt" and "pl_list lister = Inr pods"
    and "findPreemptionVictims srt lister state g needs nis = vs" and "vs \<noteq> []"
  shows "length vs \<le> 50 \<and> mset vs \<subseteq># mset pods \<and> (\<forall>v \<in> set vs. eligible state g nis v) \<and>
    enough (pods_res vs) needs"
proof -
  obtain n cs where n: "vs = map vc_pod (take n cs)" "n \<le> 50" "enough (total_res (take n cs)) needs"
    "mset cs = mset (map candidate_of (filter (eligible state g nis) pods))"
    by (rule victims_obtain [OF assms(2-4,1)]) (auto simp: collect_eligible)
  have "set cs = candidate_of ` set (filter (eligible state g nis) pods)"
    using n(4) by (metis list.set_map set_mset_mset)
  then have cs: "c = candidate_of (vc_pod c)" if "c \<in> set cs" for c
    using that by auto
  then have t: "total_res (take n cs) = pods_res vs"
    using total_candidates [of "take n cs"] in_set_takeD by (metis n(1))
  have "mset (map vc_pod cs) = mset (filter (eligible state g nis) pods)"
    using arg_cong [OF n(4), of "image_mset vc_pod"] by (simp add: multiset.map_comp comp_def)
  moreover have "mset vs \<subseteq># mset (map vc_pod cs)"
    unfolding n(1) by (metis append_take_drop_id map_append mset_append mset_subset_eq_add_left take_map)
  ultimately have sub: "mset vs \<subseteq># mset (filter (eligible state g nis) pods)" by simp
  then have "\<forall>v \<in> set vs. eligible state g nis v"
    using set_mset_mono [OF sub] by auto
  moreover have "mset vs \<subseteq># mset pods" 
    by (rule subset_mset.order_trans [OF sub [unfolded mset_filter] multiset_filter_subset])
  ultimately show ?thesis using n(1-3) t by simp
qed

definition ex_cpu :: "int \<Rightarrow> container" where
  "ex_cpu m = \<lparr>c_image = ''i'', c_requests = [(''cpu'', \<lparr>q_milli = m, q_value = 1, q_is_zero = False\<rparr>)], c_limits = []\<rparr>"

definition ex_running :: "string \<Rightarrow> int \<Rightarrow> int \<Rightarrow> pod" where
  "ex_running n prio cpu = empty_pod \<lparr>p_name := n, p_ns := ''team'', p_node := ''n1'', p_phase := PodRunning,
     p_priority := Some prio, p_containers := [ex_cpu cpu]\<rparr>"

definition ex_gang :: pod where
  "ex_gang = ex_gang_pod \<lparr>p_priority := Some 5, p_containers := [ex_cpu 500]\<rparr>"

definition ex_nodes :: "node_info list" where
  "ex_nodes = [\<lparr>ni_node = Some \<lparr>n_name = ''n1'', n_labels = [], n_allocatable = [], n_capacity = []\<rparr>,
     ni_req_cpu = 0, ni_req_memory = 0, ni_req_scalar = []\<rparr>]"

definition ex_pods :: "pod list" where
  "ex_pods = [ex_running ''c'' 3 1000, ex_running ''a'' 1 1000, ex_running ''d'' 9 1000, ex_running ''b'' 2 600]"

lemma ex_victims:
  "findPreemptionVictims (insertion_sort victim_less) (cache_lister ex_pods) (None :: unit cycle_state option) ex_gang
     (calculateGangResourceNeeds ex_gang 3) ex_nodes = [ex_running ''a'' 1 1000, ex_running ''b'' 2 600]"
  by code_simp

lemma findPreemptionVictims_sound_witness:
  "enough (pods_res [ex_running ''a'' 1 1000, ex_running ''b'' 2 600]) (calculateGangResourceNeeds ex_gang 3) \<and>
   eligible (None :: unit cycle_state option) ex_gang ex_nodes (ex_running ''b'' 2 600)"
  using findPreemptionVictims_sound [OF victims.insertion_sorter cache.list_all ex_victims] by simp

text \<open>C13: The sacrifice stops as early as it can and is ordered: no shorter non-empty prefix of the selection
  covers the needs, so a selection of several victims does not cover them without its last one, and no
  eligible pod that is spared is of a lower tier than a victim, or of its tier and of lower priority, or
  equal in both and smaller in CPU.  Of a selection of one victim it is not claimed that the victim is
  needed: the loop compares the sum with the needs only after it has added a pod.\<close>

theorem findPreemptionVictims_minimal:
  assumes "slice_sorter victim_less srt" and "pl_list lister = Inr pods"
    and "findPreemptionVictims srt lister state g needs nis = vs" and "vs \<noteq> []"
  shows "(\<forall>k. 0 < k \<and> k < length vs \<longrightarrow> \<not> enough (pods_res (take k vs)) needs) \<and>
    (length vs > 1 \<longrightarrow> \<not> enough (pods_res (butlast vs)) needs) \<and>
    (\<forall>v \<in> set vs. \<forall>u \<in> set pods. eligible state g nis u \<and> u \<notin> set vs \<longrightarrow>
      \<not> victim_less (candidate_of u) (candidate_of v))"
proof -
  obtain n cs where n: "cs = srt (map candidate_of (filter (eligible state g nis) pods))" "vs = map vc_pod (take n cs)"
    "\<forall>m. 0 < m \<and> m < n \<longrightarrow> \<not> enough (total_res (take m cs)) needs"
    "mset cs = mset (map candidate_of (filter (eligible state g nis) pods))"
    by (rule victims_obtain [OF assms(2-4,1)]) (auto simp: collect_eligible)
  have sc: "set cs = candidate_of ` set (filter (eligible state g nis) pods)"
    using n(4) by (metis list.set_map set_mset_mset)
  then have cs: "c = candidate_of (vc_pod c)" if "c \<in> set cs" for c
    using that by auto
  have tot: "total_res (take m cs) = pods_res (map vc_pod (take m cs))" for m
    using cs in_set_takeD by (metis total_candidates)
  have short: "\<not> enough (pods_res (take k vs)) needs" if "0 < k" "k < length vs" for k
  proof -
    have "take k vs = map vc_pod (take k cs)" "k < n" using that(2) by (auto simp: n(2) take_map min_def split: if_splits)
    then show ?thesis using n(3) that(1) by (simp add: tot)
  qed
  moreover have "\<not> enough (pods_res (butlast vs)) needs" if "length vs > 1"
    unfolding butlast_conv_take by (rule short) (use that in simp_all)
  moreover have "\<not> victim_less (candidate_of u) (candidate_of v)"
    if "v \<in> set vs" "u \<in> set pods" "eligible state g nis u" "u \<notin> set vs" for u v
  proof -
    from that(1) obtain c where c: "c \<in> set (take n cs)" "v = vc_pod c" by (auto simp: n(2))
    then have cv: "candidate_of v = c" using cs [OF in_set_takeD [OF c(1)]] by simp
    have "candidate_of u \<in> set cs" using that(2,3) sc by auto
    moreover have "candidate_of u \<notin> set (take n cs)" using that(4) by (force simp: n(2))
    ultimately have "candidate_of u \<in> set (drop n cs)"
      by (metis append_take_drop_id Un_iff set_append)
    with c(1) show ?thesis
      unfolding cv n(1) by (metis slice_sorter.srt_take [OF assms(1)])
  qed
  ultimately show ?thesis by blast
qed

lemma findPreemptionVictims_minimal_witness:
  "\<not> victim_less (candidate_of (ex_running ''c'' 3 1000)) (candidate_of (ex_running ''b'' 2 600))"
proof -
  have "ex_running ''c'' 3 1000 \<in> set ex_pods" by (simp add: ex_pods_def)
  moreover have "eligible (None :: unit cycle_state option) ex_gang ex_nodes (ex_running ''c'' 3 1000)" by code_simp
  moreover have "ex_running ''c'' 3 1000 \<noteq> ex_running ''a'' 1 1000 \<and> ex_running ''c'' 3 1000 \<noteq> ex_running ''b'' 2 600"
    by (simp add: ex_running_def empty_pod_def)
  moreover have "ex_running ''b'' 2 600 \<in> set [ex_running ''a'' 1 1000, ex_running ''b'' 2 600]"
    "ex_running ''c'' 3 1000 \<notin> set [ex_running ''a'' 1 1000, ex_running ''b'' 2 600]"
    using calculation(3) by simp_all
  ultimately show ?thesis
    using conjunct2 [OF conjunct2 [OF findPreemptionVictims_minimal [OF victims.insertion_sorter cache.list_all ex_victims]]]
    by blast
qed

text \<open>C14: The plan is complete: when the lister works, a gang gets no victims only if no non-empty
  prefix of at most fifty pods of the sorted eligible pods would free enough.\<close>

theorem findPreemptionVictims_complete:
  assumes "slice_sorter victim_less srt" and "pl_list lister = Inr pods"
  shows "findPreemptionVictims srt lister state g needs nis = [] \<longleftrightarrow>
    (\<forall>n. \<not> sufficient needs (srt (map candidate_of (filter (eligible state g nis) pods))) n)"
proof -
  have "srt [] = []" using slice_sorter.perm [OF assms(1), of "[]"] by simp
  then show ?thesis
    by (auto simp: findPreemptionVictims_plan assms(2) collect_eligible Let_def victim_plan_empty_iff sufficient_def)
qed

lemma findPreemptionVictims_complete_witness:
  "\<exists>n. sufficient (calculateGangResourceNeeds ex_gang 3)
     (insertion_sort victim_less (map candidate_of (filter (eligible (None :: unit cycle_state option) ex_gang ex_nodes) ex_pods))) n"
  using findPreemptionVictims_complete [OF victims.insertion_sorter cache.list_all, of ex_pods "None :: unit cycle_state option"
    ex_gang "calculateGangResourceNeeds ex_gang 3" ex_nodes] ex_victims by auto

text \<open>The fields of a pod that a candidate is computed from.\<close>

lemma getTenantTierFromPod_cong: "p_labels v = p_labels w \<Longrightarrow> p_ns v = p_ns w \<Longrightarrow> getTenantTierFromPod v = getTenantTierFromPod w"
  by (simp only: getTenantTierFromPod_def)

lemma pg_name_cong: "p_labels v = p_labels w \<Longrightarrow> pg_name v = pg_name w"
  by (simp only: pg_name_def GetPodGroupLabels_def option.case)

lemma victim_update:
  "getTenantTierFromPod (v\<lparr>p_priority := pr\<rparr>) = getTenantTierFromPod v"
  "getTenantTierFromPod (v\<lparr>p_phase := ph, p_deleted := d\<rparr>) = getTenantTierFromPod v"
  "pg_name (v\<lparr>p_phase := ph, p_deleted := d\<rparr>) = pg_name v"
  "prio_or_0 (v\<lparr>p_phase := ph, p_deleted := d\<rparr>) = prio_or_0 v"
  by (rule getTenantTierFromPod_cong, simp, simp, rule getTenantTierFromPod_cong, simp, simp,
      rule pg_name_cong, simp, simp add: prio_or_0_def)

text \<open>The tenant tier comes before the priority: against a gang of a higher tier a pod is eligible
  whatever its priority is, so a high-priority pod of a lower tier can be evicted for a gang of low
  priority.\<close>

theorem eligible_tier_over_priority:
  assumes "p_node v \<in> node_names nis" "p_node v \<noteq> ''''" and "p_ns v \<noteq> p_ns g"
    and "getTierPriority (getTenantTierFromPod v) < getTierPriority (getTenantTierFromProfile state)"
  shows "victim_of state g nis (v\<lparr>p_priority := pr\<rparr>) = Some (candidate_of (v\<lparr>p_priority := pr\<rparr>))"
  using assms by (simp add: victim_of_eq eligible_def victim_update)

definition gold_state :: "unit cycle_state" where
  "gold_state = [stateKey \<mapsto> ProfileData \<lparr>sp_tier = TierGold, sp_tenant = ''ml'', sp_workload = WorkloadTraining,
     sp_gang = True, sp_preemptible = False, sp_priority = 5, sp_qos = ''''\<rparr>]"

lemma eligible_tier_over_priority_witness:
  "victim_of (Some gold_state) ex_gang ex_nodes (ex_running ''a'' 1 1000 \<lparr>p_priority := Some 2000000000\<rparr>) =
     Some (candidate_of (ex_running ''a'' 1 1000 \<lparr>p_priority := Some 2000000000\<rparr>)) \<and> prio_or_0 ex_gang = 5"
proof -
  have "p_node (ex_running ''a'' 1 1000) \<in> node_names ex_nodes" "p_node (ex_running ''a'' 1 1000) \<noteq> ''''"
    "p_ns (ex_running ''a'' 1 1000) \<noteq> p_ns ex_gang"
    "getTierPriority (getTenantTierFromPod (ex_running ''a'' 1 1000)) < getTierPriority (getTenantTierFromProfile (Some gold_state))"
    "prio_or_0 ex_gang = 5"
    by code_simp+
  with eligible_tier_over_priority [OF this(1-4), of "Some 2000000000"] show ?thesis by simp
qed

text \<open>Pods that hold nothing count as freeing resources: the phase and the deletion of a pod play no
  part, so a pod that has finished or is being deleted is as eligible as when it ran, with all its
  requests, and such pods alone can make up the whole selection.\<close>

theorem victim_of_ignores_phase:
  "victim_of state g nis (v\<lparr>p_phase := ph, p_deleted := d\<rparr>) =
     (case victim_of state g nis v of None \<Rightarrow> None
      | Some c \<Rightarrow> Some (c\<lparr>vc_pod := v\<lparr>p_phase := ph, p_deleted := d\<rparr>\<rparr>))"
  by (simp add: victim_of_eq eligible_def candidate_of_def victim_update)

section \<open>The nominated node\<close>

lemma add_freed_keys: "fst ` set (add_freed n cs m) \<subseteq> insert n (fst ` set m)"
proof (induction n cs m rule: add_freed.induct)
  case (2 n c cs m)
  then show ?case by (simp add: dom_update)
qed auto

lemma freed_by_node_keys: "fst ` set (freed_by_node vs m) \<subseteq> p_node ` set vs - {''''} \<union> fst ` set m"
proof (induction vs m rule: freed_by_node.induct)
  case (2 v vs m)
  show ?case
  proof (cases "p_node v = ''''")
    case True
    with 2 show ?thesis by auto
  next
    case False
    with 2 have "fst ` set (freed_by_node (v # vs) m) \<subseteq> p_node ` set vs - {''''} \<union> fst ` set (add_freed (p_node v) (p_containers v) m)"
      by simp
    also have "\<dots> \<subseteq> p_node ` set (v # vs) - {''''} \<union> fst ` set m"
      using add_freed_keys [of "p_node v" "p_containers v" m] False by auto
    finally show ?thesis .
  qed
qed auto

lemma best_node_spec:
  "(best_node m best = best \<or> best_node m best \<in> set m) \<and> snd (best_node m best) \<ge> snd best \<and>
   (\<forall>(n, f) \<in> set m. f \<le> snd (best_node m best)) \<and> (best_node m best \<noteq> best \<longrightarrow> snd (best_node m best) > snd best)"
proof (induction m best rule: best_node.induct)
  case (2 n f m b mx)
  then show ?case by (cases "f > mx") auto
qed auto

text \<open>The nominated node: in whatever order Go visits the map, the result is the empty string exactly
  when no node frees a positive amount of CPU, and otherwise a node of a victim that frees the most.\<close>

theorem selectNominatedNode_best:
  assumes "set (range_order (freed_by_node vs [])) = set (freed_by_node vs [])"
  shows "(selectNominatedNode range_order vs = '''' \<longleftrightarrow> (\<forall>(n, f) \<in> set (freed_by_node vs []). f \<le> 0)) \<and>
    (selectNominatedNode range_order vs \<noteq> '''' \<longrightarrow>
       selectNominatedNode range_order vs \<in> p_node ` set vs \<and>
       (\<exists>f. (selectNominatedNode range_order vs, f) \<in> set (freed_by_node vs []) \<and>
         (\<forall>(n', f') \<in> set (freed_by_node vs []). f' \<le> f)))"
proof -
  define m where "m = range_order (freed_by_node vs [])"
  obtain b mx where b: "best_node m ('''', 0) = (b, mx)" by (cases "best_node m ('''', 0)")
  have sel: "selectNominatedNode range_order vs = b" by (simp add: selectNominatedNode_def m_def [symmetric] b)
  have spec: "(b, mx) = ('''', 0) \<or> (b, mx) \<in> set m" "0 \<le> mx" "\<forall>(n, f) \<in> set m. f \<le> mx" "(b, mx) \<noteq> ('''', 0) \<longrightarrow> 0 < mx"
    using best_node_spec [of m "('''', 0)"] by (auto simp: b)
  have keys: "fst ` set m \<subseteq> p_node ` set vs - {''''}" using freed_by_node_keys [of vs "[]"] assms by (simp add: m_def)
  have bm: "b \<noteq> ''''" if "(b, mx) \<in> set m"
  proof -
    from that have "fst (b, mx) \<in> fst ` set m" by (rule imageI)
    with keys show ?thesis by auto
  qed
  have "b = '''' \<longleftrightarrow> (\<forall>(n, f) \<in> set m. f \<le> 0)"
  proof
    assume "\<forall>(n, f) \<in> set m. f \<le> 0"
    then have "\<not> ((b, mx) \<in> set m \<and> 0 < mx)" by auto
    with spec(1,4) show "b = ''''" by blast
  next
    assume "b = ''''"
    with spec(1) bm have "mx = 0" by blast
    with spec(3) show "\<forall>(n, f) \<in> set m. f \<le> 0" by blast
  qed
  moreover have "b \<in> p_node ` set vs \<and> (b, mx) \<in> set m" if "b \<noteq> ''''"
  proof -
    have "(b, mx) \<in> set m" using that spec(1) by blast
    moreover from this have "b \<in> fst ` set m" by (force intro: image_eqI)
    ultimately show ?thesis using keys by blast
  qed
  ultimately show ?thesis unfolding sel assms [symmetric] m_def [symmetric] using spec(3) by blast
qed

lemma selectNominatedNode_best_witness:
  "selectNominatedNode rev [ex_running ''a'' 1 1000, ex_running ''b'' 2 600] = ''n1''"
proof -
  have f: "freed_by_node [ex_running ''a'' 1 1000, ex_running ''b'' 2 600] [] = [(''n1'', 1600)]" by code_simp
  have "\<not> (\<forall>(n, f) \<in> set (freed_by_node [ex_running ''a'' 1 1000, ex_running ''b'' 2 600] []). f \<le> 0)" unfolding f by simp
  with selectNominatedNode_best [of rev "[ex_running ''a'' 1 1000, ex_running ''b'' 2 600]"]
  show ?thesis unfolding f by auto
qed

section \<open>The cooldown\<close>

definition in_cooldown :: "time \<Rightarrow> string \<Rightarrow> attempts \<Rightarrow> bool" where
  "in_cooldown now1 k st = (case lookup st k of None \<Rightarrow> False | Some t \<Rightarrow> time_sub now1 t < MinimumPreemptionGap)"

lemma in_cooldown_iff: "in_cooldown now1 k st \<longleftrightarrow> (\<exists>t. lookup st k = Some t \<and> now1 - t < seconds 30)"
  by (auto simp: in_cooldown_def MinimumPreemptionGap_def time_sub_less_iff seconds_def split: option.splits)

text \<open>The gang for which an invocation gets past its guards and records an attempt.\<close>

definition attempt_key :: "time \<Rightarrow> pod \<Rightarrow> attempts \<Rightarrow> string option" where
  "attempt_key now1 p st =
     (case pg_labels p of
        Inl _ \<Rightarrow> None
      | Inr (g, m) \<Rightarrow> if g = '''' \<or> m \<le> 1 \<or> in_cooldown now1 (p_ns p @ ''/'' @ g) st then None else Some (p_ns p @ ''/'' @ g))"

lemma PostFilter_skip:
  "attempt_key now1 p st = None \<Longrightarrow>
   fst (fst (PostFilter srt ro lister snap now1 now2 state p st)) = None \<and>
   snd (PostFilter srt ro lister snap now1 now2 state p st) = st"
  by (auto simp: attempt_key_def PostFilter_def in_cooldown_def Let_def split: sum.splits prod.splits if_splits)

lemma PostFilter_attempt:
  "attempt_key now1 p st = Some k \<Longrightarrow>
   snd (PostFilter srt ro lister snap now1 now2 state p st) = AList.update k now2 st"
  by (auto simp: attempt_key_def PostFilter_def in_cooldown_def Let_def split: sum.splits prod.splits if_splits)

text \<open>
  Runs of the plugin: invocations for any pods in any states of the cluster, with clock readings
  that do not go back, and the log of the attempts, newest first.
\<close>

inductive preempt_run :: "'o itself \<Rightarrow> time \<Rightarrow> attempts \<Rightarrow> (string \<times> time) list \<Rightarrow> bool"
  for T :: "'o itself" where
  run_init: "preempt_run T t [] []"
| run_call: "preempt_run T t st hist \<Longrightarrow> t \<le> now1 \<Longrightarrow> now1 \<le> now2 \<Longrightarrow>
    preempt_run T now2 (snd (PostFilter srt ro lister snap now1 now2 (state :: 'o cycle_state option) p st))
      (case attempt_key now1 p st of None \<Rightarrow> hist | Some k \<Rightarrow> (k, now2) # hist)"

definition gap_ok :: "string \<times> time \<Rightarrow> string \<times> time \<Rightarrow> bool" where
  "gap_ok later earlier \<longleftrightarrow> (fst later = fst earlier \<longrightarrow> snd later - snd earlier \<ge> seconds 30)"

text \<open>The map holds the newest attempt of every gang of the log.\<close>

lemma preempt_run_newest:
  "preempt_run T t st hist \<Longrightarrow>
   (\<forall>(k, a) \<in> set hist. a \<le> t \<and> (\<exists>b. lookup st k = Some b \<and> a \<le> b)) \<and> sorted_wrt gap_ok hist"
proof (induction rule: preempt_run.induct)
  case (run_call t st hist now1 now2 srt ro lister snap state p)
  show ?case
  proof (cases "attempt_key now1 p st")
    case None
    with run_call PostFilter_skip [OF None, of srt ro lister snap now2 state] show ?thesis by auto
  next
    case (Some k)
    then have nc: "\<not> in_cooldown now1 k st"
      by (auto simp: attempt_key_def split: sum.splits prod.splits if_splits)
    have "gap_ok (k, now2) (k', a)" if "(k', a) \<in> set hist" for k' a
    proof -
      from that run_call.IH obtain b where "lookup st k' = Some b" "a \<le> b" by blast
      with nc run_call.hyps(3) show ?thesis by (force simp: gap_ok_def in_cooldown_iff)
    qed
    moreover have "\<forall>(k', a) \<in> set hist. a \<le> now2 \<and> (\<exists>b. lookup (AList.update k now2 st) k' = Some b \<and> a \<le> b)"
      using run_call.IH run_call.hyps(2,3) by (fastforce simp: update_conv')
    ultimately show ?thesis
      using Some run_call.IH PostFilter_attempt [OF Some, of srt ro lister snap now2 state]
      by (auto simp: update_conv')
  qed
qed simp

text \<open>C12: Preemption does not thrash: in every run of the plugin any two attempts for the same gang are at
  least 30 seconds apart, and an invocation that records no attempt nominates no node and leaves
  the state as it was.\<close>

theorem preemption_gap:
  assumes "preempt_run T t st hist"
  shows "sorted_wrt gap_ok hist \<and>
    (attempt_key now1 p st = None \<longrightarrow>
       fst (fst (PostFilter srt ro lister snap now1 now2 state p st)) = None \<and>
       snd (PostFilter srt ro lister snap now1 now2 state p st) = st)"
  using preempt_run_newest [OF assms] PostFilter_skip by blast

lemma preemption_gap_witness:
  "gap_ok (''ml/w'', seconds 35) (''ml/w'', seconds 2)"
proof -
  have 1: "attempt_key (seconds 1) ex_gang [] = Some ''ml/w''"
    and 2: "attempt_key (seconds 34) ex_gang [(''ml/w'', seconds 2)] = Some ''ml/w''" by code_simp+
  let ?P = "\<lambda>now1 now2 st. PostFilter id id (cache_lister []) (Inr []) now1 now2 (None :: unit cycle_state option) ex_gang st"
  have s1: "snd (?P (seconds 1) (seconds 2) []) = [(''ml/w'', seconds 2)]"
    using PostFilter_attempt [OF 1, of id id "cache_lister []" "Inr []" "seconds 2" "None :: unit cycle_state option"] by simp
  have "preempt_run TYPE(unit) (seconds 2) (snd (?P (seconds 1) (seconds 2) [])) [(''ml/w'', seconds 2)]"
    using run_call [OF run_init [of "TYPE(unit)" 0], of "seconds 1" "seconds 2" id id "cache_lister []" "Inr []" "None :: unit cycle_state option" ex_gang] 1
    by (simp add: seconds_def)
  then have "preempt_run TYPE(unit) (seconds 2) [(''ml/w'', seconds 2)] [(''ml/w'', seconds 2)]" by (simp only: s1)
  from run_call [OF this, of "seconds 34" "seconds 35" id id "cache_lister []" "Inr []" "None :: unit cycle_state option" ex_gang] 2
  have "preempt_run TYPE(unit) (seconds 35) (snd (?P (seconds 34) (seconds 35) [(''ml/w'', seconds 2)])) [(''ml/w'', seconds 35), (''ml/w'', seconds 2)]"
    by (simp add: seconds_def)
  from preemption_gap [OF this, THEN conjunct1] show ?thesis by simp
qed

end
