(* ===== verification/Reservation.thy ===== *)
theory Reservation
  imports Profile Interfaces "HOL-Library.AList"
begin

text \<open>
  \<^verbatim>\<open>pkg/plugins/resourcereservation/resourcereservation.go\<close> and the custom resource of
  \<^verbatim>\<open>pkg/apis/scheduling/v1alpha1/types.go\<close>: a gang gets one reservation object before its
  first pod is scheduled, and loses it when it runs or when the object has expired.

  The API server is external: its five calls on reservation objects are a record of functions on a
  world.  The locale \<^verbatim>\<open>reservation_server\<close> states what the code relies on of a server that does
  not fail (Kubernetes' semantics of names, finalizers and deletion), and \<^verbatim>\<open>mem_api\<close> provides it.
  The plugin's own state is the set of tracked gangs beside the world.
\<close>

section \<open>The custom resource\<close>

record reservation =
  rs_node :: string
  rs_cpu :: quantity
  rs_memory :: quantity
  rs_gpu :: quantity

record resource_reservation =
  rv_name :: string
  rv_ns :: string
  rv_labels :: "string gomap option"
  rv_finalizers :: "string list"
  rv_owner :: "string option"
  rv_created :: time
  rv_deleting :: bool
  rv_reservations :: "reservation gomap"
  rv_pods :: "string gomap"

definition reservationFinalizer :: string where
  "reservationFinalizer = ''scheduling.kubenexus.io/reservation-protection''"

definition reservationTTL :: duration where
  "reservationTTL = seconds 1800"

definition AppIDLabel :: string where
  "AppIDLabel = ''scheduling.kubenexus.io/app-id''"

text \<open>\<^verbatim>\<open>res.Labels != nil && res.Labels["pod-group"] == podGroupName\<close>.\<close>

definition of_group :: "string \<Rightarrow> resource_reservation \<Rightarrow> bool" where
  "of_group podGroupName res \<longleftrightarrow>
     (case rv_labels res of None \<Rightarrow> False | Some ls \<Rightarrow> lookup_str ls ''pod-group'' = podGroupName)"

section \<open>The API server and the state\<close>

record 'w reservation_api =
  api_create :: "resource_reservation \<Rightarrow> 'w \<Rightarrow> (string + resource_reservation) \<times> 'w"
  api_get :: "string \<Rightarrow> string \<Rightarrow> 'w \<Rightarrow> (string + resource_reservation) \<times> 'w"
  api_list :: "string \<Rightarrow> 'w \<Rightarrow> (string + resource_reservation list) \<times> 'w"
  api_update :: "resource_reservation \<Rightarrow> 'w \<Rightarrow> string option \<times> 'w"
  api_delete :: "string \<Rightarrow> string \<Rightarrow> 'w \<Rightarrow> string option \<times> 'w"

record 'w rr_state =
  tracked_gangs :: "string list"
  rr_world :: 'w

record reservation_data =
  rd_gang :: string
  rd_reservations :: "resource_reservation list"

definition rr_stateKey :: string where
  "rr_stateKey = ''ResourceReservation''"

definition reservation_Clone :: "reservation_data \<Rightarrow> reservation_data" where
  "reservation_Clone r = \<lparr>rd_gang = rd_gang r, rd_reservations = rd_reservations r\<rparr>"

definition untrack :: "string \<Rightarrow> 'w rr_state \<Rightarrow> 'w rr_state" where
  "untrack k st = st\<lparr>tracked_gangs := filter (\<lambda>k'. k' \<noteq> k) (tracked_gangs st)\<rparr>"

section \<open>Helpers\<close>

definition isGangMember :: "pod \<Rightarrow> bool" where
  "isGangMember p \<longleftrightarrow> (case pg_labels p of Inl _ \<Rightarrow> False | Inr (podGroupName, minAvailable) \<Rightarrow> podGroupName \<noteq> '''' \<and> minAvailable > 1)"

definition getGangKey :: "pod \<Rightarrow> string" where
  "getGangKey p =
     (case pg_labels p of Inl _ \<Rightarrow> ''''
      | Inr (podGroupName, _) \<Rightarrow> if podGroupName = '''' then '''' else p_ns p @ ''/'' @ podGroupName)"

fun hasFinalizer :: "string list \<Rightarrow> string \<Rightarrow> bool" where
  "hasFinalizer [] finalizer \<longleftrightarrow> False"
| "hasFinalizer (f # fs) finalizer \<longleftrightarrow> (if f = finalizer then True else hasFinalizer fs finalizer)"

fun removeFinalizer :: "string list \<Rightarrow> string \<Rightarrow> string list" where
  "removeFinalizer [] finalizer = []"
| "removeFinalizer (f # fs) finalizer =
     (if f \<noteq> finalizer then f # removeFinalizer fs finalizer else removeFinalizer fs finalizer)"

section \<open>Creation\<close>

fun add_members :: "string \<Rightarrow> reservation \<Rightarrow> nat \<Rightarrow> int \<Rightarrow> reservation gomap \<Rightarrow> reservation gomap" where
  "add_members g r 0 i m = m"
| "add_members g r (Suc n) i m = add_members g r n (i + 1) (AList.update (g @ ''-member-'' @ itoa i) r m)"

definition first_request :: "string \<Rightarrow> pod \<Rightarrow> quantity" where
  "first_request k p =
     (case p_containers p of
        [] \<Rightarrow> zero_quantity
      | container # _ \<Rightarrow> (case lookup (c_requests container) k of None \<Rightarrow> zero_quantity | Some q \<Rightarrow> q))"

definition gang_reservation :: "pod \<Rightarrow> string \<Rightarrow> int \<Rightarrow> resource_reservation" where
  "gang_reservation p podGroupName minAvailable =
     \<lparr>rv_name = podGroupName @ ''-reservation'', rv_ns = p_ns p,
      rv_labels = Some [(''pod-group'', podGroupName), (''app.kubernetes.io/managed-by'', ''kubenexus-scheduler'')],
      rv_finalizers = [reservationFinalizer], rv_owner = None, rv_created = 0, rv_deleting = False,
      rv_reservations = add_members podGroupName
        \<lparr>rs_node = '''', rs_cpu = first_request ''cpu'' p, rs_memory = first_request ''memory'' p,
         rs_gpu = first_request gpu_resource p\<rparr> (nat minAvailable) 0 [],
      rv_pods = []\<rparr>"

definition createGangReservations ::
  "'w reservation_api \<Rightarrow> pod \<Rightarrow> string \<Rightarrow> int \<Rightarrow> 'w \<Rightarrow> (string + resource_reservation list) \<times> 'w" where
  "createGangReservations api p podGroupName minAvailable w =
     (let reservation = gang_reservation p podGroupName minAvailable
      in (case api_create api reservation w of
            (Inr result, w1) \<Rightarrow> (Inr [result], w1)
          | (Inl err, w1) \<Rightarrow>
              if contains err ''already exists''
              then (case api_get api (rv_ns reservation) (rv_name reservation) w1 of
                      (Inl fetchErr, w2) \<Rightarrow> (Inl (''reservation exists but failed to fetch: '' @ fetchErr), w2)
                    | (Inr existing, w2) \<Rightarrow> (Inr [existing], w2))
              else (Inl (''failed to create reservation CRD: '' @ err), w1)))"

definition reservation_PreFilter ::
  "'w reservation_api \<Rightarrow> reservation_data cycle_state \<Rightarrow> pod \<Rightarrow> 'w rr_state
     \<Rightarrow> status \<times> reservation_data cycle_state \<times> 'w rr_state" where
  "reservation_PreFilter api cs p st =
     (if \<not> isGangMember p then (success, cs, st)
      else (case pg_labels p of
              Inl _ \<Rightarrow> (success, cs, st)
            | Inr (podGroupName, minAvailable) \<Rightarrow>
                if podGroupName = '''' then (success, cs, st)
                else let gangKey = p_ns p @ ''/'' @ podGroupName
                in if gangKey \<in> set (tracked_gangs st) then (success, cs, st)
                   else let st1 = st\<lparr>tracked_gangs := gangKey # tracked_gangs st\<rparr>
                   in (case createGangReservations api p podGroupName minAvailable (rr_world st1) of
                         (Inl err, w) \<Rightarrow> (mk_status Error err, cs, untrack gangKey (st1\<lparr>rr_world := w\<rparr>))
                       | (Inr reservations, w) \<Rightarrow>
                           (success,
                            cs(rr_stateKey \<mapsto> OtherData \<lparr>rd_gang = gangKey, rd_reservations = reservations\<rparr>),
                            st1\<lparr>rr_world := w\<rparr>))))"

section \<open>Filter, Reserve, Unreserve\<close>

definition affects_node :: "string \<Rightarrow> resource_reservation \<Rightarrow> bool" where
  "affects_node nodeName res \<longleftrightarrow> list_ex (\<lambda>(_, r). rs_node r = '''' \<or> rs_node r = nodeName) (rv_reservations res)"

definition getNodeReservations ::
  "'w reservation_api \<Rightarrow> string \<Rightarrow> string \<Rightarrow> 'w \<Rightarrow> (string + resource_reservation list) \<times> 'w" where
  "getNodeReservations api nodeName namespace w =
     (case api_list api namespace w of
        (Inl err, w1) \<Rightarrow> (Inl err, w1)
      | (Inr items, w1) \<Rightarrow> (Inr (filter (affects_node nodeName) items), w1))"

type_synonym reserved = "quantity \<times> quantity \<times> quantity"

fun add_entries :: "(quantity \<Rightarrow> quantity \<Rightarrow> quantity) \<Rightarrow> string \<Rightarrow> reservation gomap \<Rightarrow> reserved \<Rightarrow> reserved" where
  "add_entries add nodeName [] acc = acc"
| "add_entries add nodeName ((_, r) # rs) (cpu, memory, gpu) =
     add_entries add nodeName rs
       (if rs_node r = '''' \<or> rs_node r = nodeName
        then (add cpu (rs_cpu r), add memory (rs_memory r), add gpu (rs_gpu r))
        else (cpu, memory, gpu))"

fun reserved_by_others ::
  "(quantity \<Rightarrow> quantity \<Rightarrow> quantity) \<Rightarrow> string \<Rightarrow> pod \<Rightarrow> resource_reservation list \<Rightarrow> reserved \<Rightarrow> reserved" where
  "reserved_by_others add nodeName p [] acc = acc"
| "reserved_by_others add nodeName p (res # rest) acc =
     reserved_by_others add nodeName p rest
       (if rv_ns res = p_ns p \<and> of_group (pg_name p) res then acc
        else add_entries add nodeName (rv_reservations res) acc)"

text \<open>The status and the amounts that are logged.\<close>

definition reservation_Filter ::
  "'w reservation_api \<Rightarrow> (quantity \<Rightarrow> quantity \<Rightarrow> quantity) \<Rightarrow> pod \<Rightarrow> string \<Rightarrow> 'w rr_state
     \<Rightarrow> (status \<times> reserved option) \<times> 'w rr_state" where
  "reservation_Filter api add p nodeName st =
     (case getNodeReservations api nodeName (p_ns p) (rr_world st) of
        (Inl _, w) \<Rightarrow> ((success, None), st\<lparr>rr_world := w\<rparr>)
      | (Inr nodeReservations, w) \<Rightarrow>
          if nodeReservations = [] then ((success, None), st\<lparr>rr_world := w\<rparr>)
          else let reserved = reserved_by_others add nodeName p nodeReservations (zero_quantity, zero_quantity, zero_quantity);
                   (reservedCPU, reservedMemory, reservedGPU) = reserved
          in if q_milli reservedCPU > 0 \<or> q_value reservedMemory > 0 \<or> q_value reservedGPU > 0
             then ((success, Some reserved), st\<lparr>rr_world := w\<rparr>)
             else ((success, None), st\<lparr>rr_world := w\<rparr>))"

definition reservation_Reserve :: "pod option \<Rightarrow> string \<Rightarrow> status" where
  "reservation_Reserve pod nodeName =
     (case pod of None \<Rightarrow> mk_status Error ''pod cannot be nil'' | Some p \<Rightarrow> success)"

text \<open>\<^verbatim>\<open>Unreserve\<close> only logs.\<close>

definition reservation_Unreserve :: "pod option \<Rightarrow> string \<Rightarrow> 'w rr_state \<Rightarrow> 'w rr_state" where
  "reservation_Unreserve pod nodeName st = st"

section \<open>Deletion\<close>

definition in_group :: "string \<Rightarrow> pod \<Rightarrow> bool" where
  "in_group podGroupName p \<longleftrightarrow> (case pg_labels p of Inl _ \<Rightarrow> False | Inr (pgName, _) \<Rightarrow> pgName = podGroupName)"

definition isGangComplete :: "pod_lister \<Rightarrow> pod \<Rightarrow> string \<Rightarrow> int \<Rightarrow> bool" where
  "isGangComplete lister p podGroupName minAvailable \<longleftrightarrow>
     (case pl_ns_list lister (p_ns p) None of
        Inl _ \<Rightarrow> False
      | Inr pods \<Rightarrow>
          count_if (\<lambda>q. in_group podGroupName q \<and> \<not> p_deleted q \<and>
                        p_node q \<noteq> '''' \<and> p_phase q = PodRunning) pods \<ge> minAvailable)"

text \<open>The two calls on one object: the finalizer is removed, then the object is deleted.\<close>

definition finalize_delete ::
  "'w reservation_api \<Rightarrow> string \<Rightarrow> resource_reservation \<Rightarrow> 'w \<Rightarrow> string option \<times> 'w" where
  "finalize_delete api namespace res w =
     (let w1 = (if hasFinalizer (rv_finalizers res) reservationFinalizer
                then snd (api_update api (res\<lparr>rv_finalizers := removeFinalizer (rv_finalizers res) reservationFinalizer\<rparr>) w)
                else w)
      in api_delete api namespace (rv_name res) w1)"

fun delete_items :: "'w reservation_api \<Rightarrow> string \<Rightarrow> string \<Rightarrow> resource_reservation list \<Rightarrow> 'w \<Rightarrow> 'w" where
  "delete_items api namespace podGroupName [] w = w"
| "delete_items api namespace podGroupName (res # items) w =
     delete_items api namespace podGroupName items
       (if of_group podGroupName res then snd (finalize_delete api namespace res w) else w)"

definition deleteGangReservations ::
  "'w reservation_api \<Rightarrow> string \<Rightarrow> string \<Rightarrow> 'w \<Rightarrow> string option \<times> 'w" where
  "deleteGangReservations api namespace gangKey w =
     (case split_on (CHR ''/'') gangKey of
        [_, podGroupName] \<Rightarrow>
          (case api_list api namespace w of
             (Inl err, w1) \<Rightarrow> (Some err, w1)
           | (Inr items, w1) \<Rightarrow> (None, delete_items api namespace podGroupName items w1))
      | _ \<Rightarrow> (Some (''invalid gangKey format: '' @ gangKey), w))"

definition PostBind :: "'w reservation_api \<Rightarrow> pod_lister \<Rightarrow> pod \<Rightarrow> 'w rr_state \<Rightarrow> 'w rr_state" where
  "PostBind api lister p st =
     (if \<not> isGangMember p then st
      else (case pg_labels p of
              Inl _ \<Rightarrow> st
            | Inr (podGroupName, minAvailable) \<Rightarrow>
                if podGroupName = '''' then st
                else if \<not> isGangComplete lister p podGroupName minAvailable then st
                else let gangKey = p_ns p @ ''/'' @ podGroupName
                in (case deleteGangReservations api (p_ns p) gangKey (rr_world st) of
                      (Some _, w) \<Rightarrow> st\<lparr>rr_world := w\<rparr>
                    | (None, w) \<Rightarrow> untrack gangKey (st\<lparr>rr_world := w\<rparr>))))"

section \<open>Cleanup\<close>

definition isGangCompleteOrExpired :: "pod_lister \<Rightarrow> string \<Rightarrow> string \<Rightarrow> bool" where
  "isGangCompleteOrExpired lister namespace podGroupName \<longleftrightarrow>
     (case pl_ns_list lister namespace None of
        Inl _ \<Rightarrow> False
      | Inr pods \<Rightarrow>
         (let gangPodCount = count_if (in_group podGroupName) pods;
              runningCount = count_if (\<lambda>p. in_group podGroupName p \<and> p_phase p = PodRunning \<and> p_node p \<noteq> '''') pods
          in gangPodCount = 0 \<or> runningCount = gangPodCount))"

text \<open>The loop over the listed objects; a gang that is still active ends it.\<close>

fun cleanup_items ::
  "'w reservation_api \<Rightarrow> pod_lister \<Rightarrow> time \<Rightarrow> string \<Rightarrow> string \<Rightarrow> string \<Rightarrow> resource_reservation list
     \<Rightarrow> 'w rr_state \<Rightarrow> 'w rr_state" where
  "cleanup_items api lister now gangKey namespace podGroupName [] st = st"
| "cleanup_items api lister now gangKey namespace podGroupName (res # items) st =
     (if of_group podGroupName res \<and> time_sub now (rv_created res) > reservationTTL
      then if \<not> isGangCompleteOrExpired lister namespace podGroupName then st
           else (case finalize_delete api namespace res (rr_world st) of
                   (Some _, w) \<Rightarrow> cleanup_items api lister now gangKey namespace podGroupName items (st\<lparr>rr_world := w\<rparr>)
                 | (None, w) \<Rightarrow> cleanup_items api lister now gangKey namespace podGroupName items (untrack gangKey (st\<lparr>rr_world := w\<rparr>)))
      else cleanup_items api lister now gangKey namespace podGroupName items st)"

definition cleanup_gang :: "'w reservation_api \<Rightarrow> pod_lister \<Rightarrow> time \<Rightarrow> string \<Rightarrow> 'w rr_state \<Rightarrow> 'w rr_state" where
  "cleanup_gang api lister now gangKey st =
     (case split_on (CHR ''/'') gangKey of
        [namespace, podGroupName] \<Rightarrow>
          (case api_list api namespace (rr_world st) of
             (Inl _, w) \<Rightarrow> st\<lparr>rr_world := w\<rparr>
           | (Inr items, w) \<Rightarrow> cleanup_items api lister now gangKey namespace podGroupName items (st\<lparr>rr_world := w\<rparr>))
      | _ \<Rightarrow> st)"

text \<open>The \<^verbatim>\<open>Range\<close> over the tracked gangs; the clock is read once for each.\<close>

definition cleanupExpiredReservations ::
  "'w reservation_api \<Rightarrow> pod_lister \<Rightarrow> (string \<Rightarrow> time) \<Rightarrow> 'w rr_state \<Rightarrow> 'w rr_state" where
  "cleanupExpiredReservations api lister clock st =
     foldl (\<lambda>s k. cleanup_gang api lister (clock k) k s) st (tracked_gangs st)"

section \<open>Legacy constructor\<close>

text \<open>The parsed defaults of one core and 750M are parameters.\<close>

definition newResourceReservation :: "quantity \<Rightarrow> quantity \<Rightarrow> string \<Rightarrow> pod \<Rightarrow> resource_reservation" where
  "newResourceReservation default_cpu default_mem driverNode driver =
     (let cpu = (case p_containers driver of [] \<Rightarrow> default_cpu
                 | container # _ \<Rightarrow> (case lookup (c_requests container) ''cpu'' of None \<Rightarrow> default_cpu | Some c \<Rightarrow> c));
          mem = (case p_containers driver of [] \<Rightarrow> default_mem
                 | container # _ \<Rightarrow> (case lookup (c_requests container) ''memory'' of None \<Rightarrow> default_mem | Some m \<Rightarrow> m));
          appID = (case lookup (p_labels driver) AppIDLabel of Some i \<Rightarrow> i | None \<Rightarrow> p_name driver)
      in \<lparr>rv_name = appID, rv_ns = p_ns driver, rv_labels = Some [(AppIDLabel, appID)], rv_finalizers = [],
          rv_owner = Some (p_name driver), rv_created = 0, rv_deleting = False,
          rv_reservations = [(p_name driver, \<lparr>rs_node = driverNode, rs_cpu = cpu, rs_memory = mem, rs_gpu = zero_quantity\<rparr>)],
          rv_pods = [(''driver'', p_name driver)]\<rparr>)"

section \<open>The semantics of the API server\<close>

definition same_id :: "resource_reservation \<Rightarrow> resource_reservation \<Rightarrow> bool" where
  "same_id x y \<longleftrightarrow> rv_ns x = rv_ns y \<and> rv_name x = rv_name y"

definition rv_id :: "resource_reservation \<Rightarrow> string \<times> string" where
  "rv_id x = (rv_ns x, rv_name x)"

lemma same_id_iff: "same_id x y \<longleftrightarrow> rv_id x = rv_id y"
  by (simp add: same_id_def rv_id_def)

lemma same_id_refl [simp]: "same_id x x"
  by (simp add: same_id_def)

lemma id_unique: "distinct (map rv_id os) \<Longrightarrow> x \<in> set os \<Longrightarrow> y \<in> set os \<Longrightarrow> same_id x y \<Longrightarrow> x = y"
  by (auto simp: same_id_iff distinct_map inj_on_def)

text \<open>
  An update replaces the object of the same name, and removes it when it is being deleted and has no
  finalizer left.  A deletion removes an object without finalizers and marks one with finalizers.
\<close>

definition apply_update :: "resource_reservation \<Rightarrow> resource_reservation list \<Rightarrow> resource_reservation list" where
  "apply_update o' os =
     (if rv_deleting o' \<and> rv_finalizers o' = [] then filter (\<lambda>x. \<not> same_id x o') os
      else map (\<lambda>x. if same_id x o' then o' else x) os)"

definition apply_delete :: "string \<Rightarrow> string \<Rightarrow> resource_reservation list \<Rightarrow> resource_reservation list" where
  "apply_delete ns name os =
     map (\<lambda>x. if rv_ns x = ns \<and> rv_name x = name then x\<lparr>rv_deleting := True\<rparr> else x)
       (filter (\<lambda>x. \<not> (rv_ns x = ns \<and> rv_name x = name \<and> rv_finalizers x = [])) os)"

text \<open>Both operations concern one name only and keep the names distinct.\<close>

lemma apply_update_others: "filter (\<lambda>x. rv_id x \<noteq> rv_id o') (apply_update o' os) = filter (\<lambda>x. rv_id x \<noteq> rv_id o') os"
proof -
  have "filter (\<lambda>x. rv_id x \<noteq> rv_id o') (map (\<lambda>x. if same_id x o' then o' else x) os) = filter (\<lambda>x. rv_id x \<noteq> rv_id o') os"
    by (induction os) (auto simp: same_id_iff)
  then show ?thesis by (simp add: apply_update_def same_id_iff)
qed

lemma apply_update_same: "x \<in> set (apply_update o' os) \<Longrightarrow> rv_id x = rv_id o' \<Longrightarrow> x = o'"
  by (auto simp: apply_update_def same_id_iff split: if_splits)

lemma apply_update_distinct: "distinct (map rv_id os) \<Longrightarrow> distinct (map rv_id (apply_update o' os))"
proof -
  have "map rv_id (map (\<lambda>x. if same_id x o' then o' else x) os) = map rv_id os"
    by (auto simp: same_id_iff)
  then show "distinct (map rv_id os) \<Longrightarrow> distinct (map rv_id (apply_update o' os))"
    by (simp add: apply_update_def distinct_map_filter del: map_map)
qed

lemma apply_delete_others: "filter (\<lambda>x. rv_id x \<noteq> (ns, n)) (apply_delete ns n os) = filter (\<lambda>x. rv_id x \<noteq> (ns, n)) os"
  by (induction os) (auto simp: apply_delete_def rv_id_def)

lemma apply_delete_distinct: "distinct (map rv_id os) \<Longrightarrow> distinct (map rv_id (apply_delete ns n os))"
proof -
  define ys where "ys = filter (\<lambda>x. \<not> (rv_ns x = ns \<and> rv_name x = n \<and> rv_finalizers x = [])) os"
  assume "distinct (map rv_id os)"
  then have "distinct (map rv_id ys)" unfolding ys_def by (rule distinct_map_filter)
  moreover have "map rv_id (apply_delete ns n os) = map rv_id ys"
    unfolding apply_delete_def ys_def [symmetric] by (auto simp: rv_id_def)
  ultimately show ?thesis by simp
qed

lemma apply_delete_no_finalizers:
  "(\<And>x. x \<in> set os \<Longrightarrow> rv_id x = (ns, n) \<Longrightarrow> rv_finalizers x = []) \<Longrightarrow>
   apply_delete ns n os = filter (\<lambda>x. rv_id x \<noteq> (ns, n)) os"
  by (induction os) (auto simp: apply_delete_def rv_id_def)

lemma removeFinalizer_eq: "removeFinalizer fs f = filter (\<lambda>g. g \<noteq> f) fs"
  by (induction fs) auto

lemma hasFinalizer_iff: "hasFinalizer fs f \<longleftrightarrow> f \<in> set fs"
  by (induction fs) auto

text \<open>What the cleanup leaves alone: an object for which one of its tests fails.\<close>

definition expired :: "pod_lister \<Rightarrow> time \<Rightarrow> resource_reservation \<Rightarrow> bool" where
  "expired lister now x \<longleftrightarrow> now - rv_created x > reservationTTL \<and>
     (\<exists>g. of_group g x \<and> isGangCompleteOrExpired lister (rv_ns x) g)"

locale reservation_server =
  fixes api :: "'w reservation_api" and objs :: "'w \<Rightarrow> resource_reservation list"
  assumes list_objs: "\<exists>w'. api_list api ns w = (Inr (filter (\<lambda>x. rv_ns x = ns) (objs w)), w') \<and> objs w' = objs w"
    and create_objs: "\<forall>x \<in> set (objs w). \<not> same_id x res \<Longrightarrow>
      \<exists>t w'. api_create api res w = (Inr (res\<lparr>rv_created := t\<rparr>), w') \<and> objs w' = res\<lparr>rv_created := t\<rparr> # objs w"
    and create_exists: "x \<in> set (objs w) \<Longrightarrow> same_id x res \<Longrightarrow>
      \<exists>err w'. api_create api res w = (Inl err, w') \<and> contains err ''already exists'' \<and> objs w' = objs w"
    and get_objs: "x \<in> set (objs w) \<Longrightarrow> distinct (map rv_id (objs w)) \<Longrightarrow>
      \<exists>w'. api_get api (rv_ns x) (rv_name x) w = (Inr x, w') \<and> objs w' = objs w"
    and update_objs: "\<exists>x \<in> set (objs w). same_id x res \<Longrightarrow> objs (snd (api_update api res w)) = apply_update res (objs w)"
    and delete_objs: "objs (snd (api_delete api ns name w)) = apply_delete ns name (objs w)"
begin

lemma finalize_delete_objs:
  assumes "res \<in> set (objs w)" "distinct (map rv_id (objs w))" "rv_ns res = ns"
  shows "filter (\<lambda>x. \<not> same_id x res) (objs (snd (finalize_delete api ns res w))) = filter (\<lambda>x. \<not> same_id x res) (objs w)"
    and "set (rv_finalizers res) \<subseteq> {reservationFinalizer} \<Longrightarrow>
      objs (snd (finalize_delete api ns res w)) = filter (\<lambda>x. \<not> same_id x res) (objs w)"
    and "distinct (map rv_id (objs (snd (finalize_delete api ns res w))))"
proof -
  define r' where "r' = res\<lparr>rv_finalizers := removeFinalizer (rv_finalizers res) reservationFinalizer\<rparr>"
  define w1 where "w1 = (if hasFinalizer (rv_finalizers res) reservationFinalizer then snd (api_update api r' w) else w)"
  have id': "rv_id r' = rv_id res" "rv_id res = (ns, rv_name res)" using assms(3) by (simp_all add: r'_def rv_id_def)
  have eq: "x = res" if "x \<in> set (objs w)" "rv_id x = rv_id res" for x
    using assms(1,2) that by (auto simp: distinct_map inj_on_def)
  have w1: "objs w1 = (if hasFinalizer (rv_finalizers res) reservationFinalizer then apply_update r' (objs w) else objs w)"
    using assms(1) id' by (auto simp: w1_def same_id_iff intro!: update_objs)
  have fd: "objs (snd (finalize_delete api ns res w)) = apply_delete ns (rv_name res) (objs w1)"
    by (simp add: finalize_delete_def Let_def delete_objs w1_def r'_def)
  have f1: "filter (\<lambda>x. rv_id x \<noteq> rv_id res) (objs w1) = filter (\<lambda>x. rv_id x \<noteq> rv_id res) (objs w)"
    using apply_update_others [of r' "objs w"] id'(1) by (simp add: w1)
  show "filter (\<lambda>x. \<not> same_id x res) (objs (snd (finalize_delete api ns res w))) = filter (\<lambda>x. \<not> same_id x res) (objs w)"
    using apply_delete_others [of ns "rv_name res" "objs w1"] f1 by (simp add: same_id_iff id'(2) fd)
  show "distinct (map rv_id (objs (snd (finalize_delete api ns res w))))"
    unfolding fd w1 using assms(2) by (auto intro: apply_delete_distinct apply_update_distinct)
  show "objs (snd (finalize_delete api ns res w)) = filter (\<lambda>x. \<not> same_id x res) (objs w)"
    if "set (rv_finalizers res) \<subseteq> {reservationFinalizer}"
  proof -
    have "rv_finalizers x = []" if x: "x \<in> set (objs w1)" "rv_id x = (ns, rv_name res)" for x
    proof (cases "hasFinalizer (rv_finalizers res) reservationFinalizer")
      case True
      with x apply_update_same [of x r' "objs w"] id' have "x = r'" by (simp add: w1)
      then show ?thesis using \<open>set (rv_finalizers res) \<subseteq> _\<close> by (auto simp: r'_def removeFinalizer_eq filter_empty_conv)
    next
      case False
      with x eq [of x] id' have "x = res" by (simp add: w1)
      with False \<open>set (rv_finalizers res) \<subseteq> _\<close> show ?thesis
        by (cases "rv_finalizers res") (auto simp: hasFinalizer_iff)
    qed
    from apply_delete_no_finalizers [OF this] show ?thesis
      unfolding fd using f1 by (simp add: same_id_iff id'(2))
  qed
qed

lemma delete_items_objs:
  assumes "distinct (map rv_id (objs w))" "distinct (map rv_id items)" "set items \<subseteq> set (objs w)"
    and "\<forall>r \<in> set items. rv_ns r = ns" "\<forall>r \<in> set items. of_group g r \<longrightarrow> set (rv_finalizers r) \<subseteq> {reservationFinalizer}"
  shows "objs (delete_items api ns g items w) =
    filter (\<lambda>x. \<not> (\<exists>r \<in> set items. of_group g r \<and> same_id x r)) (objs w)"
  using assms
proof (induction items arbitrary: w)
  case (Cons res items)
  show ?case
  proof (cases "of_group g res")
    case True
    define w1 where "w1 = snd (finalize_delete api ns res w)"
    have res: "res \<in> set (objs w)" "rv_ns res = ns" "set (rv_finalizers res) \<subseteq> {reservationFinalizer}"
      using Cons.prems True by auto
    note fd = finalize_delete_objs [OF res(1) Cons.prems(1) res(2), folded w1_def]
    have "set items \<subseteq> set (objs w1)"
      unfolding fd(2) [OF res(3)] using Cons.prems(2,3) by (auto simp: same_id_iff image_iff)
    then have "objs (delete_items api ns g items w1) = filter (\<lambda>x. \<not> (\<exists>r \<in> set items. of_group g r \<and> same_id x r)) (objs w1)"
      using Cons.prems fd(3) by (intro Cons.IH) auto
    moreover have "delete_items api ns g (res # items) w = delete_items api ns g items w1"
      using True by (simp add: w1_def)
    ultimately have "objs (delete_items api ns g (res # items) w) =
        filter (\<lambda>x. \<not> same_id x res \<and> \<not> (\<exists>r \<in> set items. of_group g r \<and> same_id x r)) (objs w)"
      unfolding fd(2) [OF res(3)] filter_filter by simp
    also have "\<dots> = filter (\<lambda>x. \<not> (\<exists>r \<in> set (res # items). of_group g r \<and> same_id x r)) (objs w)"
      by (rule filter_cong) (use True in auto)
    finally show ?thesis .
  next
    case False
    with Cons show ?thesis by auto
  qed
qed simp

text \<open>Without failures the deletion of a gang's reservations removes exactly those.\<close>

lemma deleteGangReservations_objs:
  assumes "distinct (map rv_id (objs w))" "CHR ''/'' \<notin> set ns" "CHR ''/'' \<notin> set g"
    and "\<forall>x \<in> set (objs w). rv_ns x = ns \<and> of_group g x \<longrightarrow> set (rv_finalizers x) \<subseteq> {reservationFinalizer}"
  shows "\<exists>w'. deleteGangReservations api ns (GetPodGroupKey ns g) w = (None, w') \<and>
    objs w' = filter (\<lambda>x. \<not> (rv_ns x = ns \<and> of_group g x)) (objs w)"
proof -
  define items where "items = filter (\<lambda>x. rv_ns x = ns) (objs w)"
  obtain w1 where w1: "api_list api ns w = (Inr items, w1)" "objs w1 = objs w"
    using list_objs [of ns w] by (auto simp: items_def)
  have "objs (delete_items api ns g items w1) = filter (\<lambda>x. \<not> (\<exists>r \<in> set items. of_group g r \<and> same_id x r)) (objs w1)"
    by (rule delete_items_objs) (use assms(1,4) in \<open>simp_all add: w1(2) items_def distinct_map_filter\<close>)
  also have "\<dots> = filter (\<lambda>x. \<not> (\<exists>r \<in> set items. of_group g r \<and> same_id x r)) (objs w)"
    by (simp only: w1(2))
  also have "\<dots> = filter (\<lambda>x. \<not> (rv_ns x = ns \<and> of_group g x)) (objs w)"
  proof (rule filter_cong [OF refl])
    fix x assume x: "x \<in> set (objs w)"
    have "(\<exists>r \<in> set items. of_group g r \<and> same_id x r) \<longleftrightarrow> rv_ns x = ns \<and> of_group g x"
      using x id_unique [OF assms(1) x] by (auto simp: items_def intro!: bexI [of _ x])
    then show "(\<not> (\<exists>r \<in> set items. of_group g r \<and> same_id x r)) = (\<not> (rv_ns x = ns \<and> of_group g x))" by simp
  qed
  finally show ?thesis
    using w1 GetPodGroupKey_split [OF assms(2,3)] by (simp add: deleteGangReservations_def)
qed

lemma cleanup_items_keeps:
  assumes "distinct (map rv_id (objs (rr_world st)))" "distinct (map rv_id items)"
    and "\<forall>r \<in> set items. r \<in> set (objs (rr_world st)) \<and> rv_ns r = ns"
    and "x \<in> set (objs (rr_world st))" "\<not> expired lister now x"
  shows "x \<in> set (objs (rr_world (cleanup_items api lister now k ns g items st))) \<and>
    distinct (map rv_id (objs (rr_world (cleanup_items api lister now k ns g items st))))"
  using assms
proof (induction items arbitrary: st)
  case (Cons res items)
  show ?case
  proof (cases "of_group g res \<and> time_sub now (rv_created res) > reservationTTL \<and> isGangCompleteOrExpired lister ns g")
    case True
    obtain e w1 where w1: "finalize_delete api ns res (rr_world st) = (e, w1)"
      by (cases "finalize_delete api ns res (rr_world st)")
    have r: "res \<in> set (objs (rr_world st))" "rv_ns res = ns" using Cons.prems by auto
    note fd = finalize_delete_objs [OF r(1) Cons.prems(1) r(2), unfolded w1 snd_conv]
    have "expired lister now res"
      using True r(2) by (auto simp: expired_def time_sub_gt_iff reservationTTL_def seconds_def)
    then have nx: "\<not> same_id x res"
      using Cons.prems(1,4,5) r(1) by (auto simp: same_id_iff distinct_map inj_on_def)
    have keep: "y \<in> set (objs w1)" if "y \<in> set (objs (rr_world st))" "\<not> same_id y res" for y
    proof -
      have "y \<in> set (filter (\<lambda>x. \<not> same_id x res) (objs w1))" unfolding fd(1) using that by simp
      then show ?thesis by simp
    qed
    have it: "\<forall>y \<in> set items. y \<in> set (objs w1) \<and> rv_ns y = ns"
      using Cons.prems(2,3) keep by (auto simp: same_id_iff image_iff)
    have d: "distinct (map rv_id items)" using Cons.prems(2) by simp
    have step: "cleanup_items api lister now k ns g (res # items) st =
      cleanup_items api lister now k ns g items (case e of None \<Rightarrow> untrack k (st\<lparr>rr_world := w1\<rparr>) | Some _ \<Rightarrow> st\<lparr>rr_world := w1\<rparr>)"
      using True w1 by (auto split: option.splits)
    show ?thesis unfolding step
      by (rule Cons.IH) (use fd(3) d it keep [OF Cons.prems(4) nx] Cons.prems(5) in \<open>auto simp: untrack_def split: option.splits\<close>)
  next
    case False
    with Cons show ?thesis by auto
  qed
qed simp

lemma cleanup_gang_keeps:
  assumes "distinct (map rv_id (objs (rr_world st)))"
    and "x \<in> set (objs (rr_world st))" "\<not> expired lister now x"
  shows "x \<in> set (objs (rr_world (cleanup_gang api lister now k st))) \<and>
    distinct (map rv_id (objs (rr_world (cleanup_gang api lister now k st))))"
proof (cases "\<exists>ns g. split_on (CHR ''/'') k = [ns, g]")
  case True
  then obtain ns g where k: "split_on (CHR ''/'') k = [ns, g]" by blast
  define items where "items = filter (\<lambda>x. rv_ns x = ns) (objs (rr_world st))"
  obtain w1 where w1: "api_list api ns (rr_world st) = (Inr items, w1)" "objs w1 = objs (rr_world st)"
    using list_objs [of ns "rr_world st"] by (auto simp: items_def)
  have "x \<in> set (objs (rr_world (cleanup_items api lister now k ns g items (st\<lparr>rr_world := w1\<rparr>)))) \<and>
    distinct (map rv_id (objs (rr_world (cleanup_items api lister now k ns g items (st\<lparr>rr_world := w1\<rparr>)))))"
    by (rule cleanup_items_keeps) (use assms in \<open>simp_all add: w1(2) items_def distinct_map_filter\<close>)
  then show ?thesis by (simp add: cleanup_gang_def k w1)
next
  case False
  then have "cleanup_gang api lister now k st = st" by (auto simp: cleanup_gang_def split: list.splits)
  with assms show ?thesis by simp
qed

lemma cleanup_keeps:
  assumes "distinct (map rv_id (objs (rr_world st)))"
    and "x \<in> set (objs (rr_world st))" "\<forall>k. \<not> expired lister (clock k) x"
  shows "x \<in> set (objs (rr_world (cleanupExpiredReservations api lister clock st)))"
proof -
  have "x \<in> set (objs (rr_world (foldl (\<lambda>s k. cleanup_gang api lister (clock k) k s) s ks)))"
    if "distinct (map rv_id (objs (rr_world s)))" "x \<in> set (objs (rr_world s))" for ks s
    using that by (induction ks arbitrary: s) (simp_all add: assms(3) cleanup_gang_keeps)
  with assms show ?thesis by (simp add: cleanupExpiredReservations_def)
qed

end

text \<open>The server over an in-memory store, with a clock for the creation time.\<close>

record mem_world =
  mw_now :: time
  mw_objs :: "resource_reservation list"

definition mem_api :: "mem_world reservation_api" where
  "mem_api = \<lparr>
     api_create = (\<lambda>o' w. if list_ex (\<lambda>x. same_id x o') (mw_objs w)
                          then (Inl (rv_name o' @ '' already exists''), w)
                          else (Inr (o'\<lparr>rv_created := mw_now w\<rparr>), w\<lparr>mw_objs := o'\<lparr>rv_created := mw_now w\<rparr> # mw_objs w\<rparr>)),
     api_get = (\<lambda>ns n w. (case filter (\<lambda>x. rv_ns x = ns \<and> rv_name x = n) (mw_objs w) of
                            [] \<Rightarrow> Inl ''not found'' | x # _ \<Rightarrow> Inr x, w)),
     api_list = (\<lambda>ns w. (Inr (filter (\<lambda>x. rv_ns x = ns) (mw_objs w)), w)),
     api_update = (\<lambda>o' w. if list_ex (\<lambda>x. same_id x o') (mw_objs w)
                          then (None, w\<lparr>mw_objs := apply_update o' (mw_objs w)\<rparr>) else (Some ''not found'', w)),
     api_delete = (\<lambda>ns n w. if list_ex (\<lambda>x. rv_ns x = ns \<and> rv_name x = n) (mw_objs w)
                            then (None, w\<lparr>mw_objs := apply_delete ns n (mw_objs w)\<rparr>) else (Some ''not found'', w))\<rparr>"

lemma contains_append_right: "contains (s @ t) t"
  by (simp add: contains_def)

lemma apply_delete_absent: "\<not> list_ex (\<lambda>x. rv_ns x = ns \<and> rv_name x = n) os \<Longrightarrow> apply_delete ns n os = os"
  by (induction os) (auto simp: apply_delete_def)

lemma filter_id_single:
  "distinct (map rv_id os) \<Longrightarrow> x \<in> set os \<Longrightarrow> filter (\<lambda>y. rv_ns y = rv_ns x \<and> rv_name y = rv_name x) os = [x]"
  by (induction os) (auto simp: rv_id_def image_iff filter_empty_conv)

interpretation mem_server: reservation_server mem_api mw_objs
proof unfold_locales
  fix w :: mem_world and x res ns n
  show "\<exists>w'. api_list mem_api ns w = (Inr (filter (\<lambda>x. rv_ns x = ns) (mw_objs w)), w') \<and> mw_objs w' = mw_objs w"
    by (simp add: mem_api_def)
  show "\<exists>t w'. api_create mem_api res w = (Inr (res\<lparr>rv_created := t\<rparr>), w') \<and> mw_objs w' = res\<lparr>rv_created := t\<rparr> # mw_objs w"
    if "\<forall>x \<in> set (mw_objs w). \<not> same_id x res"
    using that by (intro exI [of _ "mw_now w"]) (simp add: mem_api_def list_ex_iff)
  show "\<exists>err w'. api_create mem_api res w = (Inl err, w') \<and> contains err ''already exists'' \<and> mw_objs w' = mw_objs w"
    if "x \<in> set (mw_objs w)" "same_id x res"
    using that contains_append_right [of "rv_name res @ '' ''" "''already exists''"]
    by (auto simp: mem_api_def list_ex_iff)
  show "\<exists>w'. api_get mem_api (rv_ns x) (rv_name x) w = (Inr x, w') \<and> mw_objs w' = mw_objs w"
    if "x \<in> set (mw_objs w)" "distinct (map rv_id (mw_objs w))"
    using that by (simp add: mem_api_def filter_id_single)
  show "mw_objs (snd (api_update mem_api res w)) = apply_update res (mw_objs w)"
    if "\<exists>x \<in> set (mw_objs w). same_id x res"
    using that by (auto simp: mem_api_def list_ex_iff)
  show "mw_objs (snd (api_delete mem_api ns n w)) = apply_delete ns n (mw_objs w)"
    by (simp add: mem_api_def apply_delete_absent)
qed

section \<open>Properties\<close>

lemma isGangMember_labels:
  assumes "pg_labels p = Inr (g, m)" "m \<ge> 2"
  shows "isGangMember p \<and> g \<noteq> ''''"
proof -
  have "g \<noteq> ''''" using GetPodGroupLabels_Inr [OF assms(1)] assms(2) first_nonemptyD by fastforce
  with assms show ?thesis by (simp add: isGangMember_def)
qed

lemma add_members_lookup:
  "lookup (add_members g r n i m) k =
     (if \<exists>j. i \<le> j \<and> j < i + int n \<and> k = g @ ''-member-'' @ itoa j then Some r else lookup m k)"
proof (induction n arbitrary: i m)
  case (Suc n)
  have "(\<exists>j. i \<le> j \<and> j < i + int (Suc n) \<and> k = g @ ''-member-'' @ itoa j) \<longleftrightarrow>
    k = g @ ''-member-'' @ itoa i \<or> (\<exists>j. i + 1 \<le> j \<and> j < i + 1 + int n \<and> k = g @ ''-member-'' @ itoa j)"
    (is "?L \<longleftrightarrow> ?R")
  proof
    assume ?L
    then obtain j where "i \<le> j" "j < i + int (Suc n)" "k = g @ ''-member-'' @ itoa j" by blast
    then show ?R by (cases "j = i") (auto intro!: exI [of _ j])
  next
    assume ?R
    then consider "k = g @ ''-member-'' @ itoa i" | j where "i + 1 \<le> j" "j < i + 1 + int n" "k = g @ ''-member-'' @ itoa j"
      by blast
    then show ?L
    proof cases
      case 1 then show ?thesis by (intro exI [of _ i]) simp
    next
      case 2 then show ?thesis by (intro exI [of _ j]) simp
    qed
  qed
  then show ?case by (auto simp: Suc.IH update_conv')
qed auto

lemma add_members_length:
  assumes "\<forall>j. i \<le> j \<and> j < i + int n \<longrightarrow> g @ ''-member-'' @ itoa j \<notin> fst ` set m" "i64 i" "i64 (i + int n)"
  shows "length (add_members g r n i m) = n + length m"
  using assms
proof (induction n arbitrary: i m)
  case (Suc n)
  have new: "g @ ''-member-'' @ itoa i \<notin> fst ` set m" using Suc.prems(1) by simp
  then have len: "length (AList.update (g @ ''-member-'' @ itoa i) r m) = Suc (length m)"
    by (induction m) auto
  have inj: "itoa j \<noteq> itoa i" if "i + 1 \<le> j" "j < i + 1 + int n" for j
  proof -
    have "i64 j" using that Suc.prems(2,3) by (auto simp: i64_def)
    then show ?thesis using that atoi_itoa [of i] atoi_itoa [of j] Suc.prems(2) by (metis Inr_inject add_le_same_cancel1 not_one_le_zero)
  qed
  have "length (add_members g r n (i + 1) (AList.update (g @ ''-member-'' @ itoa i) r m)) =
      n + length (AList.update (g @ ''-member-'' @ itoa i) r m)"
    using Suc.prems inj by (intro Suc.IH) (auto simp: dom_update i64_def)
  with len show ?case by simp
qed simp

text \<open>The reservation of a gang has exactly the minimum number of entries, one for each index below
  it under the gang's name, none bound to a node, all with the requests of the pod's first
  container; the requests of its other containers are not reserved.\<close>

theorem gang_reservation_entries:
  assumes "0 \<le> m" "i64 m"
  shows "int (length (rv_reservations (gang_reservation p g m))) = m \<and>
    (\<forall>k. lookup (rv_reservations (gang_reservation p g m)) k =
      (if \<exists>j. 0 \<le> j \<and> j < m \<and> k = g @ ''-member-'' @ itoa j
       then Some \<lparr>rs_node = '''', rs_cpu = first_request ''cpu'' p, rs_memory = first_request ''memory'' p,
              rs_gpu = first_request gpu_resource p\<rparr>
       else None))"
proof -
  have "i64 0" "i64 (0 + int (nat m))" using assms by (simp_all add: i64_def)
  from add_members_length [OF _ this, where m = "[]"] add_members_lookup [where i = 0 and n = "nat m" and m = "[]"] assms(1)
  show ?thesis by (auto simp: gang_reservation_def)
qed

definition ex_gpu :: "int \<Rightarrow> container" where
  "ex_gpu n = \<lparr>c_image = ''i'', c_requests = [(gpu_resource, \<lparr>q_milli = n * 1000, q_value = n, q_is_zero = False\<rparr>)], c_limits = []\<rparr>"

definition ex_rpod :: pod where
  "ex_rpod = ex_gang_pod \<lparr>p_containers := [ex_gpu 8, ex_gpu 4]\<rparr>"

lemma gang_reservation_entries_witness:
  "length (rv_reservations (gang_reservation ex_rpod ''w'' 3)) = 3 \<and>
   q_value (first_request gpu_resource ex_rpod) = 8"
proof -
  have "i64 3" by (simp add: i64_def)
  then have "int (length (rv_reservations (gang_reservation ex_rpod ''w'' 3))) = 3"
    using gang_reservation_entries [of 3 ex_rpod "''w''"] by simp
  moreover have "q_value (first_request gpu_resource ex_rpod) = 8" by code_simp
  ultimately show ?thesis by simp
qed

text \<open>One reservation per gang: a PreFilter that succeeds for the first pod of a gang leaves the gang
  tracked, after which PreFilter of any member of it succeeds and does nothing; one that fails
  leaves the set of tracked gangs as it was, so the next member tries again.\<close>

theorem reservation_PreFilter_once:
  assumes "pg_labels p = Inr (g, m)" "m \<ge> 2" "GetPodGroupKey (p_ns p) g \<notin> set (tracked_gangs st)"
    and "reservation_PreFilter api cs p st = (s, cs', st')"
    and "pg_labels q = Inr (g, m')" "m' \<ge> 2" "p_ns q = p_ns p"
  shows "if st_code s = Success
    then tracked_gangs st' = GetPodGroupKey (p_ns p) g # tracked_gangs st \<and>
      reservation_PreFilter api cs2 q st' = (success, cs2, st')
    else st_code s = Error \<and> tracked_gangs st' = tracked_gangs st"
proof -
  have g: "isGangMember p" "g \<noteq> ''''" "isGangMember q"
    using isGangMember_labels [OF assms(1,2)] isGangMember_labels [OF assms(5,6)] by simp_all
  have "filter (\<lambda>k. k \<noteq> GetPodGroupKey (p_ns p) g) (tracked_gangs st) = tracked_gangs st"
    using assms(3) by (intro filter_True) auto
  then show ?thesis
    using assms g by (auto simp: reservation_PreFilter_def GetPodGroupKey_def untrack_def Let_def split: sum.splits prod.splits)
qed

definition ex_world :: mem_world where
  "ex_world = \<lparr>mw_now = seconds 5, mw_objs = []\<rparr>"

definition ex_rr :: "mem_world rr_state" where
  "ex_rr = \<lparr>tracked_gangs = [], rr_world = ex_world\<rparr>"

lemma ex_rpod_labels: "pg_labels ex_rpod = Inr (''w'', 3)"
  by code_simp

lemma reservation_PreFilter_once_witness:
  "reservation_PreFilter mem_api Map.empty ex_rpod (snd (snd (reservation_PreFilter mem_api Map.empty ex_rpod ex_rr))) =
     (success, Map.empty, snd (snd (reservation_PreFilter mem_api Map.empty ex_rpod ex_rr)))"
proof -
  obtain s cs' st' where r: "reservation_PreFilter mem_api Map.empty ex_rpod ex_rr = (s, cs', st')"
    by (cases "reservation_PreFilter mem_api Map.empty ex_rpod ex_rr")
  have "st_code (fst (reservation_PreFilter mem_api Map.empty ex_rpod ex_rr)) = Success" by code_simp
  moreover have "GetPodGroupKey (p_ns ex_rpod) ''w'' \<notin> set (tracked_gangs ex_rr)" by (simp add: ex_rr_def)
  ultimately show ?thesis
    using reservation_PreFilter_once [OF ex_rpod_labels _ _ r ex_rpod_labels, of Map.empty] by (simp add: r)
qed

text \<open>Reservations do not filter: whatever is reserved on a node by other gangs, Filter succeeds, and
  so does it when the reservations cannot be read.\<close>

theorem reservation_Filter_never_rejects:
  "fst (fst (reservation_Filter api add p nodeName st)) = success \<and>
   tracked_gangs (snd (reservation_Filter api add p nodeName st)) = tracked_gangs st"
  by (simp add: reservation_Filter_def Let_def split_beta split: sum.split prod.split)

text \<open>C20: On every server that keeps the laws of \<^verbatim>\<open>reservation_server\<close> (no call fails and a list, a
  creation, an update and a deletion do what they say), the binding of the pod that completes a gang of at
  least two deletes every reservation of the gang, finalizer first, leaves all others as they were, and untracks
  the gang.  It is assumed that no reservation of the gang carries a finalizer other than the plugin's, that
  no two objects share a namespace and a name, and that neither the namespace nor the name of the gang
  has a slash, which Kubernetes does not admit there.\<close>

theorem PostBind_cleans_up:
  assumes "pg_labels p = Inr (g, m)" "m \<ge> 2" "isGangComplete lister p g m"
    and "CHR ''/'' \<notin> set (p_ns p)" "CHR ''/'' \<notin> set g"
    and "distinct (map rv_id (objs (rr_world st)))"
    and "\<forall>x \<in> set (objs (rr_world st)). rv_ns x = p_ns p \<and> of_group g x \<longrightarrow> set (rv_finalizers x) \<subseteq> {reservationFinalizer}"
    and "reservation_server api objs"
  shows "objs (rr_world (PostBind api lister p st)) =
      filter (\<lambda>x. \<not> (rv_ns x = p_ns p \<and> of_group g x)) (objs (rr_world st)) \<and>
    tracked_gangs (PostBind api lister p st) =
      filter (\<lambda>k. k \<noteq> GetPodGroupKey (p_ns p) g) (tracked_gangs st)"
proof -
  obtain w' where "deleteGangReservations api (p_ns p) (GetPodGroupKey (p_ns p) g) (rr_world st) = (None, w')"
    "objs w' = filter (\<lambda>x. \<not> (rv_ns x = p_ns p \<and> of_group g x)) (objs (rr_world st))"
    using reservation_server.deleteGangReservations_objs [OF assms(8) assms(6,4,5,7)] by blast
  with assms isGangMember_labels [OF assms(1,2)] show ?thesis
    by (simp add: PostBind_def untrack_def GetPodGroupKey_def Let_def)
qed

definition ex_bound :: "pod list" where
  "ex_bound = replicate 3 (ex_rpod \<lparr>p_node := ''n1'', p_phase := PodRunning\<rparr>)"

definition ex_rr1 :: "mem_world rr_state" where
  "ex_rr1 = snd (snd (reservation_PreFilter mem_api Map.empty ex_rpod ex_rr))"

lemma PostBind_cleans_up_witness:
  "mw_objs (rr_world (PostBind mem_api (cache_lister ex_bound) ex_rpod ex_rr1)) = [] \<and>
   mw_objs (rr_world ex_rr1) \<noteq> []"
proof -
  have "isGangComplete (cache_lister ex_bound) ex_rpod ''w'' 3" "CHR ''/'' \<notin> set (p_ns ex_rpod)" "CHR ''/'' \<notin> set ''w''"
    "distinct (map rv_id (mw_objs (rr_world ex_rr1)))"
    "\<forall>x \<in> set (mw_objs (rr_world ex_rr1)). rv_ns x = p_ns ex_rpod \<and> of_group ''w'' x \<longrightarrow> set (rv_finalizers x) \<subseteq> {reservationFinalizer}"
    "filter (\<lambda>x. \<not> (rv_ns x = p_ns ex_rpod \<and> of_group ''w'' x)) (mw_objs (rr_world ex_rr1)) = []"
    "mw_objs (rr_world ex_rr1) \<noteq> []"
    by code_simp+
  with PostBind_cleans_up [OF ex_rpod_labels _ this(1-5) mem_server.reservation_server_axioms] show ?thesis by simp
qed

text \<open>C34: The periodic cleanup deletes only what has expired: an object that is at most 30 minutes old at
  the readings of the clock, or whose gang still has a pod that does not run, survives it,
  unchanged, whatever gangs are tracked, on the in-memory server, where no two objects share a namespace and a name.\<close>

theorem cleanup_deletes_only_expired:
  assumes "distinct (map rv_id (mw_objs (rr_world st)))" and "x \<in> set (mw_objs (rr_world st))"
    and "\<forall>k. \<not> (clock k - rv_created x > seconds 1800 \<and>
      (\<exists>g. of_group g x \<and> isGangCompleteOrExpired lister (rv_ns x) g))"
  shows "x \<in> set (mw_objs (rr_world (cleanupExpiredReservations mem_api lister clock st)))"
  by (rule mem_server.cleanup_keeps [OF assms(1,2)]) (use assms(3) in \<open>simp add: expired_def reservationTTL_def\<close>)

lemma cleanup_deletes_only_expired_witness:
  "hd (mw_objs (rr_world ex_rr1)) \<in> set (mw_objs (rr_world (cleanupExpiredReservations mem_api (cache_lister []) (\<lambda>_. seconds 1805) ex_rr1))) \<and>
   mw_objs (rr_world (cleanupExpiredReservations mem_api (cache_lister []) (\<lambda>_. seconds 1806) ex_rr1)) = []"
proof -
  have c: "rv_created (hd (mw_objs (rr_world ex_rr1))) = seconds 5" by code_simp
  have "distinct (map rv_id (mw_objs (rr_world ex_rr1)))" by code_simp
  moreover have "hd (mw_objs (rr_world ex_rr1)) \<in> set (mw_objs (rr_world ex_rr1))" by code_simp
  moreover have "mw_objs (rr_world (cleanupExpiredReservations mem_api (cache_lister []) (\<lambda>_. seconds 1806) ex_rr1)) = []" by code_simp
  ultimately show ?thesis
    using cleanup_deletes_only_expired [of ex_rr1 "hd (mw_objs (rr_world ex_rr1))" "\<lambda>_. seconds 1805" "cache_lister []"]
    by (simp add: c seconds_def)
qed

text \<open>A server on which deletions fail, for instance by a timeout.\<close>

definition no_delete_api :: "mem_world reservation_api" where
  "no_delete_api = mem_api\<lparr>api_delete := (\<lambda>ns n w. (Some ''timeout'', w))\<rparr>"

lemma no_delete_ids:
  assumes "\<forall>r \<in> set items. \<not> rv_deleting r"
  shows "map rv_id (mw_objs (delete_items no_delete_api ns g items w)) = map rv_id (mw_objs w)"
  using assms
proof (induction items arbitrary: w)
  case (Cons r items)
  have "map rv_id (mw_objs (snd (finalize_delete no_delete_api ns r w))) = map rv_id (mw_objs w)"
    using Cons.prems by (auto simp: finalize_delete_def no_delete_api_def mem_api_def apply_update_def Let_def same_id_iff rv_id_def)
  then show ?case using Cons by simp
qed simp

text \<open>A reservation can be lost track of: when the gang is complete and the individual deletions fail,
  PostBind only logs the failures and untracks the gang all the same; every reservation is still
  there, and as the cleanup visits tracked gangs only, no later cleanup will look at it if no other
  pod has the gang tracked again.\<close>

theorem PostBind_leaks:
  assumes "pg_labels p = Inr (g, m)" "m \<ge> 2" "isGangComplete lister p g m"
    and "CHR ''/'' \<notin> set (p_ns p)" "CHR ''/'' \<notin> set g"
    and "\<forall>x \<in> set (mw_objs (rr_world st)). \<not> rv_deleting x"
    and "tracked_gangs st = [GetPodGroupKey (p_ns p) g]"
  shows "map rv_id (mw_objs (rr_world (cleanupExpiredReservations api lister' clock (PostBind no_delete_api lister p st)))) =
      map rv_id (mw_objs (rr_world st))"
proof -
  define w where "w = rr_world st"
  define items where "items = filter (\<lambda>x. rv_ns x = p_ns p) (mw_objs w)"
  have "deleteGangReservations no_delete_api (p_ns p) (GetPodGroupKey (p_ns p) g) w = (None, delete_items no_delete_api (p_ns p) g items w)"
    using GetPodGroupKey_split [OF assms(4,5)]
    by (simp add: deleteGangReservations_def no_delete_api_def mem_api_def items_def)
  then have "PostBind no_delete_api lister p st = \<lparr>tracked_gangs = [], rr_world = delete_items no_delete_api (p_ns p) g items w\<rparr>"
    using assms(1-3,7) isGangMember_labels [OF assms(1,2)]
    by (simp add: PostBind_def untrack_def GetPodGroupKey_def Let_def w_def)
  moreover have "map rv_id (mw_objs (delete_items no_delete_api (p_ns p) g items w)) = map rv_id (mw_objs w)"
    using assms(6) by (intro no_delete_ids) (simp add: items_def w_def)
  ultimately show ?thesis by (simp add: cleanupExpiredReservations_def w_def)
qed

lemma PostBind_leaks_witness:
  "map rv_id (mw_objs (rr_world (cleanupExpiredReservations mem_api (cache_lister []) (\<lambda>_. seconds 100000)
     (PostBind no_delete_api (cache_lister ex_bound) ex_rpod ex_rr1)))) = [(''ml'', ''w-reservation'')]"
proof -
  have "isGangComplete (cache_lister ex_bound) ex_rpod ''w'' 3" "CHR ''/'' \<notin> set (p_ns ex_rpod)" "CHR ''/'' \<notin> set ''w''"
    "\<forall>x \<in> set (mw_objs (rr_world ex_rr1)). \<not> rv_deleting x"
    "tracked_gangs ex_rr1 = [GetPodGroupKey (p_ns ex_rpod) ''w'']"
    and ids: "map rv_id (mw_objs (rr_world ex_rr1)) = [(''ml'', ''w-reservation'')]"
    by code_simp+
  from PostBind_leaks [OF ex_rpod_labels _ this(1-5), of mem_api "cache_lister []" "\<lambda>_. seconds 100000"] ids
  show ?thesis by simp
qed

end
