(* ===== verification/ReservationRuns.thy ===== *)
theory ReservationRuns
  imports Reservation
begin

text \<open>
  Runs of the resource reservation plugin: any sequence of PreFilter, Filter, PostBind and cleanup calls
  on a server that does not fail, with anything else that happens to the server in between as long as the
  reservation objects stay.  The runs are related to an abstract book of two sets of gang keys, the
  tracked gangs and the gangs with a reservation, by the keys of the plugin's state and of the objects
  (\<^verbatim>\<open>rr_book\<close>).  The locale \<^verbatim>\<open>reliable_server\<close> extends \<^verbatim>\<open>reservation_server\<close> by the
  answer to a deletion.
\<close>

section \<open>The abstract book\<close>

type_synonym book = "string set \<times> string set"

inductive book_step :: "book \<Rightarrow> book \<Rightarrow> bool" where
  reserve: "k \<notin> T \<Longrightarrow> book_step (T, K) (insert k T, insert k K)"
| release: "book_step (T, K) (T - {k}, K - {k})"

abbreviation book_run :: "book \<Rightarrow> book \<Rightarrow> bool" where
  "book_run \<equiv> book_step\<^sup>*\<^sup>*"

lemma book_run_invariants:
  assumes "book_run b b'"
  shows "fst b \<subseteq> snd b \<Longrightarrow> fst b' \<subseteq> snd b'" and "snd b \<subseteq> fst b \<Longrightarrow> snd b' \<subseteq> fst b'"
  using assms by (induction rule: rtranclp_induct) (auto elim!: book_step.cases)

section \<open>Keys of reservations\<close>

definition group_of :: "resource_reservation \<Rightarrow> string" where
  "group_of x = (case rv_labels x of None \<Rightarrow> '''' | Some ls \<Rightarrow> lookup_str ls ''pod-group'')"

definition reservation_key :: "resource_reservation \<Rightarrow> string" where
  "reservation_key x = GetPodGroupKey (rv_ns x) (group_of x)"

definition slash_free :: "string \<Rightarrow> bool" where
  "slash_free s \<longleftrightarrow> CHR ''/'' \<notin> set s"

text \<open>Kubernetes admits no slash in a namespace or in the value of a label.\<close>

definition gang_named :: "pod \<Rightarrow> bool" where
  "gang_named p \<longleftrightarrow> slash_free (p_ns p) \<and> (case pg_labels p of Inl _ \<Rightarrow> True | Inr (g, _) \<Rightarrow> slash_free g)"

text \<open>The objects the plugin makes.\<close>

definition made_here :: "resource_reservation \<Rightarrow> bool" where
  "made_here x \<longleftrightarrow> rv_labels x \<noteq> None \<and> slash_free (rv_ns x) \<and> slash_free (group_of x) \<and>
     rv_name x = group_of x @ ''-reservation'' \<and> rv_finalizers x = [reservationFinalizer] \<and> \<not> rv_deleting x"

lemma of_group_made: "made_here x \<Longrightarrow> of_group g x \<longleftrightarrow> group_of x = g"
  by (auto simp: made_here_def of_group_def group_of_def)

lemma key_eq_iff: "made_here x \<Longrightarrow> slash_free ns \<Longrightarrow> slash_free g \<Longrightarrow>
    reservation_key x = GetPodGroupKey ns g \<longleftrightarrow> rv_ns x = ns \<and> group_of x = g"
  using GetPodGroupKey_inj [of "rv_ns x" "group_of x" ns g]
  by (auto simp: made_here_def slash_free_def reservation_key_def)

lemma same_key_iff: "made_here x \<Longrightarrow> made_here y \<Longrightarrow> reservation_key x = reservation_key y \<longleftrightarrow> same_id x y"
  using key_eq_iff [of x "rv_ns y" "group_of y"] by (auto simp: reservation_key_def same_id_def made_here_def)

lemma gang_reservation_made:
  assumes "slash_free (p_ns p)" "slash_free g"
  shows "made_here (gang_reservation p g m\<lparr>rv_created := t\<rparr>)"
    and "reservation_key (gang_reservation p g m\<lparr>rv_created := t\<rparr>) = GetPodGroupKey (p_ns p) g"
    and "reservation_key (gang_reservation p g m) = GetPodGroupKey (p_ns p) g"
    and "made_here (gang_reservation p g m)"
  using assms by (auto simp: made_here_def reservation_key_def group_of_def gang_reservation_def lookup_str_def)

lemma split_on_single: "split_on c s = [b] \<Longrightarrow> s = b \<and> c \<notin> set b"
  by (induction s arbitrary: b) (auto split: if_splits list.splits)

lemma split_on_pair: "split_on c s = [a, b] \<Longrightarrow> s = a @ c # b \<and> c \<notin> set a \<and> c \<notin> set b"
  by (induction s arbitrary: a) (auto split: if_splits list.splits dest: split_on_single)

lemma key_split: "split_on (CHR ''/'') k = [ns, g] \<Longrightarrow> k = GetPodGroupKey ns g \<and> slash_free ns \<and> slash_free g"
  using split_on_pair [of "CHR ''/''" k ns g] by (simp add: GetPodGroupKey_def slash_free_def)

section \<open>Runs\<close>

text \<open>
  The step relation takes the pods that may be scheduled as a predicate.  Reserve and Unreserve leave
  the state as it is.
\<close>

inductive rr_step ::
  "'w reservation_api \<Rightarrow> ('w \<Rightarrow> resource_reservation list) \<Rightarrow> (pod \<Rightarrow> bool) \<Rightarrow> 'w rr_state \<Rightarrow> 'w rr_state \<Rightarrow> bool"
  for api objs P where
  prefilter: "P p \<Longrightarrow> reservation_PreFilter api cs p st = (s, cs', st') \<Longrightarrow> rr_step api objs P st st'"
| filter_node: "reservation_Filter api add p n st = (r, st') \<Longrightarrow> rr_step api objs P st st'"
| postbind: "P p \<Longrightarrow> rr_step api objs P st (PostBind api lister p st)"
| cleanup: "rr_step api objs P st (cleanupExpiredReservations api lister clock st)"
| elsewhere: "objs w = objs (rr_world st) \<Longrightarrow> rr_step api objs P st (st\<lparr>rr_world := w\<rparr>)"

definition rr_inv :: "('w \<Rightarrow> resource_reservation list) \<Rightarrow> 'w rr_state \<Rightarrow> bool" where
  "rr_inv objs st \<longleftrightarrow> distinct (map rv_id (objs (rr_world st))) \<and> distinct (tracked_gangs st) \<and>
     (\<forall>x \<in> set (objs (rr_world st)). made_here x)"

definition rr_book :: "('w \<Rightarrow> resource_reservation list) \<Rightarrow> 'w rr_state \<Rightarrow> book" where
  "rr_book objs st = (set (tracked_gangs st), reservation_key ` set (objs (rr_world st)))"

lemma set_untrack: "set (tracked_gangs (untrack k st)) = set (tracked_gangs st) - {k}"
  "rr_world (untrack k st) = rr_world st"
  by (auto simp: untrack_def)

lemma distinct_untrack: "distinct (tracked_gangs st) \<Longrightarrow> distinct (tracked_gangs (untrack k st))"
  by (simp add: untrack_def)

text \<open>Dropping the objects of a gang drops its key.\<close>

lemma rr_inv_release:
  assumes "rr_inv objs st" and "objs w = filter (\<lambda>x. reservation_key x \<noteq> k) (objs (rr_world st))"
  shows "rr_inv objs (untrack k (st\<lparr>rr_world := w\<rparr>))"
    and "rr_book objs (untrack k (st\<lparr>rr_world := w\<rparr>)) = (fst (rr_book objs st) - {k}, snd (rr_book objs st) - {k})"
proof -
  show "rr_inv objs (untrack k (st\<lparr>rr_world := w\<rparr>))"
    using assms by (auto simp: rr_inv_def set_untrack distinct_untrack distinct_map_filter)
  show "rr_book objs (untrack k (st\<lparr>rr_world := w\<rparr>)) = (fst (rr_book objs st) - {k}, snd (rr_book objs st) - {k})"
    using assms(2) by (auto simp: rr_book_def set_untrack)
qed

section \<open>The operations refine the book\<close>

locale reliable_server = reservation_server +
  assumes delete_ok: "x \<in> set (objs w) \<Longrightarrow> rv_ns x = ns \<Longrightarrow> rv_name x = n \<Longrightarrow> fst (api_delete api ns n w) = None"
begin

lemma finalize_delete_ok:
  assumes "rr_inv objs st" "res \<in> set (objs (rr_world st))" "rv_ns res = ns"
  shows "\<exists>w. finalize_delete api ns res (rr_world st) = (None, w) \<and>
    objs w = filter (\<lambda>x. reservation_key x \<noteq> reservation_key res) (objs (rr_world st))"
proof -
  let ?w = "rr_world st"
  have m: "made_here res" "distinct (map rv_id (objs ?w))" "set (rv_finalizers res) \<subseteq> {reservationFinalizer}"
    using assms by (auto simp: rr_inv_def made_here_def)
  define r' where "r' = res\<lparr>rv_finalizers := removeFinalizer (rv_finalizers res) reservationFinalizer\<rparr>"
  define w1 where "w1 = snd (api_update api r' ?w)"
  have "objs w1 = apply_update r' (objs ?w)"
    unfolding w1_def by (rule update_objs) (use assms(2) in \<open>auto simp: r'_def same_id_def\<close>)
  then have "r' \<in> set (objs w1)"
    using m(1) assms(2) by (auto simp: apply_update_def made_here_def r'_def same_id_def image_iff intro!: bexI [of _ res])
  then have "fst (finalize_delete api ns res ?w) = None"
    using m(1) assms(3) delete_ok [of r' w1 ns "rv_name res"]
    by (simp add: finalize_delete_def made_here_def w1_def r'_def)
  moreover have "objs (snd (finalize_delete api ns res ?w)) = filter (\<lambda>x. \<not> same_id x res) (objs ?w)"
    by (rule finalize_delete_objs(2) [OF assms(2) m(2) assms(3) m(3)])
  moreover have "\<dots> = filter (\<lambda>x. reservation_key x \<noteq> reservation_key res) (objs ?w)"
    by (rule filter_cong [OF refl]) (use assms(1) m(1) in \<open>simp add: rr_inv_def same_key_iff\<close>)
  ultimately show ?thesis by (cases "finalize_delete api ns res ?w") auto
qed

text \<open>PreFilter deletes nothing, and tracks at most the gang of its pod.\<close>

lemma prefilter_effect:
  assumes "rr_inv objs st" "gang_named p" "reservation_PreFilter api cs p st = (s, cs', st')"
  shows "rr_inv objs st' \<and> book_run (rr_book objs st) (rr_book objs st') \<and>
    set (objs (rr_world st)) \<subseteq> set (objs (rr_world st')) \<and>
    set (tracked_gangs st') \<subseteq> insert (getGangKey p) (set (tracked_gangs st))"
proof (cases "st' = st")
  case False
  then obtain g m where g: "pg_labels p = Inr (g, m)" "g \<noteq> ''''" "GetPodGroupKey (p_ns p) g \<notin> set (tracked_gangs st)"
    using assms(3) by (auto simp: reservation_PreFilter_def GetPodGroupKey_def Let_def split: if_splits sum.splits prod.splits)
  let ?k = "GetPodGroupKey (p_ns p) g" and ?r = "gang_reservation p g m" and ?w = "rr_world st"
  have sf: "slash_free (p_ns p)" "slash_free g" using assms(2) g(1) by (simp_all add: gang_named_def)
  have k: "getGangKey p = ?k" using g by (simp add: getGangKey_def GetPodGroupKey_def)
  have made: "\<forall>x \<in> set (objs ?w). made_here x" using assms(1) by (simp add: rr_inv_def)
  have "\<exists>res w. createGangReservations api p g m ?w = (Inr res, w) \<and>
      (objs w = objs ?w \<and> ?k \<in> reservation_key ` set (objs ?w) \<or>
       (\<exists>t. objs w = ?r\<lparr>rv_created := t\<rparr> # objs ?w \<and> ?k \<notin> reservation_key ` set (objs ?w)))"
  proof (cases "\<exists>x \<in> set (objs ?w). same_id x ?r")
    case True
    then obtain x where x: "x \<in> set (objs ?w)" "same_id x ?r" by blast
    obtain err w1 where w1: "api_create api ?r ?w = (Inl err, w1)" "contains err ''already exists''" "objs w1 = objs ?w"
      using create_exists [OF x] by blast
    have "distinct (map rv_id (objs w1))" using assms(1) w1(3) by (simp add: rr_inv_def)
    moreover have "x \<in> set (objs w1)" using x(1) w1(3) by simp
    moreover have "?k \<in> reservation_key ` set (objs ?w)"
      using same_key_iff [of x ?r] made x gang_reservation_made(3,4) [OF sf, of m] by (intro image_eqI [of _ _ x]) simp_all
    ultimately show ?thesis
      using get_objs [of x w1] w1 x by (auto simp: createGangReservations_def Let_def same_id_def)
  next
    case False
    then have "\<forall>x \<in> set (objs ?w). \<not> same_id x ?r" by blast
    from create_objs [OF this] obtain t w1
      where w1: "api_create api ?r ?w = (Inr (?r\<lparr>rv_created := t\<rparr>), w1)" "objs w1 = ?r\<lparr>rv_created := t\<rparr> # objs ?w" by blast
    have "reservation_key x \<noteq> ?k" if "x \<in> set (objs ?w)" for x
      using False made that same_key_iff [of x ?r] gang_reservation_made(3,4) [OF sf, of m] by auto
    then have "?k \<notin> reservation_key ` set (objs ?w)" by (metis imageE)
    with w1 show ?thesis by (auto simp: createGangReservations_def Let_def)
  qed
  then obtain res w where c: "createGangReservations api p g m ?w = (Inr res, w)"
    and w: "objs w = objs ?w \<and> ?k \<in> reservation_key ` set (objs ?w) \<or>
       (\<exists>t. objs w = ?r\<lparr>rv_created := t\<rparr> # objs ?w \<and> ?k \<notin> reservation_key ` set (objs ?w))" by blast
  have st': "st' = st\<lparr>tracked_gangs := ?k # tracked_gangs st, rr_world := w\<rparr>"
    using assms(3) False g c by (auto simp: reservation_PreFilter_def GetPodGroupKey_def Let_def split: if_splits)
  have "rr_inv objs st'"
    using w
  proof
    assume "objs w = objs ?w \<and> ?k \<in> reservation_key ` set (objs ?w)"
    then show ?thesis using assms(1) g(3) by (simp add: rr_inv_def st')
  next
    assume "\<exists>t. objs w = ?r\<lparr>rv_created := t\<rparr> # objs ?w \<and> ?k \<notin> reservation_key ` set (objs ?w)"
    then obtain t where t: "objs w = ?r\<lparr>rv_created := t\<rparr> # objs ?w" "?k \<notin> reservation_key ` set (objs ?w)" by blast
    have "rv_id x \<noteq> rv_id (?r\<lparr>rv_created := t\<rparr>)" if x: "x \<in> set (objs ?w)" for x
    proof
      assume "rv_id x = rv_id (?r\<lparr>rv_created := t\<rparr>)"
      then have "reservation_key x = ?k"
        using same_key_iff [of x "?r\<lparr>rv_created := t\<rparr>"] made x gang_reservation_made(1,2) [OF sf, of t m]
        by (simp add: same_id_iff)
      then show False using t(2) x by (simp add: rev_image_eqI)
    qed
    then have "rv_id (?r\<lparr>rv_created := t\<rparr>) \<notin> rv_id ` set (objs ?w)" by (metis imageE)
    then show ?thesis using assms(1) g(3) t(1) gang_reservation_made(1) [OF sf, of t m] by (simp add: rr_inv_def st')
  qed
  moreover have "rr_book objs st' = (insert ?k (fst (rr_book objs st)), insert ?k (snd (rr_book objs st)))"
    using w gang_reservation_made(2) [OF sf] by (auto simp: rr_book_def st')
  moreover have "book_step (rr_book objs st) (insert ?k (fst (rr_book objs st)), insert ?k (snd (rr_book objs st)))"
    using reserve [of ?k "fst (rr_book objs st)" "snd (rr_book objs st)"] g(3) by (simp add: rr_book_def)
  ultimately show ?thesis using w k by (auto simp: st')
qed (use assms(1) in auto)

text \<open>PostBind deletes the reservations of the gang of its pod, or nothing.\<close>

lemma postbind_effect:
  assumes "rr_inv objs st" "gang_named p"
  shows "rr_inv objs (PostBind api lister p st) \<and> book_run (rr_book objs st) (rr_book objs (PostBind api lister p st)) \<and>
    (\<forall>x \<in> set (objs (rr_world st)). reservation_key x \<noteq> getGangKey p \<longrightarrow> x \<in> set (objs (rr_world (PostBind api lister p st)))) \<and>
    set (tracked_gangs (PostBind api lister p st)) \<subseteq> set (tracked_gangs st)"
proof (cases "PostBind api lister p st = st")
  case False
  then obtain g m where g: "isGangMember p" "pg_labels p = Inr (g, m)" "g \<noteq> ''''" "isGangComplete lister p g m"
    by (auto simp: PostBind_def split: if_splits sum.splits prod.splits)
  let ?k = "GetPodGroupKey (p_ns p) g"
  have sf: "slash_free (p_ns p)" "slash_free g" using assms(2) g(2) by (simp_all add: gang_named_def)
  have k: "getGangKey p = ?k" using g by (simp add: getGangKey_def GetPodGroupKey_def)
  have made: "\<forall>x \<in> set (objs (rr_world st)). made_here x" using assms(1) by (simp add: rr_inv_def)
  have "filter (\<lambda>x. \<not> (rv_ns x = p_ns p \<and> of_group g x)) (objs (rr_world st)) =
      filter (\<lambda>x. reservation_key x \<noteq> ?k) (objs (rr_world st))"
    by (rule filter_cong [OF refl]) (use made sf in \<open>simp add: key_eq_iff of_group_made\<close>)
  moreover have "\<exists>w'. deleteGangReservations api (p_ns p) ?k (rr_world st) = (None, w') \<and>
      objs w' = filter (\<lambda>x. \<not> (rv_ns x = p_ns p \<and> of_group g x)) (objs (rr_world st))"
    by (rule deleteGangReservations_objs) (use assms(1) sf made in \<open>auto simp: rr_inv_def slash_free_def made_here_def\<close>)
  ultimately obtain w where w: "deleteGangReservations api (p_ns p) ?k (rr_world st) = (None, w)"
    "objs w = filter (\<lambda>x. reservation_key x \<noteq> ?k) (objs (rr_world st))" by auto
  then have pb: "PostBind api lister p st = untrack ?k (st\<lparr>rr_world := w\<rparr>)"
    using g by (simp add: PostBind_def GetPodGroupKey_def Let_def)
  show ?thesis
    unfolding pb using rr_inv_release [OF assms(1) w(2)] w(2) k
    by (cases "rr_book objs st") (auto simp: set_untrack intro: r_into_rtranclp book_step.release)
qed (use assms(1) in auto)

text \<open>The cleanup of one gang deletes objects of that gang only.\<close>

lemma cleanup_items_effect:
  assumes "rr_inv objs st" "slash_free ns" "slash_free g"
    and "distinct (map rv_id items)" "\<forall>r \<in> set items. r \<in> set (objs (rr_world st)) \<and> rv_ns r = ns"
    and "st' = cleanup_items api lister now (GetPodGroupKey ns g) ns g items st"
  shows "rr_inv objs st' \<and> book_run (rr_book objs st) (rr_book objs st') \<and>
    (\<forall>x \<in> set (objs (rr_world st)). reservation_key x \<noteq> GetPodGroupKey ns g \<longrightarrow> x \<in> set (objs (rr_world st'))) \<and>
    set (tracked_gangs st') \<subseteq> set (tracked_gangs st)"
  using assms
proof (induction items arbitrary: st)
  case (Cons res items)
  show ?case
  proof (cases "of_group g res \<and> time_sub now (rv_created res) > reservationTTL \<and> isGangCompleteOrExpired lister ns g")
    case True
    let ?k = "GetPodGroupKey ns g"
    have res: "res \<in> set (objs (rr_world st))" "rv_ns res = ns" "made_here res"
      using Cons.prems(1,5) by (auto simp: rr_inv_def)
    then have key: "reservation_key res = ?k" using True by (simp add: of_group_made reservation_key_def)
    obtain w where w: "finalize_delete api ns res (rr_world st) = (None, w)"
      "objs w = filter (\<lambda>x. reservation_key x \<noteq> ?k) (objs (rr_world st))"
      using finalize_delete_ok [OF Cons.prems(1) res(1,2)] key by auto
    define st1 where "st1 = untrack ?k (st\<lparr>rr_world := w\<rparr>)"
    have r: "rr_inv objs st1" "book_step (rr_book objs st) (rr_book objs st1)"
      using rr_inv_release [OF Cons.prems(1) w(2)] release [of "fst (rr_book objs st)" "snd (rr_book objs st)" ?k]
      by (simp_all add: st1_def)
    have made: "\<forall>x \<in> set (objs (rr_world st)). made_here x" using Cons.prems(1) by (simp add: rr_inv_def)
    have "x \<in> set (objs w) \<and> rv_ns x = ns" if "x \<in> set items" for x
    proof -
      have "rv_id x \<noteq> rv_id res" using Cons.prems(4) that by (auto simp: image_iff)
      then show ?thesis
        using Cons.prems(5) that made res(3) same_key_iff [of x res] key by (auto simp: w(2) same_id_iff)
    qed
    then have "rr_inv objs st' \<and> book_run (rr_book objs st1) (rr_book objs st') \<and>
      (\<forall>x \<in> set (objs (rr_world st1)). reservation_key x \<noteq> ?k \<longrightarrow> x \<in> set (objs (rr_world st'))) \<and>
      set (tracked_gangs st') \<subseteq> set (tracked_gangs st1)"
      using Cons.prems True w(1) by (intro Cons.IH [OF r(1)]) (simp_all add: st1_def set_untrack)
    then show ?thesis
      using converse_rtranclp_into_rtranclp [of book_step, OF r(2)] by (auto simp: st1_def set_untrack w(2))
  next
    case False
    with Cons show ?thesis by (auto split: if_splits)
  qed
qed simp

lemma cleanup_gang_effect:
  assumes "rr_inv objs st" "st' = cleanup_gang api lister now k st"
  shows "rr_inv objs st' \<and> book_run (rr_book objs st) (rr_book objs st') \<and>
    (\<forall>x \<in> set (objs (rr_world st)). reservation_key x \<noteq> k \<longrightarrow> x \<in> set (objs (rr_world st'))) \<and>
    set (tracked_gangs st') \<subseteq> set (tracked_gangs st)"
proof (cases "\<exists>ns g. split_on (CHR ''/'') k = [ns, g]")
  case True
  then obtain ns g where s: "split_on (CHR ''/'') k = [ns, g]" by blast
  note k = key_split [OF s]
  obtain w where w: "api_list api ns (rr_world st) = (Inr (filter (\<lambda>x. rv_ns x = ns) (objs (rr_world st))), w)"
    "objs w = objs (rr_world st)" using list_objs by blast
  have i: "rr_inv objs (st\<lparr>rr_world := w\<rparr>)" "rr_book objs (st\<lparr>rr_world := w\<rparr>) = rr_book objs st"
    using assms(1) w(2) by (simp_all add: rr_inv_def rr_book_def)
  have "st' = cleanup_items api lister now (GetPodGroupKey ns g) ns g (filter (\<lambda>x. rv_ns x = ns) (objs (rr_world st))) (st\<lparr>rr_world := w\<rparr>)"
    using assms(2) s k w(1) by (simp add: cleanup_gang_def)
  moreover have "distinct (map rv_id (filter (\<lambda>x. rv_ns x = ns) (objs (rr_world st))))"
    using assms(1) by (simp add: rr_inv_def distinct_map_filter)
  moreover have "\<forall>r \<in> set (filter (\<lambda>x. rv_ns x = ns) (objs (rr_world st))). r \<in> set (objs (rr_world (st\<lparr>rr_world := w\<rparr>))) \<and> rv_ns r = ns"
    using w(2) by simp
  ultimately have "rr_inv objs st' \<and> book_run (rr_book objs (st\<lparr>rr_world := w\<rparr>)) (rr_book objs st') \<and>
      (\<forall>x \<in> set (objs (rr_world (st\<lparr>rr_world := w\<rparr>))). reservation_key x \<noteq> GetPodGroupKey ns g \<longrightarrow> x \<in> set (objs (rr_world st'))) \<and>
      set (tracked_gangs st') \<subseteq> set (tracked_gangs (st\<lparr>rr_world := w\<rparr>))"
    using cleanup_items_effect [OF i(1), of ns g] k by blast
  then show ?thesis using k w(2) i(2) by simp
next
  case False
  then have "st' = st" using assms(2) by (auto simp: cleanup_gang_def split: list.splits)
  with assms(1) show ?thesis by simp
qed

lemma cleanup_effect:
  assumes "rr_inv objs st"
  shows "rr_inv objs (cleanupExpiredReservations api lister clock st) \<and>
    book_run (rr_book objs st) (rr_book objs (cleanupExpiredReservations api lister clock st)) \<and>
    (\<forall>x \<in> set (objs (rr_world st)). reservation_key x \<notin> set (tracked_gangs st) \<longrightarrow>
       x \<in> set (objs (rr_world (cleanupExpiredReservations api lister clock st)))) \<and>
    set (tracked_gangs (cleanupExpiredReservations api lister clock st)) \<subseteq> set (tracked_gangs st)"
proof -
  have "rr_inv objs (foldl (\<lambda>s k. cleanup_gang api lister (clock k) k s) s ks) \<and>
      book_run (rr_book objs s) (rr_book objs (foldl (\<lambda>s k. cleanup_gang api lister (clock k) k s) s ks)) \<and>
      (\<forall>x \<in> set (objs (rr_world s)). reservation_key x \<notin> set ks \<longrightarrow>
         x \<in> set (objs (rr_world (foldl (\<lambda>s k. cleanup_gang api lister (clock k) k s) s ks)))) \<and>
      set (tracked_gangs (foldl (\<lambda>s k. cleanup_gang api lister (clock k) k s) s ks)) \<subseteq> set (tracked_gangs s)"
    if "rr_inv objs s" for s ks
    using that
  proof (induction ks arbitrary: s)
    case (Cons k ks)
    note e = cleanup_gang_effect [OF Cons.prems refl, of lister "clock k" k]
    from Cons.IH [of "cleanup_gang api lister (clock k) k s"] e show ?case
      by (auto intro: rtranclp_trans)
  qed simp
  from this [OF assms] show ?thesis by (simp add: cleanupExpiredReservations_def)
qed

lemma filter_effect:
  assumes "reservation_Filter api add p n st = (r, st')"
  shows "\<exists>w. st' = st\<lparr>rr_world := w\<rparr> \<and> objs w = objs (rr_world st)"
proof -
  obtain w where "api_list api (p_ns p) (rr_world st) = (Inr (filter (\<lambda>x. rv_ns x = p_ns p) (objs (rr_world st))), w)"
    "objs w = objs (rr_world st)" using list_objs by blast
  then show ?thesis
    using assms by (auto simp: reservation_Filter_def getNodeReservations_def Let_def split: if_splits prod.splits)
qed

lemma rr_step_effect:
  assumes "rr_step api objs P st st'" "\<And>p. P p \<Longrightarrow> gang_named p" "rr_inv objs st"
  shows "rr_inv objs st' \<and> book_run (rr_book objs st) (rr_book objs st')"
  using assms(1)
proof cases
  case (prefilter p cs s cs')
  then show ?thesis using prefilter_effect [OF assms(3) assms(2)] by blast
next
  case (filter_node add p n r)
  then show ?thesis using filter_effect [OF filter_node(1)] assms(3) by (auto simp: rr_inv_def rr_book_def)
next
  case (postbind p lister)
  then show ?thesis using postbind_effect [OF assms(3) assms(2)] by blast
next
  case (cleanup lister clock)
  then show ?thesis using cleanup_effect [OF assms(3)] by blast
next
  case (elsewhere w)
  then show ?thesis using assms(3) by (auto simp: rr_inv_def rr_book_def)
qed

lemma rr_run_refines:
  assumes "(rr_step api objs P)\<^sup>*\<^sup>* st st'" "\<And>p. P p \<Longrightarrow> gang_named p" "rr_inv objs st"
  shows "rr_inv objs st' \<and> book_run (rr_book objs st) (rr_book objs st')"
  using assms(1)
proof (induction rule: rtranclp_induct)
  case base
  then show ?case using assms(3) by simp
next
  case (step s s')
  then have "rr_inv objs s' \<and> book_run (rr_book objs s) (rr_book objs s')"
    using rr_step_effect [OF step.hyps(2) assms(2)] by blast
  then show ?case using step.IH by (meson rtranclp_trans)
qed

lemma orphan_step:
  assumes "rr_step api objs P st st'" "\<And>p. P p \<Longrightarrow> gang_named p \<and> getGangKey p \<noteq> reservation_key x" "rr_inv objs st"
    and "x \<in> set (objs (rr_world st))" "reservation_key x \<notin> set (tracked_gangs st)"
  shows "x \<in> set (objs (rr_world st')) \<and> reservation_key x \<notin> set (tracked_gangs st')"
  using assms(1)
proof cases
  case (prefilter p cs s cs')
  then show ?thesis using prefilter_effect [OF assms(3) _ prefilter(2)] assms(2) [OF prefilter(1)] assms(4,5) by auto
next
  case (filter_node add p n r)
  then show ?thesis using filter_effect [OF filter_node(1)] assms(4,5) by auto
next
  case (postbind p lister)
  then show ?thesis using postbind_effect [OF assms(3), of p lister] assms(2) [OF postbind(2)] assms(4,5) by auto
next
  case (cleanup lister clock)
  then show ?thesis using cleanup_effect [OF assms(3), of lister clock] assms(4,5) by auto
next
  case (elsewhere w)
  then show ?thesis using assms(4,5) by simp
qed

lemma orphan_run:
  assumes "(rr_step api objs P)\<^sup>*\<^sup>* st st'" "\<And>p. P p \<Longrightarrow> gang_named p \<and> getGangKey p \<noteq> reservation_key x" "rr_inv objs st"
    and "x \<in> set (objs (rr_world st))" "reservation_key x \<notin> set (tracked_gangs st)"
  shows "x \<in> set (objs (rr_world st')) \<and> reservation_key x \<notin> set (tracked_gangs st')"
  using assms(1)
proof (induction rule: rtranclp_induct)
  case (step s s')
  have "rr_inv objs s" using rr_run_refines [OF step.hyps(1) _ assms(3)] assms(2) by blast
  then show ?case using orphan_step [OF step.hyps(2) assms(2)] step.IH by blast
qed (use assms(4,5) in simp)

end

interpretation mem_reliable: reliable_server mem_api mw_objs
  by unfold_locales (auto simp: mem_api_def list_ex_iff)

section \<open>Properties of runs\<close>

text \<open>C11: The plugin refines the book of gang keys: on every server that keeps the laws of \<^verbatim>\<open>reliable_server\<close>
  (no call on an existing object fails, and the calls do what they say), whatever PreFilter, Filter, PostBind
  and cleanup calls are made, with whatever listers and clocks, for pods whose namespace and gang name have no slash, each
  run amounts to reserving gangs that are not tracked, which adds a gang to the tracked gangs and to those
  with a reservation at once, and to releasing gangs, which takes it out of both.  The run starts in a state where
  every reservation object is of the shape the plugin makes (its name and labels, the plugin's finalizer only, not
  being deleted), no two objects share a namespace and a name and no gang is tracked twice; the state it
  ends in is of that kind again.  Nothing else creates, changes or deletes reservation objects during the run.\<close>

theorem reservation_runs_refine:
  assumes "reliable_server api objs" and "(rr_step api objs gang_named)\<^sup>*\<^sup>* st st'" and "rr_inv objs st"
  shows "book_step\<^sup>*\<^sup>* (rr_book objs st) (rr_book objs st') \<and> rr_inv objs st'"
  using reliable_server.rr_run_refines [OF assms(1,2) _ assms(3)] by blast

text \<open>C10: Exactly the gangs with a reservation are tracked: from a start without reservations, after any
  calls on a server that does not fail, the tracked gangs are those that have a reservation object, no
  gang is tracked twice, and no gang has two reservations.\<close>

theorem tracked_iff_reserved:
  assumes "(rr_step mem_api mw_objs gang_named)\<^sup>*\<^sup>* \<lparr>tracked_gangs = [], rr_world = w\<rparr> st" and "mw_objs w = []"
  shows "set (tracked_gangs st) = reservation_key ` set (mw_objs (rr_world st)) \<and>
    distinct (tracked_gangs st) \<and> distinct (map reservation_key (mw_objs (rr_world st)))"
proof -
  have "rr_inv mw_objs \<lparr>tracked_gangs = [], rr_world = w\<rparr>" using assms(2) by (simp add: rr_inv_def)
  then have r: "rr_inv mw_objs st" "book_run (rr_book mw_objs \<lparr>tracked_gangs = [], rr_world = w\<rparr>) (rr_book mw_objs st)"
    using mem_reliable.rr_run_refines [OF assms(1)] by blast+
  then have "set (tracked_gangs st) = reservation_key ` set (mw_objs (rr_world st))"
    using book_run_invariants [OF r(2)] assms(2) by (auto simp: rr_book_def)
  moreover have "distinct (map reservation_key (mw_objs (rr_world st)))"
    using r(1) by (auto simp: rr_inv_def distinct_map inj_on_def same_key_iff same_id_iff)
  ultimately show ?thesis using r(1) by (simp add: rr_inv_def)
qed

text \<open>C40: A restart orphans reservations: the set of tracked gangs is kept in memory only, and the cleanup
  visits tracked gangs only. A reservation whose gang is not tracked, as all are after a restart, stays
  on the server through any further calls, however old it gets, as long as no pod of its own gang comes
  back to be scheduled; the thirty minutes after which it should expire never count.  The server is the in-memory one,
  on which all reservation objects are of the shape the plugin makes and nobody else deletes one.\<close>

theorem restart_orphans:
  assumes "(rr_step mem_api mw_objs (\<lambda>p. gang_named p \<and> getGangKey p \<noteq> reservation_key x))\<^sup>*\<^sup>* st st'"
    and "rr_inv mw_objs st" and "x \<in> set (mw_objs (rr_world st))" and "reservation_key x \<notin> set (tracked_gangs st)"
  shows "x \<in> set (mw_objs (rr_world st'))"
  using mem_reliable.orphan_run [OF assms(1) _ assms(2-4)] by blast

lemma ex_rr_run: "rr_step mem_api mw_objs gang_named ex_rr ex_rr1"
proof -
  have n: "gang_named ex_rpod" by code_simp
  obtain s cs' st' where r: "reservation_PreFilter mem_api Map.empty ex_rpod ex_rr = (s, cs', st')"
    by (cases "reservation_PreFilter mem_api Map.empty ex_rpod ex_rr")
  then have "st' = ex_rr1" by (simp add: ex_rr1_def)
  with rr_step.prefilter [of gang_named, OF n r] show ?thesis by simp
qed

lemma ex_rr_keys: "map reservation_key (mw_objs (rr_world ex_rr1)) = [''ml/w'']" "rr_inv mw_objs ex_rr1" "rr_inv mw_objs ex_rr"
  "mw_objs (rr_world ex_rr) = []"
  by code_simp+

lemma reservation_runs_refine_witness: "book_step\<^sup>*\<^sup>* ({}, {}) ({''ml/w''}, {''ml/w''})"
proof -
  have "rr_book mw_objs ex_rr = ({}, {})" "rr_book mw_objs ex_rr1 = ({''ml/w''}, {''ml/w''})" by code_simp+
  then show ?thesis using reservation_runs_refine [OF mem_reliable.reliable_server_axioms r_into_rtranclp [of "rr_step mem_api mw_objs gang_named", OF ex_rr_run] ex_rr_keys(3)] by simp
qed

lemma tracked_iff_reserved_witness: "set (tracked_gangs ex_rr1) = {''ml/w''}"
proof -
  have "ex_rr = \<lparr>tracked_gangs = [], rr_world = ex_world\<rparr>" by (simp add: ex_rr_def)
  then have "(rr_step mem_api mw_objs gang_named)\<^sup>*\<^sup>* \<lparr>tracked_gangs = [], rr_world = ex_world\<rparr> ex_rr1"
    using ex_rr_run by auto
  moreover have "mw_objs ex_world = []" by (simp add: ex_world_def)
  ultimately have "set (tracked_gangs ex_rr1) = reservation_key ` set (mw_objs (rr_world ex_rr1))"
    using tracked_iff_reserved by blast
  also have "\<dots> = set (map reservation_key (mw_objs (rr_world ex_rr1)))" by simp
  finally show ?thesis by (simp add: ex_rr_keys)
qed

lemma restart_orphans_witness:
  "hd (mw_objs (rr_world ex_rr1)) \<in> set (mw_objs (rr_world
     (cleanupExpiredReservations mem_api (cache_lister []) (\<lambda>_. seconds 1000000) (ex_rr1\<lparr>tracked_gangs := []\<rparr>))))"
proof (rule restart_orphans)
  show "(rr_step mem_api mw_objs (\<lambda>p. gang_named p \<and> getGangKey p \<noteq> reservation_key (hd (mw_objs (rr_world ex_rr1)))))\<^sup>*\<^sup>*
      (ex_rr1\<lparr>tracked_gangs := []\<rparr>)
      (cleanupExpiredReservations mem_api (cache_lister []) (\<lambda>_. seconds 1000000) (ex_rr1\<lparr>tracked_gangs := []\<rparr>))"
    by (rule r_into_rtranclp, rule rr_step.cleanup)
  show "rr_inv mw_objs (ex_rr1\<lparr>tracked_gangs := []\<rparr>)" using ex_rr_keys(2) by (simp add: rr_inv_def)
  show "hd (mw_objs (rr_world ex_rr1)) \<in> set (mw_objs (rr_world (ex_rr1\<lparr>tracked_gangs := []\<rparr>)))" by code_simp
qed simp

end
