(* ===== verification/ReservationClient.thy ===== *)
theory ReservationClient
  imports Reservation
begin

text \<open>
  The client the resource reservation plugin sets up (\<^verbatim>\<open>New\<close> and \<^verbatim>\<open>setConfigDefaults\<close> of
  \<^verbatim>\<open>resourcereservation.go\<close>, the group of \<^verbatim>\<open>register.go\<close>) and the custom resource definition it
  talks to (\<^verbatim>\<open>config/crd-resourcereservation.yaml\<close>).

  Reading a kubeconfig, the in-cluster configuration, the scheme and the REST client belong to Kubernetes: they
  are the fields of \<^verbatim>\<open>startup_env\<close>.  A server stores an object after it has dropped the fields the
  schema of the definition does not name, and a field that is missing decodes to its zero value.
\<close>

section \<open>Setting the client up\<close>

definition GroupName :: string where "GroupName = ''scheduling.kubenexus.io''"
definition Version :: string where "Version = ''v1alpha1''"

definition SchemeGroupVersion :: "string \<times> string" where
  "SchemeGroupVersion = (GroupName, Version)"

record rest_config =
  rc_host :: string
  rc_group_version :: "(string \<times> string) option"
  rc_api_path :: string
  rc_user_agent :: string

record 'c startup_env =
  se_config_file :: bool
  se_from_file :: "string + rest_config"
  se_in_cluster :: "string + rest_config"
  se_add_to_scheme :: "string option"
  se_default_agent :: string
  se_rest_client :: "rest_config \<Rightarrow> string + 'c"

definition setConfigDefaults :: "'c startup_env \<Rightarrow> rest_config \<Rightarrow> string + rest_config" where
  "setConfigDefaults env config =
     (let config1 = config\<lparr>rc_group_version := Some SchemeGroupVersion, rc_api_path := ''/apis''\<rparr>
      in case se_add_to_scheme env of
           Some err \<Rightarrow> Inl err
         | None \<Rightarrow> Inr (if rc_user_agent config1 = '''' then config1\<lparr>rc_user_agent := se_default_agent env\<rparr> else config1))"

definition rr_New :: "'c startup_env \<Rightarrow> string + 'c" where
  "rr_New env =
     (case (if se_config_file env then se_from_file env else se_in_cluster env) of
        Inl err \<Rightarrow> Inl err
      | Inr kubeconfig \<Rightarrow>
         (case setConfigDefaults env kubeconfig of
            Inl err \<Rightarrow> Inl err
          | Inr config \<Rightarrow> se_rest_client env config))"

section \<open>The definition of the custom resource\<close>

record crd =
  crd_group :: string
  crd_plural :: string
  crd_version :: string
  crd_entry_fields :: "string list"

definition resourcereservation_crd :: crd where
  "resourcereservation_crd =
     \<lparr>crd_group = ''scheduling.kubenexus.io'', crd_plural = ''resourcereservations'', crd_version = ''v1alpha1'',
      crd_entry_fields = [''node'', ''cpu'', ''memory'']\<rparr>"

datatype json_field = JString string | JQuantity quantity

text \<open>The entry of a member with the names of its fields on the wire, and back.\<close>

definition encode_entry :: "reservation \<Rightarrow> json_field gomap" where
  "encode_entry r =
     [(''node'', JString (rs_node r)), (''cpu'', JQuantity (rs_cpu r)), (''memory'', JQuantity (rs_memory r)),
      (''gpu'', JQuantity (rs_gpu r))]"

definition string_field :: "json_field gomap \<Rightarrow> string \<Rightarrow> string" where
  "string_field m k = (case lookup m k of Some (JString s) \<Rightarrow> s | _ \<Rightarrow> '''')"

definition quantity_field :: "json_field gomap \<Rightarrow> string \<Rightarrow> quantity" where
  "quantity_field m k = (case lookup m k of Some (JQuantity q) \<Rightarrow> q | _ \<Rightarrow> zero_quantity)"

definition decode_entry :: "json_field gomap \<Rightarrow> reservation" where
  "decode_entry m =
     \<lparr>rs_node = string_field m ''node'', rs_cpu = quantity_field m ''cpu'', rs_memory = quantity_field m ''memory'',
      rs_gpu = quantity_field m ''gpu''\<rparr>"

definition prune_fields :: "crd \<Rightarrow> json_field gomap \<Rightarrow> json_field gomap" where
  "prune_fields d m = filter (\<lambda>(k, _). k \<in> set (crd_entry_fields d)) m"

definition stored_entry :: "crd \<Rightarrow> reservation \<Rightarrow> reservation" where
  "stored_entry d r = decode_entry (prune_fields d (encode_entry r))"

definition stored :: "crd \<Rightarrow> resource_reservation \<Rightarrow> resource_reservation" where
  "stored d res = res\<lparr>rv_reservations := map (\<lambda>(k, r). (k, stored_entry d r)) (rv_reservations res)\<rparr>"

text \<open>A server behind a definition.\<close>

definition behind :: "crd \<Rightarrow> 'w reservation_api \<Rightarrow> 'w reservation_api" where
  "behind d api = api\<lparr>api_create := (\<lambda>res. api_create api (stored d res)), api_update := (\<lambda>res. api_update api (stored d res))\<rparr>"

lemma decode_encode: "decode_entry (encode_entry r) = r"
  by (cases r) (simp add: decode_entry_def encode_entry_def string_field_def quantity_field_def)

lemma stored_entry_crd: "stored_entry resourcereservation_crd r = r\<lparr>rs_gpu := zero_quantity\<rparr>"
  by (cases r) (simp add: stored_entry_def prune_fields_def encode_entry_def decode_entry_def string_field_def quantity_field_def
      resourcereservation_crd_def)

lemma same_id_stored [simp]: "same_id x (stored d res) = same_id x res"
  by (simp add: same_id_def stored_def)

section \<open>Properties\<close>

text \<open>A client that is set up sends its requests to the group, the version and the prefix under which the
  definition of the custom resource is served, with a user agent whenever there is a default one.  The
  configuration of the cluster is not a fallback: a configuration file that exists and is broken ends the start.\<close>

theorem rr_New_targets_crd:
  assumes "rr_New env = Inr client" "se_default_agent env \<noteq> ''''"
  shows "\<exists>config. se_rest_client env config = Inr client \<and>
      rc_group_version config = Some (crd_group resourcereservation_crd, crd_version resourcereservation_crd) \<and>
      rc_api_path config = ''/apis'' \<and> rc_user_agent config \<noteq> '''' \<and>
      (\<forall>e. se_config_file env \<longrightarrow> se_from_file env \<noteq> Inl e)"
proof -
  obtain kubeconfig config where
    k: "(if se_config_file env then se_from_file env else se_in_cluster env) = Inr kubeconfig"
    and c: "setConfigDefaults env kubeconfig = Inr config" "se_rest_client env config = Inr client"
    using assms(1) by (auto simp: rr_New_def split: sum.splits)
  have "rc_group_version config = Some (crd_group resourcereservation_crd, crd_version resourcereservation_crd)"
    "rc_api_path config = ''/apis''" "rc_user_agent config \<noteq> ''''"
    using c(1) assms(2)
    by (auto simp: setConfigDefaults_def SchemeGroupVersion_def GroupName_def Version_def resourcereservation_crd_def Let_def
        split: option.splits if_splits)
  then show ?thesis
    using c(2) k by (auto intro!: exI [of _ config])
qed

definition ex_env :: "string startup_env" where
  "ex_env = \<lparr>se_config_file = False, se_from_file = Inl ''none'',
     se_in_cluster = Inr \<lparr>rc_host = ''h'', rc_group_version = None, rc_api_path = '''', rc_user_agent = ''''\<rparr>,
     se_add_to_scheme = None, se_default_agent = ''kube'', se_rest_client = (\<lambda>c. Inr (rc_host c @ rc_api_path c))\<rparr>"

theorem rr_New_targets_crd_witness:
  "\<exists>config. se_rest_client ex_env config = Inr ''h/apis'' \<and> rc_group_version config = Some (''scheduling.kubenexus.io'', ''v1alpha1'')"
proof -
  have "rr_New ex_env = Inr ''h/apis''"
    by code_simp
  moreover have "se_default_agent ex_env \<noteq> ''''"
    by (simp add: ex_env_def)
  ultimately show ?thesis
    using rr_New_targets_crd [of ex_env "''h/apis''"] by (auto simp: resourcereservation_crd_def)
qed

text \<open>C21: The definition drops the GPUs of every reservation.  When the PreFilter phase runs for a member of a gang that is
  not tracked and has no object of its name in the namespace, on the in-memory server, which does not fail, behind
  the definition shipped with the scheduler, the object it stores is the one built for the gang, with an entry per
  member that has the CPU and the memory of the first container of the pod being scheduled, except that every entry
  has zero GPUs, whatever number of them the pod requests: the schema of the definition has no field for them.\<close>

theorem crd_forgets_gpus:
  assumes "pg_labels p = Inr (g, m)" "m \<ge> 2" "GetPodGroupKey (p_ns p) g \<notin> set (tracked_gangs st)"
    and "\<forall>x \<in> set (mw_objs (rr_world st)). \<not> same_id x (gang_reservation p g m)"
  shows "\<exists>t cs' st'. reservation_PreFilter (behind resourcereservation_crd mem_api) cs p st = (success, cs', st') \<and>
    mw_objs (rr_world st') = (gang_reservation p g m)\<lparr>rv_reservations :=
      map (\<lambda>(k, r). (k, r\<lparr>rs_gpu := zero_quantity\<rparr>)) (rv_reservations (gang_reservation p g m)), rv_created := t\<rparr> #
      mw_objs (rr_world st)"
proof -
  let ?res = "stored resourcereservation_crd (gang_reservation p g m)"
  have "\<forall>x \<in> set (mw_objs (rr_world st)). \<not> same_id x ?res"
    using assms(4) by simp
  from mem_server.create_objs [OF this] obtain t w where
    c: "api_create mem_api ?res (rr_world st) = (Inr (?res\<lparr>rv_created := t\<rparr>), w)"
      "mw_objs w = ?res\<lparr>rv_created := t\<rparr> # mw_objs (rr_world st)"
    by blast
  have "rv_reservations ?res = map (\<lambda>(k, r). (k, r\<lparr>rs_gpu := zero_quantity\<rparr>)) (rv_reservations (gang_reservation p g m))"
    by (simp add: stored_def stored_entry_crd)
  then have "?res = (gang_reservation p g m)\<lparr>rv_reservations :=
      map (\<lambda>(k, r). (k, r\<lparr>rs_gpu := zero_quantity\<rparr>)) (rv_reservations (gang_reservation p g m))\<rparr>"
    by (simp add: stored_def stored_entry_crd)
  then show ?thesis
    using assms(1,3) c isGangMember_labels [OF assms(1,2)]
    by (auto simp: reservation_PreFilter_def createGangReservations_def behind_def GetPodGroupKey_def Let_def)
qed

text \<open>Three members of eight GPUs each.\<close>

theorem crd_forgets_gpus_witness:
  "(\<exists>x \<in> set (mw_objs (rr_world (snd (snd (reservation_PreFilter (behind resourcereservation_crd mem_api) Map.empty ex_rpod ex_rr))))).
      \<forall>(k, r) \<in> set (rv_reservations x). rs_gpu r = zero_quantity) \<and>
   first_request gpu_resource ex_rpod \<noteq> zero_quantity"
proof -
  have "GetPodGroupKey (p_ns ex_rpod) ''w'' \<notin> set (tracked_gangs ex_rr)"
    "\<forall>x \<in> set (mw_objs (rr_world ex_rr)). \<not> same_id x (gang_reservation ex_rpod ''w'' 3)"
    by (simp_all add: ex_rr_def ex_world_def)
  moreover have "first_request gpu_resource ex_rpod \<noteq> zero_quantity"
    by code_simp
  ultimately show ?thesis
    using crd_forgets_gpus [OF ex_rpod_labels, of ex_rr Map.empty] by fastforce
qed

end
