(* ===== verification/ScoreArith.thy ===== *)
theory ScoreArith
  imports GoFloat KubeTypes
begin

text \<open>
  The floating-point percentages the score plugins share: the ratio of two 64-bit amounts times
  100, with its bounds and its monotonicity.
\<close>

named_theorems score_arith \<open>evaluation of percentages of admissible amounts\<close>

definition cap100 :: "float64 \<Rightarrow> float64" where
  "cap100 u = (if flt (Fin 100) u then Fin 100 else u)"

definition amount :: "int \<Rightarrow> bool" where
  "amount n \<longleftrightarrow> 0 \<le> n \<and> i64 n"

lemma to_f64_nonneg [score_arith]: "0 \<le> x \<Longrightarrow> x \<le> 1000000000000000000000000000000 \<Longrightarrow> to_f64 x = Fin (fl x)"
  by (simp add: to_f64_Fin)

definition percent :: "int \<Rightarrow> int \<Rightarrow> rat" where
  "percent r a = min 100 (fl (fl (fl (of_int r) / fl (of_int a)) * 100))"

lemma fl_of_int_bounds:
  assumes "amount n"
  shows "0 \<le> fl (of_int n)" "fl (of_int n) \<le> 9223372036854775808" "0 < n \<Longrightarrow> 1 \<le> fl (of_int n)"
proof -
  have "0 \<le> n" "n \<le> 9223372036854775808" using assms by (simp_all add: amount_def i64_def)
  then have n: "(0::rat) \<le> of_int n" "(of_int n :: rat) \<le> of_int 9223372036854775808"
    by (simp_all only: of_int_le_iff of_int_0_le_iff)
  show "0 \<le> fl (of_int n)" using n(1) by (rule fl_nonneg)
  have "fl (of_int 1 * 2 powi 63) = (of_int 1 * 2 powi 63 :: rat)" by (rule fl_exact) simp_all
  then have "fl (of_int 9223372036854775808) = 9223372036854775808" by (simp add: powi2_nat)
  then show "fl (of_int n) \<le> 9223372036854775808" using fl_mono [OF n(2)] by simp
  show "1 \<le> fl (of_int n)" if "0 < n"
    using fl_ge_int [of 1 "of_int n"] that by simp
qed

lemma percent_float:
  assumes "amount r" "amount a" "0 < a"
  shows "cap100 (fmul (fdiv (f_int r) (f_int a)) (Fin 100)) = Fin (percent r a)"
    and "0 \<le> percent r a" "percent r a \<le> 100"
proof -
  note br = fl_of_int_bounds [OF assms(1)] and ba = fl_of_int_bounds [OF assms(2)]
  have a: "1 \<le> fl (of_int a)" using ba(3) assms(3) .
  have q: "0 \<le> fl (of_int r) / fl (of_int a)" "fl (of_int r) / fl (of_int a) \<le> 9223372036854775808"
    using br(1,2) a by (simp_all add: pos_divide_le_eq)
  define x where "x = fl (fl (of_int r) / fl (of_int a))"
  have "x \<le> of_int 9223372036854775808"
  proof -
    have "fl (of_int 1 * 2 powi 63) = (of_int 1 * 2 powi 63 :: rat)" by (rule fl_exact) simp_all
    then have "fl 9223372036854775808 = 9223372036854775808" by (simp add: powi2_nat)
    then show ?thesis using fl_mono [OF q(2)] by (simp add: x_def)
  qed
  then have x: "0 \<le> x" "x \<le> 9223372036854775808" using fl_nonneg [OF q(1)] by (simp_all add: x_def)
  have d: "fdiv (f_int r) (f_int a) = Fin x"
    using assms(1,2) a q by (simp add: f_int_Fin amount_def to_f64_nonneg x_def)
  have m: "to_f64 (x * 100) = Fin (fl (x * 100))"
    using x by (simp add: to_f64_nonneg)
  show "cap100 (fmul (fdiv (f_int r) (f_int a)) (Fin 100)) = Fin (percent r a)"
    by (simp add: d m cap100_def percent_def x_def [symmetric] min_def)
  show "0 \<le> percent r a" using fl_nonneg [of "x * 100"] x by (simp add: percent_def x_def [symmetric])
  show "percent r a \<le> 100" by (simp add: percent_def)
qed

lemma percent_mono:
  assumes "r \<le> r'" "amount a" "0 < a"
  shows "percent r a \<le> percent r' a"
proof -
  have "1 \<le> fl (of_int a)" using fl_of_int_bounds(3) [OF assms(2,3)] .
  moreover have "fl (of_int r) \<le> fl (of_int r')" using assms(1) by (intro fl_mono) simp
  ultimately have "fl (fl (of_int r) / fl (of_int a)) \<le> fl (fl (of_int r') / fl (of_int a))"
    by (intro fl_mono divide_right_mono) (use assms(1) in simp_all)
  then have "fl (fl (fl (of_int r) / fl (of_int a)) * 100) \<le> fl (fl (fl (of_int r') / fl (of_int a)) * 100)"
    by (intro fl_mono) simp
  then show ?thesis by (simp add: percent_def min.mono)
qed

text \<open>The truncation of a percentage is a monotone map into the scores.\<close>

lemma f_to_int_percent: "0 \<le> x \<Longrightarrow> x \<le> 100 \<Longrightarrow> 0 \<le> f_to_int (Fin x) \<and> f_to_int (Fin x) \<le> 100"
  using f_to_int_range [of 0 x 100] by (simp add: i64_def)

lemma f_to_int_mono:
  assumes "0 \<le> x" "x \<le> y" "y \<le> 100"
  shows "f_to_int (Fin x) \<le> f_to_int (Fin y)"
proof -
  have "trunc x \<le> trunc y" "0 \<le> trunc x" "trunc y \<le> 100"
    using trunc_mono [of x y] trunc_mono [of 0 x] trunc_mono [of y 100] assms trunc_of_int [of 0] trunc_of_int [of 100]
    by simp_all
  then show ?thesis by (simp add: i64_def)
qed

text \<open>
  A value that is not negative: what sums, scaled ratios and products of amounts always are,
  overflow to infinity included.
\<close>

definition fnn :: "float64 \<Rightarrow> bool" where
  "fnn v \<longleftrightarrow> v = Inf True \<or> (\<exists>x \<ge> 0. v = Fin x)"

lemma fnn_Fin [simp]: "fnn (Fin x) \<longleftrightarrow> 0 \<le> x"
  by (auto simp: fnn_def)

lemma fnn_to_f64: "0 \<le> x \<Longrightarrow> fnn (to_f64 x)"
  using fl_nonneg [of x] by (auto simp: fnn_def to_f64_def Let_def)

lemma fnn_f_int: "0 \<le> n \<Longrightarrow> fnn (f_int n)"
  by (simp add: f_int_def fnn_to_f64)

lemma fnn_fadd: "fnn a \<Longrightarrow> fnn b \<Longrightarrow> fnn (fadd a b)"
  by (auto simp: fnn_def [of a] fnn_def [of b] fnn_to_f64) (simp_all add: fnn_def)

lemma fnn_fmul: "fnn a \<Longrightarrow> 0 < c \<Longrightarrow> fnn (fmul a (Fin c))"
  by (auto simp: fnn_def [of a] fnn_to_f64) (simp add: fnn_def)

lemma fnn_fdiv: "fnn a \<Longrightarrow> 0 < c \<Longrightarrow> fnn (fdiv a (Fin c))"
  by (auto simp: fnn_def [of a] fnn_to_f64) (simp add: fnn_def)

lemma f_int_pos:
  assumes "amount n" "0 < n"
  obtains c where "f_int n = Fin c" "0 < c"
  using that [of "fl (of_int n)"] fl_of_int_bounds(3) [OF assms] assms(1) by (simp add: f_int_Fin amount_def)

lemma fnn_ratio: "fnn a \<Longrightarrow> amount n \<Longrightarrow> 0 < n \<Longrightarrow> fnn (fmul (fdiv a (f_int n)) (Fin 100))"
  by (rule f_int_pos [of n]) (auto intro: fnn_fmul fnn_fdiv)

lemma cap100_fnn:
  assumes "fnn v"
  obtains x where "cap100 v = Fin x" "0 \<le> x" "x \<le> 100"
proof -
  have "cap100 v = Fin 100 \<or> (\<exists>x. cap100 v = Fin x \<and> 0 \<le> x \<and> x \<le> 100)"
    using assms by (auto simp: fnn_def cap100_def)
  then show thesis using that by fastforce
qed

lemma f_int_eq_0: "amount n \<Longrightarrow> feq (f_int n) (Fin 0) \<longleftrightarrow> n = 0"
  using fl_of_int_bounds(3) [of n] by (auto simp: amount_def f_int_Fin order_le_less)

end
