(* ===== verification/WorkloadAware.thy ===== *)
theory WorkloadAware
  imports Profile Interfaces ScoreArith
begin

text \<open>
  \<^verbatim>\<open>pkg/plugins/workloadaware/workloadaware.go\<close>: bin packing for batch workloads and
  spreading for services, by the weighted utilization of a node in floating point.
\<close>

section \<open>Model\<close>

definition WeightCPU :: float64 where
  "WeightCPU = to_f64 (35 / 100)"

definition WeightMemory :: float64 where
  "WeightMemory = to_f64 (35 / 100)"

definition WeightGPU :: float64 where
  "WeightGPU = to_f64 (30 / 100)"

text \<open>The classification is a string of the profile or a local workload type.\<close>

definition wa_getWorkloadTypeFromProfile :: "'o cycle_state option \<Rightarrow> pod \<Rightarrow> string + workload_type" where
  "wa_getWorkloadTypeFromProfile state p =
     (case GetProfile state of
        Inr profile \<Rightarrow> Inl (workload_string (sp_workload profile))
      | Inl _ \<Rightarrow> Inr (ClassifyPod (Some p)))"

text \<open>The result is the utilization or an error; the code returns no error.\<close>

definition calculateNodeUtilization :: "node_info \<Rightarrow> string + float64" where
  "calculateNodeUtilization nodeInfo =
     (case ni_node nodeInfo of
        None \<Rightarrow> Inr (Fin 0)
      | Some node \<Rightarrow>
         (let allocatableCPU = f_int (q_milli (res_cpu (n_allocatable node)));
              allocatableMemory = f_int (q_value (res_memory (n_allocatable node)));
              allocatableGPU = gpu_value (n_allocatable node)
          in if feq allocatableCPU (Fin 0) \<or> feq allocatableMemory (Fin 0) then Inr (Fin 0)
             else let requestedCPU = f_int (ni_req_cpu nodeInfo);
                      requestedMemory = f_int (ni_req_memory nodeInfo);
                      requestedGPU = (case lookup (ni_req_scalar nodeInfo) gpu_resource of None \<Rightarrow> Fin 0 | Some v \<Rightarrow> f_int v);
                      cpuUtilization = fmul (fdiv requestedCPU allocatableCPU) (Fin 100);
                      memoryUtilization = fmul (fdiv requestedMemory allocatableMemory) (Fin 100);
                      gpuUtilization = (if allocatableGPU > 0 then fmul (fdiv requestedGPU (f_int allocatableGPU)) (Fin 100) else Fin 0)
             in Inr (fadd (fadd (fmul (cap100 cpuUtilization) WeightCPU) (fmul (cap100 memoryUtilization) WeightMemory))
                       (fmul (cap100 gpuUtilization) WeightGPU))))"

definition WorkloadAware_Score :: "'o cycle_state option \<Rightarrow> pod \<Rightarrow> node_info \<Rightarrow> int \<times> status" where
  "WorkloadAware_Score state p nodeInfo =
     (let workloadType = wa_getWorkloadTypeFromProfile state p
      in (case calculateNodeUtilization nodeInfo of
            Inl err \<Rightarrow> (0, mk_status Error (''informer cache not ready: '' @ err))
          | Inr utilization \<Rightarrow>
             (if workloadType = Inr TypeBatch \<or> workloadType = Inl ''batch'' \<or> workloadType = Inl ''training''
              then f_to_int utilization
              else f_to_int (fsub (Fin 100) utilization), success)))"

section \<open>The utilization is a percentage\<close>

text \<open>
  What the API server and the scheduler cache guarantee of a node: amounts are 64-bit and not
  negative.
\<close>

definition admissible_node :: "node_info \<Rightarrow> bool" where
  "admissible_node ni \<longleftrightarrow>
     amount (ni_req_cpu ni) \<and> amount (ni_req_memory ni) \<and>
     (\<forall>v. lookup (ni_req_scalar ni) gpu_resource = Some v \<longrightarrow> amount v) \<and>
     (\<forall>n. ni_node ni = Some n \<longrightarrow>
        amount (q_milli (res_cpu (n_allocatable n))) \<and> amount (q_value (res_memory (n_allocatable n))) \<and>
        amount (gpu_value (n_allocatable n)))"

text \<open>The weighted sum, and the value of the weights at full utilization: exactly 35, 35 and 30.\<close>

definition weighted :: "rat \<Rightarrow> rat \<Rightarrow> rat \<Rightarrow> rat" where
  "weighted c m g = fl (fl (fl (c * fl (35 / 100)) + fl (m * fl (35 / 100))) + fl (g * fl (30 / 100)))"

lemma weights: "WeightCPU = Fin (fl (35 / 100))" "WeightMemory = Fin (fl (35 / 100))" "WeightGPU = Fin (fl (30 / 100))"
  by (simp_all add: WeightCPU_def WeightMemory_def WeightGPU_def to_f64_Fin)

lemma weight_bounds: "0 \<le> fl (35 / 100)" "0 \<le> fl (30 / 100)" "fl (35 / 100) \<le> 1" "fl (30 / 100) \<le> 1"
  using fl_nonneg [of "35 / 100"] fl_nonneg [of "30 / 100"] fl_le_int [of 1 "35 / 100"] fl_le_int [of 1 "30 / 100"]
  by simp_all

lemma weight_full: "fl (100 * fl (35 / 100)) = 35" "fl (100 * fl (30 / 100)) = 30"
  by code_simp+

lemma weighted_mono: "c \<le> c' \<Longrightarrow> m \<le> m' \<Longrightarrow> g \<le> g' \<Longrightarrow> weighted c m g \<le> weighted c' m' g'"
  unfolding weighted_def by (intro fl_mono add_mono mult_right_mono weight_bounds)

lemma weighted_0_100:
  assumes "0 \<le> c" "c \<le> 100" "0 \<le> m" "m \<le> 100" "0 \<le> g" "g \<le> 100"
  shows "0 \<le> weighted c m g \<and> weighted c m g \<le> 100"
proof -
  have "weighted 0 0 0 \<le> weighted c m g" "weighted c m g \<le> weighted 100 100 100"
    using assms by (simp_all add: weighted_mono)
  moreover have "weighted 0 0 0 = 0" by (simp add: weighted_def)
  moreover have "weighted 100 100 100 = 100"
    unfolding weighted_def weight_full using fl_of_int [of 70] fl_of_int [of 100] by simp
  ultimately show ?thesis by simp
qed

text \<open>The utilization of an admissible node as a rational number.\<close>

definition node_util :: "node_info \<Rightarrow> rat" where
  "node_util ni =
     (case ni_node ni of
        None \<Rightarrow> 0
      | Some n \<Rightarrow>
         (let a = n_allocatable n; cpu = q_milli (res_cpu a); mem = q_value (res_memory a); gpu = gpu_value a;
              req_gpu = (case lookup (ni_req_scalar ni) gpu_resource of None \<Rightarrow> 0 | Some v \<Rightarrow> v)
          in if cpu = 0 \<or> mem = 0 then 0
             else weighted (percent (ni_req_cpu ni) cpu) (percent (ni_req_memory ni) mem)
                    (if gpu > 0 then percent req_gpu gpu else 0)))"

lemma weight_float:
  assumes "0 \<le> x" "x \<le> 100"
  shows "fmul (Fin x) WeightCPU = Fin (fl (x * fl (35 / 100)))" "fmul (Fin x) WeightMemory = Fin (fl (x * fl (35 / 100)))"
    "fmul (Fin x) WeightGPU = Fin (fl (x * fl (30 / 100)))"
    and "0 \<le> fl (x * fl (35 / 100)) \<and> fl (x * fl (35 / 100)) \<le> 100"
    "0 \<le> fl (x * fl (30 / 100)) \<and> fl (x * fl (30 / 100)) \<le> 100"
proof -
  have w: "0 \<le> x * fl (35 / 100)" "x * fl (35 / 100) \<le> 100" "0 \<le> x * fl (30 / 100)" "x * fl (30 / 100) \<le> 100"
    using assms weight_bounds mult_mono [of x 100 "fl (35 / 100)" 1] mult_mono [of x 100 "fl (30 / 100)" 1] by simp_all
  then show "fmul (Fin x) WeightCPU = Fin (fl (x * fl (35 / 100)))" "fmul (Fin x) WeightMemory = Fin (fl (x * fl (35 / 100)))"
    "fmul (Fin x) WeightGPU = Fin (fl (x * fl (30 / 100)))"
    by (simp_all add: weights to_f64_nonneg)
  show "0 \<le> fl (x * fl (35 / 100)) \<and> fl (x * fl (35 / 100)) \<le> 100" "0 \<le> fl (x * fl (30 / 100)) \<and> fl (x * fl (30 / 100)) \<le> 100"
    using w fl_nonneg fl_le_int [of 100] by simp_all
qed

lemma weighted_float:
  assumes "0 \<le> c" "c \<le> 100" "0 \<le> m" "m \<le> 100" "0 \<le> g" "g \<le> 100"
  shows "fadd (fadd (fmul (Fin c) WeightCPU) (fmul (Fin m) WeightMemory)) (fmul (Fin g) WeightGPU) = Fin (weighted c m g)"
proof -
  define x where "x = fl (c * fl (35 / 100)) + fl (m * fl (35 / 100))"
  define y where "y = fl (g * fl (30 / 100))"
  have x: "0 \<le> x" "x \<le> 200" and y: "0 \<le> y" "y \<le> 100"
    using weight_float(4) [OF assms(1,2)] weight_float(4) [OF assms(3,4)] weight_float(5) [OF assms(5,6)]
    by (simp_all add: x_def y_def)
  have "0 \<le> fl x" "fl x \<le> 200" using x fl_nonneg [of x] fl_le_int [of 200 x] by simp_all
  then have "to_f64 x = Fin (fl x)" "to_f64 (fl x + y) = Fin (fl (fl x + y))" using x y by (simp_all add: to_f64_nonneg)
  then show ?thesis
    unfolding weight_float(1) [OF assms(1,2)] weight_float(2) [OF assms(3,4)] weight_float(3) [OF assms(5,6)] weighted_def
      x_def [symmetric] y_def [symmetric] fadd.simps(1)
    by (simp only: fadd.simps(1))
qed

lemma node_util_float:
  assumes "admissible_node ni"
  shows "calculateNodeUtilization ni = Inr (Fin (node_util ni)) \<and> 0 \<le> node_util ni \<and> node_util ni \<le> 100"
proof (cases "ni_node ni")
  case None
  then show ?thesis by (simp add: calculateNodeUtilization_def node_util_def)
next
  case (Some n)
  define cpu where "cpu = q_milli (res_cpu (n_allocatable n))"
  define mem where "mem = q_value (res_memory (n_allocatable n))"
  define gpu where "gpu = gpu_value (n_allocatable n)"
  define rg where "rg = (case lookup (ni_req_scalar ni) gpu_resource of None \<Rightarrow> 0 | Some v \<Rightarrow> v)"
  have a: "amount cpu" "amount mem" "amount gpu" "amount (ni_req_cpu ni)" "amount (ni_req_memory ni)" "amount rg"
    using assms Some by (auto simp: admissible_node_def cpu_def mem_def gpu_def rg_def amount_def i64_def split: option.splits)
  show ?thesis
  proof (cases "cpu = 0 \<or> mem = 0")
    case True
    then show ?thesis
      using Some a by (auto simp: calculateNodeUtilization_def node_util_def Let_def f_int_eq_0 cpu_def [symmetric] mem_def [symmetric])
  next
    case False
    then have pos: "0 < cpu" "0 < mem" using a by (auto simp: amount_def)
    define g where "g = (if gpu > 0 then percent rg gpu else 0)"
    have g: "0 \<le> g" "g \<le> 100" using percent_float(2,3) [OF a(6,3)] by (simp_all add: g_def)
    have rgf: "(case lookup (ni_req_scalar ni) gpu_resource of None \<Rightarrow> Fin 0 | Some v \<Rightarrow> f_int v) = f_int rg"
      by (simp add: rg_def f_int_small split: option.split)
    have gf: "cap100 (if gpu > 0 then fmul (fdiv (f_int rg) (f_int gpu)) (Fin 100) else Fin 0) = Fin g"
    proof (cases "gpu > 0")
      case True
      then show ?thesis using percent_float(1) [OF a(6,3) True] by (simp only: g_def if_True)
    qed (simp add: g_def cap100_def)
    note pc = percent_float [OF a(4,1) pos(1)] and pm = percent_float [OF a(5,2) pos(2)]
    have u: "node_util ni = weighted (percent (ni_req_cpu ni) cpu) (percent (ni_req_memory ni) mem) g"
      using Some False by (simp add: node_util_def Let_def cpu_def [symmetric] mem_def [symmetric] gpu_def [symmetric] rg_def [symmetric] g_def)
    have "calculateNodeUtilization ni = Inr (Fin (node_util ni))"
      using Some False a(1,2) unfolding u
      by (simp add: calculateNodeUtilization_def Let_def f_int_eq_0 rgf cpu_def [symmetric] mem_def [symmetric] gpu_def [symmetric]
          gf pc(1) pm(1) weighted_float [OF pc(2,3) pm(2,3) g])
    with u weighted_0_100 [OF pc(2,3) pm(2,3) g] show ?thesis by simp
  qed
qed

lemma WorkloadAware_Score_eq:
  assumes "admissible_node ni"
  shows "WorkloadAware_Score state p ni =
    (if wa_getWorkloadTypeFromProfile state p \<in> {Inr TypeBatch, Inl ''batch'', Inl ''training''}
     then f_to_int (Fin (node_util ni)) else f_to_int (Fin (fl (100 - node_util ni))), success)"
proof -
  note u = node_util_float [OF assms]
  then have "fsub (Fin 100) (Fin (node_util ni)) = Fin (fl (100 - node_util ni))"
    by (intro fsub_Fin) simp
  with u show ?thesis by (simp add: WorkloadAware_Score_def Let_def)
qed

interpretation workload_aware: score_plugin
  "\<lambda>(state, p, ni). WorkloadAware_Score state p ni" "\<lambda>(_, _, ni). admissible_node ni"
proof unfold_locales
  fix i :: "'a cycle_state option \<times> pod \<times> node_info"
  assume "case i of (_, _, ni) \<Rightarrow> admissible_node ni"
  then obtain state p ni where i: "i = (state, p, ni)" "admissible_node ni" by (cases i) auto
  note u = node_util_float [OF i(2)]
  have "0 \<le> 100 - node_util ni" "100 - node_util ni \<le> 100" using u by simp_all
  then have f: "0 \<le> fl (100 - node_util ni)" "fl (100 - node_util ni) \<le> 100"
    using fl_nonneg fl_le_int [of 100] by simp_all
  show "st_code (snd (case i of (state, p, ni) \<Rightarrow> WorkloadAware_Score state p ni)) = Success"
    using i by (simp add: WorkloadAware_Score_eq)
  show "0 \<le> fst (case i of (state, p, ni) \<Rightarrow> WorkloadAware_Score state p ni) \<and>
    fst (case i of (state, p, ni) \<Rightarrow> WorkloadAware_Score state p ni) \<le> MaxNodeScore"
    using i f u f_to_int_range [of 0 "node_util ni" 100] f_to_int_range [of 0 "fl (100 - node_util ni)" 100]
    by (simp add: WorkloadAware_Score_eq MaxNodeScore_def i64_def)
qed

section \<open>Properties\<close>

definition ex_quantity :: "int \<Rightarrow> quantity" where
  "ex_quantity n = \<lparr>q_milli = n, q_value = n, q_is_zero = (n = 0)\<rparr>"

definition ex_node_info :: "int \<Rightarrow> node_info" where
  "ex_node_info cpu = \<lparr>ni_node = Some \<lparr>n_name = ''n1'', n_labels = [],
       n_allocatable = [(''cpu'', ex_quantity 4000), (''memory'', ex_quantity 8000), (gpu_resource, ex_quantity 8)],
       n_capacity = []\<rparr>,
     ni_req_cpu = cpu, ni_req_memory = 9000, ni_req_scalar = [(gpu_resource, 8)]\<rparr>"

lemma ex_node_info_admissible: "amount cpu \<Longrightarrow> admissible_node (ex_node_info cpu)"
  by (simp add: admissible_node_def ex_node_info_def ex_quantity_def res_cpu_def res_memory_def gpu_value_def amount_def i64_def gpu_resource_def)

text \<open>The score of a node whose amounts are 64-bit and not negative is always between 0 and 100, the
  range the framework accepts, overcommitted nodes included, and scoring never fails: the weights
  0.35, 0.35 and 0.30 add up to exactly 100 percent in floating point.\<close>

theorem WorkloadAware_Score_contract:
  assumes "admissible_node ni"
  shows "st_code (snd (WorkloadAware_Score state p ni)) = Success \<and>
    0 \<le> fst (WorkloadAware_Score state p ni) \<and> fst (WorkloadAware_Score state p ni) \<le> 100"
  using workload_aware.score_ok [of "(state, p, ni)"] workload_aware.score_range [of "(state, p, ni)"] assms
  by (simp add: MaxNodeScore_def)

lemma WorkloadAware_Score_contract_witness:
  "fst (WorkloadAware_Score (None :: unit cycle_state option) ex_gang_pod (ex_node_info 8000)) \<le> 100 \<and>
   fst (WorkloadAware_Score (None :: unit cycle_state option) ex_gang_pod (ex_node_info 8000)) = 100"
proof -
  have "admissible_node (ex_node_info 8000)" by (rule ex_node_info_admissible) (simp add: amount_def i64_def)
  from WorkloadAware_Score_contract [OF this, of "None :: unit cycle_state option" ex_gang_pod]
  have "fst (WorkloadAware_Score (None :: unit cycle_state option) ex_gang_pod (ex_node_info 8000)) \<le> 100" by blast
  moreover have "fst (WorkloadAware_Score (None :: unit cycle_state option) ex_gang_pod (ex_node_info 8000)) = 100" by code_simp
  ultimately show ?thesis by (rule conjI)
qed

lemma node_util_mono:
  assumes "admissible_node a" "admissible_node b" "ni_node a = ni_node b"
    and "ni_req_cpu a \<le> ni_req_cpu b" "ni_req_memory a \<le> ni_req_memory b" "ni_req_scalar a = ni_req_scalar b"
  shows "node_util a \<le> node_util b"
proof (cases "ni_node a")
  case (Some n)
  then have am: "amount (q_milli (res_cpu (n_allocatable n)))" "amount (q_value (res_memory (n_allocatable n)))"
    using assms(1) by (simp_all add: admissible_node_def)
  show ?thesis
  proof (cases "q_milli (res_cpu (n_allocatable n)) = 0 \<or> q_value (res_memory (n_allocatable n)) = 0")
    case False
    then have "0 < q_milli (res_cpu (n_allocatable n))" "0 < q_value (res_memory (n_allocatable n))"
      using am by (auto simp: amount_def)
    moreover have "ni_node b = Some n" using Some assms(3) by simp
    ultimately show ?thesis
      using am Some assms(4-6) by (simp add: node_util_def Let_def weighted_mono percent_mono)
  qed (use Some assms(3) in \<open>auto simp: node_util_def\<close>)
qed (use assms(3) in \<open>simp add: node_util_def\<close>)

text \<open>Batch pods are packed and services are spread: of two nodes of equal size the one with more CPU
  and memory requested scores at least as high for a batch pod, and at most as high for any other,
  through every rounding of the computation.\<close>

theorem WorkloadAware_packs_and_spreads:
  assumes "admissible_node a" "admissible_node b" "ni_node a = ni_node b"
    and "ni_req_cpu a \<le> ni_req_cpu b" "ni_req_memory a \<le> ni_req_memory b" "ni_req_scalar a = ni_req_scalar b"
  shows "if wa_getWorkloadTypeFromProfile state p \<in> {Inr TypeBatch, Inl ''batch'', Inl ''training''}
    then fst (WorkloadAware_Score state p a) \<le> fst (WorkloadAware_Score state p b)
    else fst (WorkloadAware_Score state p b) \<le> fst (WorkloadAware_Score state p a)"
proof -
  note mono = f_to_int_mono
  note ua = node_util_float [OF assms(1)] and ub = node_util_float [OF assms(2)] and le = node_util_mono [OF assms]
  have "fl (100 - node_util b) \<le> fl (100 - node_util a)" "0 \<le> fl (100 - node_util b)" "fl (100 - node_util a) \<le> 100"
    using fl_mono [of "100 - node_util b" "100 - node_util a"] fl_nonneg [of "100 - node_util b"] fl_le_int [of 100 "100 - node_util a"] ua ub le
    by simp_all
  then show ?thesis
    using mono [of "node_util a" "node_util b"] mono [of "fl (100 - node_util b)" "fl (100 - node_util a)"] ua ub le
    by (simp add: WorkloadAware_Score_eq assms(1,2))
qed

lemma WorkloadAware_packs_and_spreads_witness:
  "fst (WorkloadAware_Score (None :: unit cycle_state option) ex_gang_pod (ex_node_info 1000)) \<le>
   fst (WorkloadAware_Score (None :: unit cycle_state option) ex_gang_pod (ex_node_info 3000))"
proof -
  have "admissible_node (ex_node_info 1000)" "admissible_node (ex_node_info 3000)"
    by (rule ex_node_info_admissible, simp add: amount_def i64_def)+
  moreover have "ni_node (ex_node_info 1000) = ni_node (ex_node_info 3000)" "ni_req_cpu (ex_node_info 1000) \<le> ni_req_cpu (ex_node_info 3000)"
    "ni_req_memory (ex_node_info 1000) \<le> ni_req_memory (ex_node_info 3000)" "ni_req_scalar (ex_node_info 1000) = ni_req_scalar (ex_node_info 3000)"
    by (simp_all add: ex_node_info_def)
  moreover have "wa_getWorkloadTypeFromProfile (None :: unit cycle_state option) ex_gang_pod = Inr TypeBatch" by code_simp
  ultimately show ?thesis
    using WorkloadAware_packs_and_spreads [of "ex_node_info 1000" "ex_node_info 3000" "None :: unit cycle_state option" ex_gang_pod]
    by (simp only: insertI1 if_True)
qed

end
