(* ===== verification/TopologySpread.thy ===== *)
theory TopologySpread
  imports ScoreArith Profile Interfaces "HOL-Library.AList"
begin

text \<open>
  \<^verbatim>\<open>pkg/plugins/topologyspread/topologyspread.go\<close>: a service prefers the zones with the
  smaller share of the nodes.  The snapshot of the nodes is an argument; the map of the zones is an
  association list, and its sum does not depend on the order of the iteration.
\<close>

section \<open>Model\<close>

definition ZoneLabel :: string where
  "ZoneLabel = ''topology.kubernetes.io/zone''"

definition ts_getWorkloadTypeFromProfile :: "'o cycle_state option \<Rightarrow> pod \<Rightarrow> string" where
  "ts_getWorkloadTypeFromProfile state p =
     (case GetProfile state of
        Inr profile \<Rightarrow> to_lower (workload_string (sp_workload profile))
      | Inl _ \<Rightarrow> (case ClassifyPod (Some p) of TypeBatch \<Rightarrow> ''batch'' | TypeService \<Rightarrow> ''service''))"

fun zone_counts :: "node_info list \<Rightarrow> int gomap \<Rightarrow> int gomap" where
  "zone_counts [] distribution = distribution"
| "zone_counts (ni # nis) distribution =
     zone_counts nis
       (case ni_node ni of
          None \<Rightarrow> distribution
        | Some node \<Rightarrow>
           (case lookup (n_labels node) ZoneLabel of
              None \<Rightarrow> distribution
            | Some zone \<Rightarrow>
                AList.update zone ((case lookup distribution zone of None \<Rightarrow> 0 | Some c \<Rightarrow> c) + 1) distribution))"

definition calculateZoneDistribution :: "string + node_info list \<Rightarrow> int gomap" where
  "calculateZoneDistribution snapshot = (case snapshot of Inl _ \<Rightarrow> [] | Inr nis \<Rightarrow> zone_counts nis [])"

definition TopologySpread_Score ::
  "string + node_info list \<Rightarrow> 'o cycle_state option \<Rightarrow> pod \<Rightarrow> node_info \<Rightarrow> int \<times> status" where
  "TopologySpread_Score snapshot state p nodeInfo =
     (case ni_node nodeInfo of
        None \<Rightarrow> (0, mk_status Error ''node is nil'')
      | Some node \<Rightarrow>
         (let t = ts_getWorkloadTypeFromProfile state p
          in if t = ''batch'' \<or> t = ''training'' then (quot MaxNodeScore 2, success)
             else (case lookup (n_labels node) ZoneLabel of
                     None \<Rightarrow> (quot MaxNodeScore 2, success)
                   | Some zone \<Rightarrow>
                      (let zoneDistribution = calculateZoneDistribution snapshot;
                           podsInThisZone = (case lookup zoneDistribution zone of None \<Rightarrow> 0 | Some c \<Rightarrow> c);
                           totalPods = foldl (\<lambda>acc (_, count). acc + count) 0 zoneDistribution
                       in if totalPods = 0 then (MaxNodeScore, success)
                          else (f_to_int (fmul (f_int MaxNodeScore)
                                  (fsub (Fin 1) (fdiv (f_int podsInThisZone) (f_int totalPods)))), success)))))"

section \<open>What the map counts\<close>

definition in_zone :: "string \<Rightarrow> node_info \<Rightarrow> bool" where
  "in_zone z ni \<longleftrightarrow> (\<exists>n. ni_node ni = Some n \<and> lookup (n_labels n) ZoneLabel = Some z)"

definition zoned :: "node_info \<Rightarrow> bool" where
  "zoned ni \<longleftrightarrow> (\<exists>z. in_zone z ni)"

lemma zoned_cases:
  obtains (unzoned) "\<not> zoned ni"
    "(case ni_node ni of None \<Rightarrow> d | Some node \<Rightarrow> (case lookup (n_labels node) ZoneLabel of None \<Rightarrow> d | Some zone \<Rightarrow> f zone)) = d"
  | (zoned) z where "in_zone z ni" "zoned ni" "\<And>z'. in_zone z' ni \<longleftrightarrow> z' = z"
    "(case ni_node ni of None \<Rightarrow> d | Some node \<Rightarrow> (case lookup (n_labels node) ZoneLabel of None \<Rightarrow> d | Some zone \<Rightarrow> f zone)) = f z"
proof (cases "ni_node ni")
  case (Some n)
  show thesis
    using Some that by (cases "lookup (n_labels n) ZoneLabel") (auto simp: in_zone_def zoned_def)
qed (use that in \<open>auto simp: in_zone_def zoned_def\<close>)

definition count_of :: "int gomap \<Rightarrow> string \<Rightarrow> int" where
  "count_of d z = (case lookup d z of None \<Rightarrow> 0 | Some c \<Rightarrow> c)"

lemma zone_counts_lookup: "count_of (zone_counts nis d) z = count_of d z + count_if (in_zone z) nis"
proof (induction nis d rule: zone_counts.induct)
  case (2 ni nis d)
  show ?case
    by (cases ni rule: zoned_cases [where d = d and f = "\<lambda>zone. AList.update zone ((case lookup d zone of None \<Rightarrow> 0 | Some c \<Rightarrow> c) + 1) d"])
       (use 2 in \<open>auto simp: zoned_def count_of_def update_conv'\<close>)
qed (simp add: count_of_def)

definition total_of :: "int gomap \<Rightarrow> int" where
  "total_of d = sum_list (map snd d)"

lemma total_foldl: "foldl (\<lambda>acc (_, count). acc + count) a d = a + total_of d"
  by (induction d arbitrary: a) (auto simp: total_of_def)

lemma total_update: "total_of (AList.update z (count_of d z + 1) d) = total_of d + 1"
  by (induction d) (auto simp: total_of_def count_of_def)

lemma zone_counts_total: "total_of (zone_counts nis d) = total_of d + count_if zoned nis"
proof (induction nis d rule: zone_counts.induct)
  case (2 ni nis d)
  show ?case
    by (cases ni rule: zoned_cases [where d = d and f = "\<lambda>zone. AList.update zone ((case lookup d zone of None \<Rightarrow> 0 | Some c \<Rightarrow> c) + 1) d"])
       (use 2 total_update in \<open>auto simp: count_of_def\<close>)
qed simp

section \<open>The score\<close>

text \<open>The snapshot holds fewer than \<^verbatim>\<open>2^53\<close> nodes, so the counts are exact in floating point.\<close>

lemma share_float:
  assumes "0 \<le> c" "c \<le> t" "0 < t" "t \<le> 9007199254740992"
  shows "fmul (f_int 100) (fsub (Fin 1) (fdiv (f_int c) (f_int t))) = Fin (fl (100 * fl (1 - fl (of_int c / of_int t))))"
    and "0 \<le> fl (100 * fl (1 - fl (of_int c / of_int t))) \<and> fl (100 * fl (1 - fl (of_int c / of_int t))) \<le> 100"
proof -
  have q: "0 \<le> (of_int c / of_int t :: rat)" "(of_int c / of_int t :: rat) \<le> 1" using assms by simp_all
  define x where "x = fl (of_int c / of_int t)"
  have x: "0 \<le> x" "x \<le> 1" using fl_nonneg [OF q(1)] fl_le_int [of 1, OF _ ] q by (simp_all add: x_def)
  define y where "y = fl (1 - x)"
  have y: "0 \<le> y" "y \<le> 1" using fl_nonneg [of "1 - x"] fl_le_int [of 1 "1 - x"] x by (simp_all add: y_def)
  have i: "f_int c = Fin (of_int c)" "f_int t = Fin (of_int t)" "f_int 100 = Fin 100"
    using assms f_int_small [of c] f_int_small [of t] f_int_small [of 100] by simp_all
  have "to_f64 (of_int c / of_int t) = Fin x" unfolding x_def by (rule to_f64_nonneg) (use q in linarith)+
  then have d: "fdiv (f_int c) (f_int t) = Fin x" using i assms by simp
  have s: "fsub (Fin 1) (Fin x) = Fin y" using x by (simp add: fsub_def to_f64_nonneg y_def)
  have m: "fmul (Fin 100) (Fin y) = Fin (fl (100 * y))" using y by (simp add: to_f64_nonneg)
  show "fmul (f_int 100) (fsub (Fin 1) (fdiv (f_int c) (f_int t))) = Fin (fl (100 * fl (1 - fl (of_int c / of_int t))))"
    unfolding d s i(3) m by (simp only: x_def y_def)
  show "0 \<le> fl (100 * fl (1 - fl (of_int c / of_int t))) \<and> fl (100 * fl (1 - fl (of_int c / of_int t))) \<le> 100"
    using fl_nonneg [of "100 * y"] fl_le_int [of 100 "100 * y"] y by (simp add: x_def y_def)
qed

definition zone_score :: "int \<Rightarrow> int \<Rightarrow> int" where
  "zone_score c t = f_to_int (Fin (fl (100 * fl (1 - fl (of_int c / of_int t)))))"

lemma zone_score_range:
  "0 \<le> c \<Longrightarrow> c \<le> t \<Longrightarrow> 0 < t \<Longrightarrow> t \<le> 9007199254740992 \<Longrightarrow> 0 \<le> zone_score c t \<and> zone_score c t \<le> 100"
  using share_float(2) [of c t] f_to_int_range [of 0 _ 100] by (simp add: zone_score_def i64_def)

lemma zone_score_mono:
  assumes "0 \<le> c" "c \<le> c'" "c' \<le> t" "0 < t" "t \<le> 9007199254740992"
  shows "zone_score c' t \<le> zone_score c t"
proof -
  define s where "s = (\<lambda>c. fl (100 * fl (1 - fl (rat_of_int c / rat_of_int t))))"
  have "s c' \<le> s c" unfolding s_def
    using assms by (intro fl_mono mult_left_mono diff_left_mono divide_right_mono) simp_all
  moreover have "0 \<le> s c'" "s c \<le> 100" using share_float(2) [of c t] share_float(2) [of c' t] assms by (simp_all add: s_def)
  ultimately have "f_to_int (Fin (s c')) \<le> f_to_int (Fin (s c))" by (intro f_to_int_mono) simp_all
  then show ?thesis by (simp only: zone_score_def s_def)
qed

definition spread_pod :: "'o cycle_state option \<Rightarrow> pod \<Rightarrow> bool" where
  "spread_pod state p \<longleftrightarrow> ts_getWorkloadTypeFromProfile state p \<noteq> ''batch'' \<and> ts_getWorkloadTypeFromProfile state p \<noteq> ''training''"

lemma TopologySpread_Score_eq:
  assumes "in_zone z ni" "spread_pod state p" "int (length nis) \<le> 9007199254740992"
  shows "TopologySpread_Score (Inr nis) state p ni =
    (if count_if zoned nis = 0 then 100 else zone_score (count_if (in_zone z) nis) (count_if zoned nis), success)"
proof -
  have le: "count_if (in_zone z) nis \<le> count_if zoned nis"
    by (rule count_if_le) (auto simp: zoned_def)
  have t: "count_if zoned nis \<le> 9007199254740992" using count_if_le_length [of zoned nis] assms(3) by linarith
  have c: "count_of (zone_counts nis []) z = count_if (in_zone z) nis" using zone_counts_lookup [of nis "[]" z] by (simp add: count_of_def)
  have tot: "foldl (\<lambda>acc (_, count). acc + count) 0 (zone_counts nis []) = count_if zoned nis"
    using zone_counts_total [of nis "[]"] by (simp add: total_foldl total_of_def)
  have "fmul (f_int 100) (fsub (Fin 1) (fdiv (f_int (count_if (in_zone z) nis)) (f_int (count_if zoned nis)))) =
      Fin (fl (100 * fl (1 - fl (of_int (count_if (in_zone z) nis) / of_int (count_if zoned nis)))))" if "count_if zoned nis \<noteq> 0"
    by (rule share_float(1)) (use that le t count_if_nonneg [of zoned nis] count_if_nonneg [of "in_zone z" nis] in linarith)+
  then show ?thesis
    using assms(1,2) c by (auto simp: TopologySpread_Score_def in_zone_def spread_pod_def calculateZoneDistribution_def
        Let_def tot MaxNodeScore_def zone_score_def count_of_def)
qed

definition topology_admissible :: "(string + node_info list) \<times> 'o cycle_state option \<times> pod \<times> node_info \<Rightarrow> bool" where
  "topology_admissible i \<longleftrightarrow> (case i of (snapshot, _, _, ni) \<Rightarrow>
     ni_node ni \<noteq> None \<and> (\<forall>nis. snapshot = Inr nis \<longrightarrow> int (length nis) \<le> 9007199254740992))"

lemma TopologySpread_neutral:
  assumes "ni_node ni = Some n" "\<not> spread_pod state p \<or> \<not> zoned ni"
  shows "TopologySpread_Score snapshot state p ni = (50, success)"
proof -
  have "lookup (n_labels n) ZoneLabel = None" if "\<not> zoned ni"
    using that assms(1) by (cases "lookup (n_labels n) ZoneLabel") (auto simp: zoned_def in_zone_def)
  then show ?thesis using assms by (auto simp: TopologySpread_Score_def spread_pod_def MaxNodeScore_def Let_def)
qed

lemma TopologySpread_no_snapshot:
  "in_zone z ni \<Longrightarrow> spread_pod state p \<Longrightarrow> TopologySpread_Score (Inl e) state p ni = (100, success)"
  by (auto simp: TopologySpread_Score_def in_zone_def spread_pod_def calculateZoneDistribution_def MaxNodeScore_def Let_def)

lemma TopologySpread_range:
  assumes "topology_admissible (snapshot, state, p, ni)"
  shows "st_code (snd (TopologySpread_Score snapshot state p ni)) = Success \<and>
    0 \<le> fst (TopologySpread_Score snapshot state p ni) \<and> fst (TopologySpread_Score snapshot state p ni) \<le> 100"
proof -
  obtain n where n: "ni_node ni = Some n" using assms by (auto simp: topology_admissible_def)
  show ?thesis
  proof (cases "spread_pod state p \<and> zoned ni")
    case False
    then have "TopologySpread_Score snapshot state p ni = (50, success)" by (intro TopologySpread_neutral [OF n]) blast
    then show ?thesis by simp
  next
    case True
    then obtain z where z: "in_zone z ni" by (auto simp: zoned_def)
    show ?thesis
    proof (cases snapshot)
      case (Inl e)
      then show ?thesis using TopologySpread_no_snapshot [OF z, of state p e] True by simp
    next
      case (Inr nis)
      have len: "int (length nis) \<le> 9007199254740992" using assms Inr by (simp add: topology_admissible_def)
      have "count_if (in_zone z) nis \<le> count_if zoned nis" by (rule count_if_le) (auto simp: zoned_def)
      then have "count_if zoned nis \<noteq> 0 \<Longrightarrow> 0 \<le> zone_score (count_if (in_zone z) nis) (count_if zoned nis) \<and>
          zone_score (count_if (in_zone z) nis) (count_if zoned nis) \<le> 100"
        using count_if_le_length [of zoned nis] len count_if_nonneg [of zoned nis] count_if_nonneg [of "in_zone z" nis]
        by (intro zone_score_range) linarith+
      then show ?thesis using TopologySpread_Score_eq [OF z _ len, of state p] True Inr by simp
    qed
  qed
qed

interpretation topology_spread: score_plugin
  "\<lambda>(snapshot, state, p, ni). TopologySpread_Score snapshot state p ni" topology_admissible
proof unfold_locales
  fix i :: "(string + node_info list) \<times> 'a cycle_state option \<times> pod \<times> node_info"
  assume a: "topology_admissible i"
  obtain snapshot state p ni where i: "i = (snapshot, state, p, ni)" by (cases i)
  note r = TopologySpread_range [OF a [unfolded i]]
  show "st_code (snd (case i of (snapshot, state, p, ni) \<Rightarrow> TopologySpread_Score snapshot state p ni)) = Success"
    using r by (simp add: i)
  show "0 \<le> fst (case i of (snapshot, state, p, ni) \<Rightarrow> TopologySpread_Score snapshot state p ni) \<and>
    fst (case i of (snapshot, state, p, ni) \<Rightarrow> TopologySpread_Score snapshot state p ni) \<le> MaxNodeScore"
    using r by (simp add: i MaxNodeScore_def)
qed

section \<open>Properties\<close>

text \<open>For a service the zone with the smaller number of nodes in the snapshot never scores less: the
  score is an antitone function of the share of the nodes that lie in the zone, computed in floating
  point, stays between 0 and 100, and does not depend on how many pods run in a zone.\<close>

theorem TopologySpread_prefers_small_zones:
  assumes "in_zone z ni" "in_zone z' ni'" and "spread_pod state p" and "int (length nis) \<le> 9007199254740992"
    and "count_if (in_zone z) nis \<le> count_if (in_zone z') nis"
  shows "fst (TopologySpread_Score (Inr nis) state p ni') \<le> fst (TopologySpread_Score (Inr nis) state p ni) \<and>
    0 \<le> fst (TopologySpread_Score (Inr nis) state p ni') \<and> fst (TopologySpread_Score (Inr nis) state p ni) \<le> 100"
proof -
  have adm: "topology_admissible (Inr nis, state, p, ni)" "topology_admissible (Inr nis, state, p, ni')"
    using assms(1,2,4) by (auto simp: topology_admissible_def in_zone_def)
  have le: "count_if (in_zone z') nis \<le> count_if zoned nis" by (rule count_if_le) (auto simp: zoned_def)
  have "fst (TopologySpread_Score (Inr nis) state p ni') \<le> fst (TopologySpread_Score (Inr nis) state p ni)"
  proof (cases "count_if zoned nis = 0")
    case True
    then show ?thesis
      using TopologySpread_Score_eq [OF assms(1,3,4)] TopologySpread_Score_eq [OF assms(2,3,4)] by simp
  next
    case False
    then have "zone_score (count_if (in_zone z') nis) (count_if zoned nis) \<le> zone_score (count_if (in_zone z) nis) (count_if zoned nis)"
      using assms(4,5) le count_if_le_length [of zoned nis] count_if_nonneg [of zoned nis] count_if_nonneg [of "in_zone z" nis]
      by (intro zone_score_mono) linarith+
    with False show ?thesis
      using TopologySpread_Score_eq [OF assms(1,3,4)] TopologySpread_Score_eq [OF assms(2,3,4)] by simp
  qed
  then show ?thesis
    using topology_spread.score_range [OF adm(1)] topology_spread.score_range [OF adm(2)] by (simp add: MaxNodeScore_def)
qed

definition ex_zone_node :: "string \<Rightarrow> node_info" where
  "ex_zone_node z = \<lparr>ni_node = Some \<lparr>n_name = z, n_labels = [(ZoneLabel, z)], n_allocatable = [], n_capacity = []\<rparr>,
     ni_req_cpu = 0, ni_req_memory = 0, ni_req_scalar = []\<rparr>"

lemma TopologySpread_prefers_small_zones_witness:
  "fst (TopologySpread_Score (Inr (map ex_zone_node [''a'', ''b'', ''b''])) (None :: unit cycle_state option) empty_pod (ex_zone_node ''b'')) \<le>
   fst (TopologySpread_Score (Inr (map ex_zone_node [''a'', ''b'', ''b''])) (None :: unit cycle_state option) empty_pod (ex_zone_node ''a''))"
proof -
  have z: "in_zone ''a'' (ex_zone_node ''a'')" "in_zone ''b'' (ex_zone_node ''b'')"
    "\<not> in_zone ''a'' (ex_zone_node ''b'')" "\<not> in_zone ''b'' (ex_zone_node ''a'')"
    by (simp_all add: in_zone_def ex_zone_node_def)
  have s: "spread_pod (None :: unit cycle_state option) empty_pod" by code_simp
  have "count_if (in_zone ''a'') (map ex_zone_node [''a'', ''b'', ''b'']) \<le> count_if (in_zone ''b'') (map ex_zone_node [''a'', ''b'', ''b''])"
    by (simp add: z)
  from TopologySpread_prefers_small_zones [OF z(1,2) s _ this] show ?thesis by simp
qed

end
