(* ===== verification/Backfill.thy ===== *)
theory Backfill
  imports ScoreArith Profile Interfaces
begin

text \<open>
  \<^verbatim>\<open>pkg/plugins/backfill/backfill.go\<close>: preemptible pods prefer idle nodes, other pods prefer
  full ones, with a tenant penalty.  The pod lister is \<^verbatim>\<open>None\<close> before it is initialized.  The
  sums are floating-point sums over all the pods of the cluster.
\<close>

section \<open>Model\<close>

definition BackfillPriorityThreshold :: int where
  "BackfillPriorityThreshold = 100"

definition BackfillLabelKey :: string where
  "BackfillLabelKey = ''scheduling.kubenexus.io/backfill''"

definition reserved_tier_label :: string where
  "reserved_tier_label = ''tenant.kubenexus.io/reserved-tier''"

definition isBackfillEligible :: "pod \<Rightarrow> bool" where
  "isBackfillEligible p \<longleftrightarrow>
     (if lookup (p_labels p) BackfillLabelKey = Some ''true'' then True
      else (case p_priority p of None \<Rightarrow> False | Some v \<Rightarrow> v \<le> BackfillPriorityThreshold))"

definition getPreemptibilityFromProfile :: "'o cycle_state option \<Rightarrow> pod \<Rightarrow> bool" where
  "getPreemptibilityFromProfile state p =
     (case GetProfile state of Inr profile \<Rightarrow> sp_preemptible profile | Inl _ \<Rightarrow> isBackfillEligible p)"

definition bf_getTenantTierFromProfile :: "'o cycle_state option \<Rightarrow> pod \<Rightarrow> string" where
  "bf_getTenantTierFromProfile state p =
     (case GetProfile state of Inr profile \<Rightarrow> tier_string (sp_tier profile) | Inl _ \<Rightarrow> ''bronze'')"

definition bf_tierPriority :: "string \<Rightarrow> int" where
  "bf_tierPriority t =
     (case lookup [(''gold'', 3), (''silver'', 2), (''bronze'', 1)] t of None \<Rightarrow> 0 | Some v \<Rightarrow> v)"

definition calculateTenantAdjustment :: "string \<Rightarrow> node \<Rightarrow> float64" where
  "calculateTenantAdjustment tenantTier node =
     (case lookup (n_labels node) reserved_tier_label of
        None \<Rightarrow> Fin 0
      | Some reservedTier \<Rightarrow>
         (let podPriority = bf_tierPriority tenantTier; nodePriority = bf_tierPriority reservedTier
          in if podPriority < nodePriority then fneg (fmul (f_int (nodePriority - podPriority)) (Fin 15)) else Fin 0))"

text \<open>The literals \<^verbatim>\<open>0.35\<close> and \<^verbatim>\<open>0.30\<close>.\<close>

definition lit_35 :: float64 where
  "lit_35 = to_f64 (35 / 100)"

definition lit_30 :: float64 where
  "lit_30 = to_f64 (30 / 100)"

type_synonym float3 = "float64 \<times> float64 \<times> float64"

fun sum_containers :: "container list \<Rightarrow> float3 \<Rightarrow> float3" where
  "sum_containers [] acc = acc"
| "sum_containers (c # cs) (cpu, memory, gpu) =
     sum_containers cs
       (fadd cpu (f_int (q_milli (res_cpu (c_requests c)))),
        fadd memory (f_int (q_value (res_memory (c_requests c)))),
        case lookup (c_requests c) gpu_resource of None \<Rightarrow> gpu | Some q \<Rightarrow> fadd gpu (f_int (q_value q)))"

fun requested_on :: "string \<Rightarrow> pod list \<Rightarrow> float3 \<Rightarrow> float3" where
  "requested_on nodeName [] acc = acc"
| "requested_on nodeName (p # ps) acc =
     requested_on nodeName ps (if p_node p = nodeName then sum_containers (p_containers p) acc else acc)"

definition Backfill_Score :: "pod_lister option \<Rightarrow> 'o cycle_state option \<Rightarrow> pod \<Rightarrow> node_info \<Rightarrow> int \<times> status" where
  "Backfill_Score podLister state p nodeInfo =
     (case ni_node nodeInfo of
        None \<Rightarrow> (0, mk_status Error ''node is nil'')
      | Some node \<Rightarrow>
         (let allocatableCPU = f_int (q_milli (res_cpu (n_allocatable node)));
              allocatableMemory = f_int (q_value (res_memory (n_allocatable node)));
              allocatableGPU = gpu_value (n_allocatable node)
          in if feq allocatableCPU (Fin 0) \<or> feq allocatableMemory (Fin 0) then (quot MaxNodeScore 2, success)
             else (case podLister of
                     None \<Rightarrow> (quot MaxNodeScore 2, success)
                   | Some lister \<Rightarrow>
                      (case pl_list lister of
                         Inl _ \<Rightarrow> (quot MaxNodeScore 2, success)
                       | Inr allPods \<Rightarrow>
                          (let (requestedCPU, requestedMemory, requestedGPU) =
                                 requested_on (n_name node) allPods (Fin 0, Fin 0, Fin 0);
                               cpuUtilization = fmul (fdiv requestedCPU allocatableCPU) (Fin 100);
                               memoryUtilization = fmul (fdiv requestedMemory allocatableMemory) (Fin 100);
                               gpuUtilization = (if allocatableGPU > 0
                                                 then fmul (fdiv requestedGPU (f_int allocatableGPU)) (Fin 100) else Fin 0);
                               u = fadd (fmul (cap100 cpuUtilization) lit_35)
                                        (fmul (cap100 memoryUtilization) lit_35);
                               u = (if allocatableGPU > 0 then fadd u (fmul (cap100 gpuUtilization) lit_30) else u);
                               utilization = cap100 u;
                               idlePercent = fsub (Fin 100) utilization;
                               isBackfillPod = getPreemptibilityFromProfile state p;
                               tenantTier = bf_getTenantTierFromProfile state p;
                               utilization = fadd utilization (calculateTenantAdjustment tenantTier node);
                               utilization = (if flt utilization (Fin 0) then Fin 0 else utilization);
                               utilization = cap100 utilization
                           in if isBackfillPod then (f_to_int idlePercent, success)
                              else (f_to_int utilization, success))))))"

interpretation backfill_tier: tier_rank bf_tierPriority
  by unfold_locales (simp_all add: bf_tierPriority_def split: option.split)

section \<open>The utilization\<close>

definition amounts :: "container \<Rightarrow> bool" where
  "amounts c \<longleftrightarrow> 0 \<le> q_milli (res_cpu (c_requests c)) \<and> 0 \<le> q_value (res_memory (c_requests c)) \<and>
     (\<forall>q. lookup (c_requests c) gpu_resource = Some q \<longrightarrow> 0 \<le> q_value q)"

definition fnn3 :: "float3 \<Rightarrow> bool" where
  "fnn3 t \<longleftrightarrow> (case t of (a, b, c) \<Rightarrow> fnn a \<and> fnn b \<and> fnn c)"

lemma fnn3_containers: "fnn3 acc \<Longrightarrow> \<forall>c \<in> set cs. amounts c \<Longrightarrow> fnn3 (sum_containers cs acc)"
proof (induction cs acc rule: sum_containers.induct)
  case (2 c cs cpu memory gpu)
  from "2.prems" show ?case
    by (simp only: sum_containers.simps, intro "2.IH")
       (auto simp: fnn3_def amounts_def fnn_fadd fnn_f_int split: option.split)
qed simp

lemma fnn3_requested:
  "fnn3 acc \<Longrightarrow> \<forall>p \<in> set ps. \<forall>c \<in> set (p_containers p). amounts c \<Longrightarrow> fnn3 (requested_on n ps acc)"
  by (induction n ps acc rule: requested_on.induct) (simp_all add: fnn3_containers)

definition utilization_of :: "pod list \<Rightarrow> node \<Rightarrow> float64" where
  "utilization_of pods node =
     (let (requestedCPU, requestedMemory, requestedGPU) = requested_on (n_name node) pods (Fin 0, Fin 0, Fin 0);
          g = gpu_value (n_allocatable node);
          u = fadd (fmul (cap100 (fmul (fdiv requestedCPU (f_int (q_milli (res_cpu (n_allocatable node))))) (Fin 100))) lit_35)
                (fmul (cap100 (fmul (fdiv requestedMemory (f_int (q_value (res_memory (n_allocatable node))))) (Fin 100))) lit_35)
      in cap100 (if g > 0
                 then fadd u (fmul (cap100 (fmul (fdiv requestedGPU (f_int g)) (Fin 100))) lit_30)
                 else u))"

definition admissible_target :: "node \<Rightarrow> bool" where
  "admissible_target n \<longleftrightarrow> amount (q_milli (res_cpu (n_allocatable n))) \<and> amount (q_value (res_memory (n_allocatable n))) \<and>
     amount (gpu_value (n_allocatable n))"

lemma weight_fnn: "fnn a \<Longrightarrow> fnn (fmul a lit_35)" "fnn a \<Longrightarrow> fnn (fmul a lit_30)"
proof -
  have "0 < fl (35 / 100)" "0 < fl (30 / 100)" by code_simp+
  then show "fnn a \<Longrightarrow> fnn (fmul a lit_35)" "fnn a \<Longrightarrow> fnn (fmul a lit_30)"
    using fnn_fmul [of a "fl (35 / 100)"] fnn_fmul [of a "fl (30 / 100)"] by (simp_all add: lit_35_def lit_30_def to_f64_Fin)
qed

lemma cap100_fnn2: "fnn v \<Longrightarrow> fnn (cap100 v)"
  by (erule cap100_fnn) simp

lemma utilization_percent:
  assumes "admissible_target n" "q_milli (res_cpu (n_allocatable n)) \<noteq> 0" "q_value (res_memory (n_allocatable n)) \<noteq> 0"
    and "\<forall>p \<in> set pods. \<forall>c \<in> set (p_containers p). amounts c"
  obtains x where "utilization_of pods n = Fin x" "0 \<le> x" "x \<le> 100"
proof -
  obtain rc rm rg where r: "requested_on (n_name n) pods (Fin 0, Fin 0, Fin 0) = (rc, rm, rg)"
    by (cases "requested_on (n_name n) pods (Fin 0, Fin 0, Fin 0)")
  then have f: "fnn rc" "fnn rm" "fnn rg"
    using fnn3_requested [of "(Fin 0, Fin 0, Fin 0)" pods "n_name n"] assms(4) by (simp_all add: fnn3_def)
  have a: "amount (q_milli (res_cpu (n_allocatable n)))" "0 < q_milli (res_cpu (n_allocatable n))"
    "amount (q_value (res_memory (n_allocatable n)))" "0 < q_value (res_memory (n_allocatable n))"
    "amount (gpu_value (n_allocatable n))"
    using assms(1-3) by (auto simp: admissible_target_def amount_def)
  define C where "C = fmul (cap100 (fmul (fdiv rc (f_int (q_milli (res_cpu (n_allocatable n))))) (Fin 100))) lit_35"
  define M where "M = fmul (cap100 (fmul (fdiv rm (f_int (q_value (res_memory (n_allocatable n))))) (Fin 100))) lit_35"
  define G where "G = fmul (cap100 (fmul (fdiv rg (f_int (gpu_value (n_allocatable n)))) (Fin 100))) lit_30"
  have "fnn C" "fnn M" unfolding C_def M_def
    by (rule weight_fnn(1) [OF cap100_fnn2 [OF fnn_ratio [OF f(1) a(1,2)]]],
        rule weight_fnn(1) [OF cap100_fnn2 [OF fnn_ratio [OF f(2) a(3,4)]]])
  moreover have "fnn G" if "0 < gpu_value (n_allocatable n)"
    unfolding G_def by (rule weight_fnn(2) [OF cap100_fnn2 [OF fnn_ratio [OF f(3) a(5) that]]])
  ultimately have "fnn (if gpu_value (n_allocatable n) > 0 then fadd (fadd C M) G else fadd C M)"
    by (simp add: fnn_fadd)
  moreover have "utilization_of pods n = cap100 (if gpu_value (n_allocatable n) > 0 then fadd (fadd C M) G else fadd C M)"
    by (simp only: utilization_of_def r Let_def prod.case C_def M_def G_def)
  ultimately show thesis using that by (metis cap100_fnn)
qed

lemma Backfill_Score_eq:
  assumes "ni_node ni = Some n" "admissible_target n"
    and "q_milli (res_cpu (n_allocatable n)) \<noteq> 0" "q_value (res_memory (n_allocatable n)) \<noteq> 0" "pl_list l = Inr pods"
  shows "Backfill_Score (Some l) state p ni =
    (if getPreemptibilityFromProfile state p then f_to_int (fsub (Fin 100) (utilization_of pods n))
     else f_to_int (cap100
        (let v = fadd (utilization_of pods n) (calculateTenantAdjustment (bf_getTenantTierFromProfile state p) n)
         in if flt v (Fin 0) then Fin 0 else v)), success)"
  using assms by (simp add: Backfill_Score_def utilization_of_def admissible_target_def f_int_eq_0 Let_def split_beta)

lemma tenant_adjustment:
  "calculateTenantAdjustment t n = Fin (- of_int (15 *
     (case lookup (n_labels n) reserved_tier_label of None \<Rightarrow> 0 | Some r \<Rightarrow> max 0 (bf_tierPriority r - bf_tierPriority t))))"
proof (cases "lookup (n_labels n) reserved_tier_label")
  case (Some r)
  define k where "k = bf_tierPriority r - bf_tierPriority t"
  have "k \<le> 3" using backfill_tier.rank_gap by (simp add: k_def)
  have "fneg (fmul (f_int k) (Fin 15)) = Fin (- of_int (15 * k))" if "0 < k"
  proof -
    have "fl (of_int (k * 15)) = of_int (k * 15)" using that \<open>k \<le> 3\<close> by (intro fl_of_int) simp
    then show ?thesis using that \<open>k \<le> 3\<close> f_int_small [of k] by (simp add: to_f64_nonneg mult.commute)
  qed
  then show ?thesis using Some by (simp add: calculateTenantAdjustment_def Let_def k_def)
qed (simp add: calculateTenantAdjustment_def)

lemma utilization_clamped:
  assumes "utilization_of pods n = Fin u" "0 \<le> u" "u \<le> 100"
  obtains x where "cap100 (let v = fadd (utilization_of pods n) (calculateTenantAdjustment t n)
      in if flt v (Fin 0) then Fin 0 else v) = Fin x" "0 \<le> x" "x \<le> 100"
proof -
  define k where "k = (case lookup (n_labels n) reserved_tier_label of None \<Rightarrow> 0 | Some r \<Rightarrow> max 0 (bf_tierPriority r - bf_tierPriority t))"
  have k: "0 \<le> k" "k \<le> 3" using backfill_tier.rank_gap by (auto simp: k_def split: option.split)
  then have "(of_int (15 * k) :: rat) \<le> of_int 45" by (simp only: of_int_le_iff)
  then have "\<bar>u - of_int (15 * k)\<bar> \<le> 1000000000000000000000000000000"
    using assms(2,3) k by (simp add: abs_le_iff)
  then have "fadd (utilization_of pods n) (calculateTenantAdjustment t n) = Fin (fl (u - of_int (15 * k)))"
    using fadd_Fin [of u "- of_int (15 * k)"] by (simp add: assms(1) tenant_adjustment k_def [symmetric])
  then have "fnn (let v = fadd (utilization_of pods n) (calculateTenantAdjustment t n) in if flt v (Fin 0) then Fin 0 else v)"
    by (simp add: Let_def)
  then show thesis using that by (metis cap100_fnn)
qed

definition backfill_admissible :: "pod_lister option \<times> 'o cycle_state option \<times> pod \<times> node_info \<Rightarrow> bool" where
  "backfill_admissible i \<longleftrightarrow> (case i of (l, _, _, ni) \<Rightarrow>
     (\<exists>n. ni_node ni = Some n \<and> admissible_target n) \<and>
     (\<forall>lister pods. l = Some lister \<and> pl_list lister = Inr pods \<longrightarrow> (\<forall>p \<in> set pods. \<forall>c \<in> set (p_containers p). amounts c)))"

lemma Backfill_Score_neutral:
  assumes "ni_node ni = Some n" "admissible_target n"
    and "q_milli (res_cpu (n_allocatable n)) = 0 \<or> q_value (res_memory (n_allocatable n)) = 0 \<or> l = None \<or> (\<exists>e. pl_list (the l) = Inl e)"
  shows "Backfill_Score l state p ni = (50, success)"
  using assms by (cases l) (auto simp: Backfill_Score_def admissible_target_def f_int_eq_0 MaxNodeScore_def Let_def)

text \<open>The gap between the tier a node is reserved for and the tier of the pod.\<close>

definition tier_gap :: "string \<Rightarrow> node \<Rightarrow> int" where
  "tier_gap t n = (case lookup (n_labels n) reserved_tier_label of None \<Rightarrow> 0
     | Some r \<Rightarrow> max 0 (bf_tierPriority r - bf_tierPriority t))"

lemma Backfill_Score_value:
  assumes "ni_node ni = Some n" "admissible_target n" "pl_list l = Inr pods"
    and "q_milli (res_cpu (n_allocatable n)) \<noteq> 0" "q_value (res_memory (n_allocatable n)) \<noteq> 0"
    and "\<forall>p \<in> set pods. \<forall>c \<in> set (p_containers p). amounts c"
  shows "\<exists>u. utilization_of pods n = Fin u \<and> 0 \<le> u \<and> u \<le> 100 \<and>
    Backfill_Score (Some l) state p ni =
      (if getPreemptibilityFromProfile state p then f_to_int (Fin (fl (100 - u)))
       else f_to_int (Fin (min 100 (max 0 (fl (u - of_int (15 * tier_gap (bf_getTenantTierFromProfile state p) n)))))), success)"
proof -
  obtain u where u: "utilization_of pods n = Fin u" "0 \<le> u" "u \<le> 100"
    using utilization_percent [OF assms(2,4,5,6)] by blast
  define k where "k = tier_gap (bf_getTenantTierFromProfile state p) n"
  have k: "0 \<le> k" "k \<le> 3" using backfill_tier.rank_gap by (auto simp: k_def tier_gap_def split: option.split)
  then have "(of_int (15 * k) :: rat) \<le> of_int 45" by (simp only: of_int_le_iff)
  then have "\<bar>u - of_int (15 * k)\<bar> \<le> 1000000000000000000000000000000"
    using u k by (simp add: abs_le_iff)
  then have a: "fadd (Fin u) (calculateTenantAdjustment (bf_getTenantTierFromProfile state p) n) = Fin (fl (u - of_int (15 * k)))"
    using fadd_Fin [of u "- of_int (15 * k)"] by (simp add: tenant_adjustment k_def tier_gap_def)
  have s: "fsub (Fin 100) (Fin u) = Fin (fl (100 - u))" using u by (intro fsub_Fin) simp
  have c: "cap100 (if flt (Fin v) (Fin 0) then Fin 0 else Fin v) = Fin (min 100 (max 0 v))" for v
    by (simp add: cap100_def)
  have "Backfill_Score (Some l) state p ni =
      (if getPreemptibilityFromProfile state p then f_to_int (Fin (fl (100 - u)))
       else f_to_int (Fin (min 100 (max 0 (fl (u - of_int (15 * k)))))), success)"
    unfolding Backfill_Score_eq [OF assms(1,2,4,5,3)] u(1) s a Let_def c ..
  with u show ?thesis by (auto simp: k_def)
qed

lemma Backfill_Score_range:
  assumes "backfill_admissible (l, state, p, ni)"
  shows "st_code (snd (Backfill_Score l state p ni)) = Success \<and>
    0 \<le> fst (Backfill_Score l state p ni) \<and> fst (Backfill_Score l state p ni) \<le> 100"
proof -
  obtain n where n: "ni_node ni = Some n" "admissible_target n" using assms by (auto simp: backfill_admissible_def)
  show ?thesis
  proof (cases "q_milli (res_cpu (n_allocatable n)) = 0 \<or> q_value (res_memory (n_allocatable n)) = 0 \<or> l = None \<or> (\<exists>e. pl_list (the l) = Inl e)")
    case True
    then show ?thesis by (simp add: Backfill_Score_neutral [OF n])
  next
    case False
    then obtain lister pods where l: "l = Some lister" "pl_list lister = Inr pods"
      by (cases l; cases "pl_list (the l)") auto
    have am: "\<forall>p \<in> set pods. \<forall>c \<in> set (p_containers p). amounts c" using assms l by (simp add: backfill_admissible_def)
    obtain u where u: "0 \<le> u" "u \<le> 100" "Backfill_Score (Some lister) state p ni =
      (if getPreemptibilityFromProfile state p then f_to_int (Fin (fl (100 - u)))
       else f_to_int (Fin (min 100 (max 0 (fl (u - of_int (15 * tier_gap (bf_getTenantTierFromProfile state p) n)))))), success)"
      using Backfill_Score_value [OF n l(2) _ _ am, of state p] False by blast
    have "0 \<le> fl (100 - u)" "fl (100 - u) \<le> 100" using u fl_nonneg [of "100 - u"] fl_le_int [of 100 "100 - u"] by simp_all
    then show ?thesis unfolding l(1) u(3) using f_to_int_percent by simp
  qed
qed

interpretation backfill: score_plugin
  "\<lambda>(l, state, p, ni). Backfill_Score l state p ni" backfill_admissible
proof unfold_locales
  fix i :: "pod_lister option \<times> 'a cycle_state option \<times> pod \<times> node_info"
  assume a: "backfill_admissible i"
  obtain l state p ni where i: "i = (l, state, p, ni)" by (cases i)
  note r = Backfill_Score_range [OF a [unfolded i]]
  show "st_code (snd (case i of (l, state, p, ni) \<Rightarrow> Backfill_Score l state p ni)) = Success"
    using r by (simp add: i)
  show "0 \<le> fst (case i of (l, state, p, ni) \<Rightarrow> Backfill_Score l state p ni) \<and>
    fst (case i of (l, state, p, ni) \<Rightarrow> Backfill_Score l state p ni) \<le> MaxNodeScore"
    using r by (simp add: i MaxNodeScore_def)
qed

section \<open>Properties\<close>

text \<open>Backfill pods score the idle share of a node and other pods its used share, and the tenant
  penalty of 15 points per tier reaches only the pods that are not backfill pods: the score of a
  preemptible pod does not depend on the tier the node is reserved for.  Every score is between 0
  and 100.\<close>

theorem Backfill_penalty_spares_backfill:
  assumes "ni_node ni = Some n" "admissible_target n" "pl_list l = Inr pods"
    and "q_milli (res_cpu (n_allocatable n)) \<noteq> 0" "q_value (res_memory (n_allocatable n)) \<noteq> 0"
    and "\<forall>p \<in> set pods. \<forall>c \<in> set (p_containers p). amounts c"
  shows "\<exists>u. utilization_of pods n = Fin u \<and> 0 \<le> u \<and> u \<le> 100 \<and>
    fst (Backfill_Score (Some l) state p ni) =
      (if getPreemptibilityFromProfile state p then f_to_int (Fin (fl (100 - u)))
       else f_to_int (Fin (min 100 (max 0 (fl (u - of_int (15 * tier_gap (bf_getTenantTierFromProfile state p) n))))))) \<and>
    0 \<le> fst (Backfill_Score (Some l) state p ni) \<and> fst (Backfill_Score (Some l) state p ni) \<le> 100"
proof -
  have "backfill_admissible (Some l, state, p, ni)" using assms by (simp add: backfill_admissible_def)
  from backfill.score_range [OF this]
  have r: "0 \<le> fst (Backfill_Score (Some l) state p ni) \<and> fst (Backfill_Score (Some l) state p ni) \<le> 100"
    by (simp only: prod.case MaxNodeScore_def)
  from Backfill_Score_value [OF assms, of state p] obtain u where u: "utilization_of pods n = Fin u" "0 \<le> u" "u \<le> 100"
    and "Backfill_Score (Some l) state p ni =
      (if getPreemptibilityFromProfile state p then f_to_int (Fin (fl (100 - u)))
       else f_to_int (Fin (min 100 (max 0 (fl (u - of_int (15 * tier_gap (bf_getTenantTierFromProfile state p) n)))))), success)"
    by blast
  from arg_cong [OF this(4), of fst] u r show ?thesis by (intro exI [of _ u] conjI) (simp_all only: fst_conv)
qed

definition ex_gold_node :: node_info where
  "ex_gold_node = \<lparr>ni_node = Some \<lparr>n_name = ''n1'', n_labels = [(reserved_tier_label, ''gold'')],
       n_allocatable = [(''cpu'', \<lparr>q_milli = 4000, q_value = 4, q_is_zero = False\<rparr>), (''memory'', \<lparr>q_milli = 8000000, q_value = 8000, q_is_zero = False\<rparr>)],
       n_capacity = []\<rparr>, ni_req_cpu = 0, ni_req_memory = 0, ni_req_scalar = []\<rparr>"

lemma Backfill_penalty_spares_backfill_witness:
  "fst (Backfill_Score (Some (cache_lister [])) (None :: unit cycle_state option) (empty_pod \<lparr>p_priority := Some 0\<rparr>) ex_gold_node) = 100"
proof -
  let ?p = "empty_pod \<lparr>p_priority := Some 0\<rparr>"
  obtain n where n: "ni_node ex_gold_node = Some n" by (simp add: ex_gold_node_def)
  then have a: "admissible_target n" "q_milli (res_cpu (n_allocatable n)) \<noteq> 0" "q_value (res_memory (n_allocatable n)) \<noteq> 0"
    by (auto simp: ex_gold_node_def admissible_target_def amount_def i64_def res_cpu_def res_memory_def gpu_value_def gpu_resource_def)
  have b: "getPreemptibilityFromProfile (None :: unit cycle_state option) ?p" by code_simp
  have "utilization_of [] (the (ni_node ex_gold_node)) = Fin 0" by code_simp
  then have u: "utilization_of [] n = Fin 0" by (simp add: n)
  from Backfill_penalty_spares_backfill [OF n a(1) cache.list_all [of "[]"] a(2,3), where state = "None :: unit cycle_state option" and p = ?p] b u
  have "fst (Backfill_Score (Some (cache_lister [])) (None :: unit cycle_state option) ?p ex_gold_node) = f_to_int (Fin (fl 100))"
    by auto
  moreover have "f_to_int (Fin (fl 100)) = 100" by code_simp
  ultimately show ?thesis by simp
qed

end
