(* ===== verification/Fragmentation.thy ===== *)
theory Fragmentation
  imports ScoreArith Profile Interfaces
begin

text \<open>
  \<^verbatim>\<open>pkg/plugins/resourcefragmentation/fragmentationscore.go\<close>: a node with GPUs is an island;
  the plugin rejects islands that are too small or reserved for a higher tenant tier, and scores the
  rest so that large pristine islands stay whole.  The pod lister is \<^verbatim>\<open>None\<close> where it is nil.
\<close>

section \<open>Constants\<close>

definition LabelGPUTopology :: string where
  "LabelGPUTopology = ''gpu.kubenexus.io/topology''"

definition LabelGPUModel :: string where
  "LabelGPUModel = ''gpu.kubenexus.io/model''"

definition LabelGPUIsPristine :: string where
  "LabelGPUIsPristine = ''gpu.kubenexus.io/is-pristine''"

definition LabelNodeTenantTier :: string where
  "LabelNodeTenantTier = ''tenant.kubenexus.io/reserved-tier''"

definition IslandQualityNVSwitch :: int where "IslandQualityNVSwitch = 100"
definition IslandQualityNVLink :: int where "IslandQualityNVLink = 80"
definition IslandQualityPCIe :: int where "IslandQualityPCIe = 50"
definition IslandQualityUnknown :: int where "IslandQualityUnknown = 30"
definition PenaltyFragmentPristineIsland :: int where "PenaltyFragmentPristineIsland = 0"
definition PenaltyFragmentLargeIsland :: int where "PenaltyFragmentLargeIsland = 20"
definition PenaltyTenantMismatch :: int where "PenaltyTenantMismatch = 10"
definition BonusCompleteIsland :: int where "BonusCompleteIsland = 100"
definition BonusPerfectFit :: int where "BonusPerfectFit = 90"
definition LargeIslandThreshold :: int where "LargeIslandThreshold = 4"
definition SmallRequestThreshold :: int where "SmallRequestThreshold = 2"

lemmas frag_consts [simp] = IslandQualityNVSwitch_def IslandQualityNVLink_def IslandQualityPCIe_def
  IslandQualityUnknown_def PenaltyFragmentPristineIsland_def PenaltyFragmentLargeIsland_def
  PenaltyTenantMismatch_def BonusCompleteIsland_def BonusPerfectFit_def LargeIslandThreshold_def SmallRequestThreshold_def

section \<open>Islands\<close>

record gpu_island =
  gi_node :: string
  gi_total :: int
  gi_available :: int
  gi_allocated :: int
  gi_topology :: string
  gi_model :: string
  gi_quality :: int
  gi_pristine :: bool
  gi_tier :: string

fun sum_gpus :: "container list \<Rightarrow> int \<Rightarrow> int" where
  "sum_gpus [] n = n"
| "sum_gpus (c # cs) n =
     sum_gpus cs (case lookup (c_requests c) gpu_resource of None \<Rightarrow> n | Some q \<Rightarrow> wrap64 (n + q_value q))"

fun allocated_on :: "string \<Rightarrow> pod list \<Rightarrow> int \<Rightarrow> int" where
  "allocated_on nodeName [] n = n"
| "allocated_on nodeName (p # ps) n =
     allocated_on nodeName ps (if p_node p = nodeName then sum_gpus (p_containers p) n else n)"

definition frag_getGPURequest :: "pod \<Rightarrow> int" where
  "frag_getGPURequest p = sum_gpus (p_containers p) 0"

definition lister_pods :: "pod_lister option \<Rightarrow> pod list" where
  "lister_pods podLister =
     (case podLister of None \<Rightarrow> [] | Some l \<Rightarrow> (case pl_list l of Inl _ \<Rightarrow> [] | Inr ps \<Rightarrow> ps))"

definition detectGPUIsland :: "pod_lister option \<Rightarrow> node_info \<Rightarrow> gpu_island option" where
  "detectGPUIsland podLister nodeInfo =
     (case ni_node nodeInfo of
        None \<Rightarrow> None
      | Some node \<Rightarrow>
         (case lookup (n_capacity node) gpu_resource of
            None \<Rightarrow> None
          | Some totalGPUs \<Rightarrow>
              if q_is_zero totalGPUs then None
              else let allocatedGPUCount = allocated_on (n_name node) (lister_pods podLister) 0;
                       totalGPUCount = q_value totalGPUs;
                       topology = (case lookup (n_labels node) LabelGPUTopology of Some val \<Rightarrow> val | None \<Rightarrow> ''unknown'')
              in Some \<lparr>gi_node = n_name node, gi_total = totalGPUCount,
                    gi_available = wrap64 (totalGPUCount - allocatedGPUCount), gi_allocated = allocatedGPUCount,
                    gi_topology = topology,
                    gi_model = (case lookup (n_labels node) LabelGPUModel of Some val \<Rightarrow> val | None \<Rightarrow> ''unknown''),
                    gi_quality = (if topology = ''nvswitch'' then IslandQualityNVSwitch
                                  else if topology = ''nvlink'' then IslandQualityNVLink
                                  else if topology = ''pcie'' then IslandQualityPCIe
                                  else IslandQualityUnknown),
                    gi_pristine = (case lookup (n_labels node) LabelGPUIsPristine of
                                     Some val \<Rightarrow> val = ''true'' | None \<Rightarrow> allocatedGPUCount = 0),
                    gi_tier = (case lookup (n_labels node) LabelNodeTenantTier of Some val \<Rightarrow> val | None \<Rightarrow> '''')\<rparr>))"

section \<open>Tenants and workloads\<close>

definition frag_tierPriority :: "string \<Rightarrow> int" where
  "frag_tierPriority t =
     (case lookup [(''gold'', 3), (''silver'', 2), (''bronze'', 1), (''unknown'', 1)] t of None \<Rightarrow> 0 | Some v \<Rightarrow> v)"

definition isTenantAllowed :: "string \<Rightarrow> string \<Rightarrow> bool" where
  "isTenantAllowed podTier nodeTier \<longleftrightarrow> frag_tierPriority podTier \<ge> frag_tierPriority nodeTier"

definition getPodTenantTier :: "'o cycle_state option \<Rightarrow> pod \<Rightarrow> string" where
  "getPodTenantTier state p =
     (case GetProfile state of Inr profile \<Rightarrow> tier_string (sp_tier profile) | Inl _ \<Rightarrow> ''bronze'')"

definition getPodWorkloadType :: "'o cycle_state option \<Rightarrow> pod \<Rightarrow> string" where
  "getPodWorkloadType state p =
     (case GetProfile state of Inr profile \<Rightarrow> workload_string (sp_workload profile) | Inl _ \<Rightarrow> ''unknown'')"

definition calculateWorkloadFragmentationPenalty :: "pod \<Rightarrow> gpu_island \<Rightarrow> string \<Rightarrow> int" where
  "calculateWorkloadFragmentationPenalty p island workloadType =
     (let requestedGPUs = frag_getGPURequest p
      in if (workloadType = ''training'' \<or> workloadType = ''batch'') \<and>
            gi_quality island \<ge> IslandQualityNVLink \<and> gi_total island \<ge> 8 \<and>
            requestedGPUs < quot (gi_total island) 2 \<and> \<not> gi_pristine island
         then PenaltyFragmentLargeIsland + 10
         else if workloadType = ''inference'' \<or> workloadType = ''service'' then 0
         else if workloadType = ''interactive'' \<and>
                 quot (wrap64 (gi_allocated island * 100)) (gi_total island) > 75
         then 15
         else 0)"

section \<open>Filter and Score\<close>

definition frag_Filter :: "pod_lister option \<Rightarrow> 'o cycle_state option \<Rightarrow> pod \<Rightarrow> node_info \<Rightarrow> status" where
  "frag_Filter podLister state p nodeInfo =
     (let requestedGPUs = frag_getGPURequest p
      in if requestedGPUs = 0 then success
         else (case detectGPUIsland podLister nodeInfo of
                 None \<Rightarrow> mk_status Unschedulable ''node has no GPU resources''
               | Some island \<Rightarrow>
                   if gi_available island < requestedGPUs
                   then mk_status Unschedulable (''insufficient GPUs: need '' @ itoa requestedGPUs
                          @ '', available '' @ itoa (gi_available island))
                   else let podTenantTier = getPodTenantTier state p
                   in if gi_tier island \<noteq> '''' \<and> gi_tier island \<noteq> ''none'' \<and>
                         \<not> isTenantAllowed podTenantTier (gi_tier island)
                      then mk_status Unschedulable (''pod tenant '' @ podTenantTier
                             @ '' cannot use node reserved for tenant '' @ gi_tier island)
                      else success))"

fun sum_cpu :: "container list \<Rightarrow> float64 \<Rightarrow> float64" where
  "sum_cpu [] cpu = cpu"
| "sum_cpu (c # cs) cpu = sum_cpu cs (fadd cpu (f_int (q_milli (res_cpu (c_requests c)))))"

fun cpu_on :: "string \<Rightarrow> pod list \<Rightarrow> float64 \<Rightarrow> float64" where
  "cpu_on nodeName [] cpu = cpu"
| "cpu_on nodeName (p # ps) cpu =
     cpu_on nodeName ps (if p_node p = nodeName then sum_cpu (p_containers p) cpu else cpu)"

definition scoreCPUMemoryFragmentation :: "pod_lister option \<Rightarrow> pod \<Rightarrow> node_info \<Rightarrow> int" where
  "scoreCPUMemoryFragmentation podLister p nodeInfo =
     (case ni_node nodeInfo of
        None \<Rightarrow> 50
      | Some node \<Rightarrow>
         (let allocatableCPU = f_int (q_milli (res_cpu (n_allocatable node)));
              requestedCPU = cpu_on (n_name node) (lister_pods podLister) (Fin 0);
              cpuUtilization = (if flt (Fin 0) allocatableCPU then fmul (fdiv requestedCPU allocatableCPU) (Fin 100) else Fin 0)
          in f_to_int cpuUtilization))"

definition frag_Score :: "pod_lister option \<Rightarrow> 'o cycle_state option \<Rightarrow> pod \<Rightarrow> node_info \<Rightarrow> int \<times> status" where
  "frag_Score podLister state p nodeInfo =
     (case detectGPUIsland podLister nodeInfo of
        None \<Rightarrow> (scoreCPUMemoryFragmentation podLister p nodeInfo, success)
      | Some island \<Rightarrow>
         (let requestedGPUs = frag_getGPURequest p
          in if requestedGPUs = 0 then (scoreCPUMemoryFragmentation podLister p nodeInfo, success)
             else let podTenantTier = getPodTenantTier state p;
                      podWorkloadType = getPodWorkloadType state p
             in if gi_tier island \<noteq> '''' \<and> gi_tier island \<noteq> ''none'' \<and> \<not> isTenantAllowed podTenantTier (gi_tier island)
                then (PenaltyTenantMismatch, success)
                else let workloadPenalty = calculateWorkloadFragmentationPenalty p island podWorkloadType
                in if workloadPenalty > 0 then (workloadPenalty, success)
                   else if gi_pristine island \<and> gi_total island \<ge> LargeIslandThreshold \<and> requestedGPUs \<le> SmallRequestThreshold
                   then (PenaltyFragmentPristineIsland, success)
                   else if gi_available island = requestedGPUs then (BonusPerfectFit, success)
                   else if \<not> gi_pristine island \<and> gi_available island \<ge> requestedGPUs
                   then (wrap64 (BonusCompleteIsland - wrap64 (gi_available island - requestedGPUs)), success)
                   else if gi_total island \<ge> LargeIslandThreshold \<and> requestedGPUs < quot (gi_total island) 2
                   then (PenaltyFragmentLargeIsland + quot (gi_quality island) 10, success)
                   else (quot (wrap64 (gi_allocated island * 100)) (gi_total island), success)))"

interpretation frag_tier: tier_rank frag_tierPriority
  by unfold_locales (simp_all add: frag_tierPriority_def split: option.split)

section \<open>Properties\<close>

lemma i64_sum_gpus: "i64 n \<Longrightarrow> i64 (sum_gpus cs n)"
  by (induction cs n rule: sum_gpus.induct) (auto split: option.splits)

lemma i64_allocated: "i64 n \<Longrightarrow> i64 (allocated_on nm ps n)"
  by (induction nm ps n rule: allocated_on.induct) (auto simp: i64_sum_gpus)

lemma island_counts:
  "detectGPUIsland l ni = Some island \<Longrightarrow>
   i64 (gi_allocated island) \<and> gi_available island = wrap64 (gi_total island - gi_allocated island) \<and>
   gi_quality island \<in> {100, 80, 50, 30}"
  using i64_allocated [of 0] by (auto simp: detectGPUIsland_def Let_def i64_def split: option.splits if_splits)

text \<open>The filter admits a pod that requests GPUs to exactly the islands that have at least that many
  GPUs left and that are not reserved, or reserved for a tier that does not rank above the pod's;
  everything else is unschedulable.\<close>

theorem frag_Filter_iff:
  assumes "frag_getGPURequest p \<noteq> 0"
  shows "(frag_Filter l state p ni = success \<longleftrightarrow>
      (\<exists>island. detectGPUIsland l ni = Some island \<and> frag_getGPURequest p \<le> gi_available island \<and>
        (gi_tier island \<in> {'''', ''none''} \<or> frag_tierPriority (gi_tier island) \<le> frag_tierPriority (getPodTenantTier state p)))) \<and>
    st_code (frag_Filter l state p ni) \<in> {Success, Unschedulable}"
  using assms by (auto simp: frag_Filter_def isTenantAllowed_def Let_def split: option.splits)

definition ex_gpu_node :: "string \<Rightarrow> node_info" where
  "ex_gpu_node tier = \<lparr>ni_node = Some \<lparr>n_name = ''g1'', n_labels = [(LabelNodeTenantTier, tier), (LabelGPUTopology, ''nvswitch'')],
       n_allocatable = [(''cpu'', \<lparr>q_milli = 1000, q_value = 1, q_is_zero = False\<rparr>)],
       n_capacity = [(gpu_resource, \<lparr>q_milli = 8000, q_value = 8, q_is_zero = False\<rparr>)]\<rparr>,
     ni_req_cpu = 0, ni_req_memory = 0, ni_req_scalar = []\<rparr>"

definition ex_gpu_pod :: "int \<Rightarrow> pod" where
  "ex_gpu_pod n = empty_pod \<lparr>p_containers := [\<lparr>c_image = '''',
     c_requests = [(gpu_resource, \<lparr>q_milli = n * 1000, q_value = n, q_is_zero = False\<rparr>),
                   (''cpu'', \<lparr>q_milli = n * 1000, q_value = n, q_is_zero = False\<rparr>)], c_limits = []\<rparr>]\<rparr>"

text \<open>A gold reservation keeps bronze pods out; written with a capital letter it keeps nobody out.\<close>

lemma frag_Filter_iff_witness:
  "frag_Filter None (None :: unit cycle_state option) (ex_gpu_pod 2) (ex_gpu_node ''gold'') \<noteq> success \<and>
   frag_Filter None (None :: unit cycle_state option) (ex_gpu_pod 2) (ex_gpu_node ''Gold'') = success"
proof -
  have r: "frag_getGPURequest (ex_gpu_pod 2) \<noteq> 0" by code_simp
  have g: "detectGPUIsland None (ex_gpu_node tier) = Some \<lparr>gi_node = ''g1'', gi_total = 8, gi_available = 8, gi_allocated = 0,
      gi_topology = ''nvswitch'', gi_model = ''unknown'', gi_quality = 100, gi_pristine = True, gi_tier = tier\<rparr>" for tier
    by (simp add: detectGPUIsland_def ex_gpu_node_def Let_def lister_pods_def gpu_resource_def LabelGPUTopology_def
        LabelNodeTenantTier_def LabelGPUModel_def LabelGPUIsPristine_def wrap64_def)
  have q: "frag_getGPURequest (ex_gpu_pod 2) = 2" "getPodTenantTier (None :: unit cycle_state option) (ex_gpu_pod 2) = ''bronze''"
    by code_simp+
  show ?thesis
    using frag_Filter_iff [OF r, of None "None :: unit cycle_state option" "ex_gpu_node ''gold''"]
      frag_Filter_iff [OF r, of None "None :: unit cycle_state option" "ex_gpu_node ''Gold''"]
    by (simp add: g q) (simp add: frag_tierPriority_def)
qed

lemma frag_Score_range:
  assumes "frag_Filter l state p ni = success" "0 < frag_getGPURequest p"
    and "detectGPUIsland l ni = Some island" "0 \<le> gi_allocated island" "1 \<le> gi_total island" "gi_total island \<le> 100"
  shows "st_code (snd (frag_Score l state p ni)) = Success \<and> 0 \<le> fst (frag_Score l state p ni) \<and> fst (frag_Score l state p ni) \<le> 100"
proof -
  define r where "r = frag_getGPURequest p"
  have isl: "i64 (gi_allocated island)" "gi_available island = wrap64 (gi_total island - gi_allocated island)"
    "gi_quality island \<in> {100, 80, 50, 30}" using island_counts [OF assms(3)] by simp_all
  have av: "r \<le> gi_available island" using assms(1-3) by (auto simp: frag_Filter_def r_def Let_def split: if_splits)
  have "i64 (gi_total island - gi_allocated island)" using assms(4-6) isl(1) by (simp add: i64_def)
  then have a: "gi_available island = gi_total island - gi_allocated island" by (simp add: isl(2) wrap64_id)
  have lt: "gi_allocated island < gi_total island" using a av assms(2) by (simp add: r_def)
  have w: "wrap64 (gi_allocated island * 100) = gi_allocated island * 100"
    using lt assms(4,6) by (intro wrap64_id i64I) simp_all
  have "gi_allocated island * 100 div gi_total island \<le> gi_total island * 100 div gi_total island"
    using lt assms(5) by (intro zdiv_mono1) simp_all
  then have d: "0 \<le> gi_allocated island * 100 div gi_total island" "gi_allocated island * 100 div gi_total island \<le> 100"
    using assms(4,5) by (simp_all add: pos_imp_zdiv_nonneg_iff)
  have "wrap64 (gi_available island - r) = gi_available island - r"
    using a av assms(2,4,6) lt by (intro wrap64_id i64I) (simp_all add: r_def)
  then have c: "wrap64 (100 - wrap64 (gi_available island - r)) = 100 - (gi_available island - r)"
    using a av assms(2,4,6) by (simp add: r_def) (intro wrap64_id i64I, simp_all)
  have p: "calculateWorkloadFragmentationPenalty p island t \<in> {0, 15, 30}" for t
    by (simp add: calculateWorkloadFragmentationPenalty_def Let_def)
  have q: "0 \<le> quot (gi_quality island) 10 \<and> quot (gi_quality island) 10 \<le> 10" using isl(3) by auto
  show ?thesis
    using d c p [of "getPodWorkloadType state p"] q a av assms(2,4-6)
    by (auto simp: frag_Score_def assms(3) r_def [symmetric] Let_def w)
qed

text \<open>The pods the framework scores a GPU island for: those that passed the filter.\<close>

definition frag_admissible :: "pod_lister option \<times> 'o cycle_state option \<times> pod \<times> node_info \<Rightarrow> bool" where
  "frag_admissible i \<longleftrightarrow> (case i of (l, state, p, ni) \<Rightarrow>
     frag_Filter l state p ni = success \<and> 0 < frag_getGPURequest p \<and>
     (\<exists>island. detectGPUIsland l ni = Some island \<and> 0 \<le> gi_allocated island \<and> 1 \<le> gi_total island \<and> gi_total island \<le> 100))"

interpretation fragmentation: score_plugin "\<lambda>(l, state, p, ni). frag_Score l state p ni" frag_admissible
proof unfold_locales
  fix i :: "pod_lister option \<times> 'a cycle_state option \<times> pod \<times> node_info"
  assume a: "frag_admissible i"
  obtain l state p ni where i: "i = (l, state, p, ni)" by (cases i)
  note r = frag_Score_range [of l state p ni]
  show "st_code (snd (case i of (l, state, p, ni) \<Rightarrow> frag_Score l state p ni)) = Success"
    using r a by (auto simp: i frag_admissible_def)
  show "0 \<le> fst (case i of (l, state, p, ni) \<Rightarrow> frag_Score l state p ni) \<and>
    fst (case i of (l, state, p, ni) \<Rightarrow> frag_Score l state p ni) \<le> MaxNodeScore"
    using r a by (auto simp: i MaxNodeScore_def frag_admissible_def)
qed

text \<open>For a GPU pod that passed the filter on an island of at most 100 GPUs every branch of the
  scoring gives a score between 0 and 100.\<close>

theorem frag_Score_contract:
  assumes "frag_Filter l state p ni = success" "0 < frag_getGPURequest p"
    and "detectGPUIsland l ni = Some island" "0 \<le> gi_allocated island" "1 \<le> gi_total island" "gi_total island \<le> 100"
  shows "0 \<le> fst (frag_Score l state p ni) \<and> fst (frag_Score l state p ni) \<le> 100"
  using fragmentation.score_range [of "(l, state, p, ni)"] assms by (auto simp: frag_admissible_def MaxNodeScore_def)

lemma frag_Score_contract_witness:
  "fst (frag_Score None (None :: unit cycle_state option) (ex_gpu_pod 8) (ex_gpu_node ''bronze'')) \<le> 100"
proof -
  have "frag_Filter None (None :: unit cycle_state option) (ex_gpu_pod 8) (ex_gpu_node ''bronze'') = success"
    "0 < frag_getGPURequest (ex_gpu_pod 8)"
    "detectGPUIsland None (ex_gpu_node ''bronze'') = Some \<lparr>gi_node = ''g1'', gi_total = 8, gi_available = 8, gi_allocated = 0,
      gi_topology = ''nvswitch'', gi_model = ''unknown'', gi_quality = 100, gi_pristine = True, gi_tier = ''bronze''\<rparr>"
    by code_simp+
  from frag_Score_contract [OF this] show ?thesis by simp
qed

text \<open>The CPU requested on a node as an integer, which the floating-point sum equals exactly.\<close>

fun millis :: "container list \<Rightarrow> int" where
  "millis [] = 0"
| "millis (c # cs) = q_milli (res_cpu (c_requests c)) + millis cs"

fun millis_on :: "string \<Rightarrow> pod list \<Rightarrow> int" where
  "millis_on n [] = 0"
| "millis_on n (p # ps) = (if p_node p = n then millis (p_containers p) else 0) + millis_on n ps"

definition cpu_nonneg :: "pod \<Rightarrow> bool" where
  "cpu_nonneg p \<longleftrightarrow> (\<forall>c \<in> set (p_containers p). 0 \<le> q_milli (res_cpu (c_requests c)))"

lemma millis_nonneg: "\<forall>c \<in> set cs. 0 \<le> q_milli (res_cpu (c_requests c)) \<Longrightarrow> 0 \<le> millis cs"
  by (induction cs) auto

lemma millis_on_nonneg: "\<forall>p \<in> set ps. cpu_nonneg p \<Longrightarrow> 0 \<le> millis_on n ps"
  by (induction ps) (auto simp: cpu_nonneg_def intro: add_nonneg_nonneg millis_nonneg)

lemma fadd_f_int: "0 \<le> a \<Longrightarrow> 0 \<le> b \<Longrightarrow> a + b \<le> 9007199254740992 \<Longrightarrow> fadd (Fin (of_int a)) (f_int b) = Fin (of_int (a + b))"
proof -
  assume a: "0 \<le> a" "0 \<le> b" "a + b \<le> 9007199254740992"
  have "(of_int (a + b) :: rat) \<le> of_int 9007199254740992" using a(3) by (simp only: of_int_le_iff)
  then have "to_f64 (of_int (a + b)) = Fin (fl (of_int (a + b)))" using a by (intro to_f64_nonneg) simp_all
  moreover have "fl (of_int (a + b)) = of_int (a + b)" using a by (intro fl_of_int) simp
  ultimately show ?thesis using a by (simp add: f_int_small)
qed

lemma sum_cpu_exact:
  "0 \<le> k \<Longrightarrow> \<forall>c \<in> set cs. 0 \<le> q_milli (res_cpu (c_requests c)) \<Longrightarrow> k + millis cs \<le> 9007199254740992 \<Longrightarrow>
   sum_cpu cs (Fin (of_int k)) = Fin (of_int (k + millis cs))"
proof (induction cs arbitrary: k)
  case (Cons c cs)
  have "0 \<le> millis cs" using Cons.prems by (intro millis_nonneg) simp
  then have "fadd (Fin (of_int k)) (f_int (q_milli (res_cpu (c_requests c)))) = Fin (of_int (k + q_milli (res_cpu (c_requests c))))"
    using Cons.prems by (intro fadd_f_int) simp_all
  then show ?case using Cons.prems Cons.IH [of "k + q_milli (res_cpu (c_requests c))"] by (simp add: add.assoc del: of_int_add)
qed simp

lemma cpu_on_exact:
  "0 \<le> k \<Longrightarrow> \<forall>p \<in> set ps. cpu_nonneg p \<Longrightarrow> k + millis_on n ps \<le> 9007199254740992 \<Longrightarrow>
   cpu_on n ps (Fin (of_int k)) = Fin (of_int (k + millis_on n ps))"
proof (induction ps arbitrary: k)
  case (Cons p ps)
  have nn: "0 \<le> millis_on n ps" "0 \<le> millis (p_containers p)"
    using Cons.prems by (auto simp: cpu_nonneg_def intro: millis_on_nonneg millis_nonneg)
  show ?case
  proof (cases "p_node p = n")
    case True
    have "sum_cpu (p_containers p) (Fin (of_int k)) = Fin (of_int (k + millis (p_containers p)))"
      using Cons.prems nn True by (intro sum_cpu_exact) (simp_all add: cpu_nonneg_def)
    then show ?thesis
      using Cons.prems nn True Cons.IH [of "k + millis (p_containers p)"] by (simp add: add.assoc del: of_int_add)
  next
    case False
    then show ?thesis using Cons.prems Cons.IH [of k] by simp
  qed
qed simp

text \<open>The score of a node without GPUs has no upper bound: it is the percentage of the allocatable CPU
  that the pods assigned to the node request, finished pods included, so a node whose pods request
  at least twice its CPU scores 200 or more, which the framework rejects as an invalid score.\<close>

theorem frag_Score_above_maximum:
  assumes "ni_node ni = Some n" "detectGPUIsland (Some l) ni = None" "pl_list l = Inr pods"
    and "0 < q_milli (res_cpu (n_allocatable n))" "\<forall>p \<in> set pods. cpu_nonneg p"
    and "2 * q_milli (res_cpu (n_allocatable n)) \<le> millis_on (n_name n) pods" "millis_on (n_name n) pods \<le> 2 ^ 46"
  shows "200 \<le> fst (frag_Score (Some l) state p ni) \<and> st_code (snd (frag_Score (Some l) state p ni)) = Success"
proof -
  define a where "a = q_milli (res_cpu (n_allocatable n))"
  define r where "r = millis_on (n_name n) pods"
  have ar: "0 < a" "2 * a \<le> r" "r \<le> 70368744177664" using assms(4,6,7) by (simp_all add: a_def r_def)
  have cpu: "cpu_on (n_name n) pods (Fin 0) = Fin (of_int r)"
    using cpu_on_exact [of 0 pods "n_name n"] assms(5) ar by (simp add: r_def)
  have fa: "f_int a = Fin (of_int a)" using ar by (intro f_int_small) simp
  have "(of_int 2 :: rat) * of_int a \<le> of_int r" using ar(2) unfolding of_int_mult [symmetric] by (simp only: of_int_le_iff)
  then have q1: "of_int 2 \<le> (of_int r / of_int a :: rat)" using ar(1) by (simp add: pos_le_divide_eq)
  have "r \<le> 70368744177664 * a" using ar by (smt (verit) mult_le_cancel_left1)
  then have "(of_int r :: rat) \<le> of_int 70368744177664 * of_int a" unfolding of_int_mult [symmetric] by (simp only: of_int_le_iff)
  then have q2: "(of_int r / of_int a :: rat) \<le> of_int 70368744177664" using ar(1) by (simp add: pos_divide_le_eq)
  define x where "x = fl (of_int r / of_int a)"
  have x: "2 \<le> x" "x \<le> 70368744177664" using fl_ge_int [OF _ q1] fl_le_int [OF _ q2] by (simp_all add: x_def)
  have d: "fdiv (Fin (of_int r)) (Fin (of_int a)) = Fin x"
    using ar(1) q1 q2 by (simp add: x_def) (rule to_f64_nonneg; linarith)
  have m: "fmul (Fin x) (Fin 100) = Fin (fl (x * 100))" using x by (simp add: to_f64_nonneg)
  have y: "of_int 200 \<le> fl (x * 100)" "fl (x * 100) \<le> of_int 7036874417766400"
    using fl_ge_int [of 200 "x * 100"] fl_le_int [of 7036874417766400 "x * 100"] x by simp_all
  have "200 \<le> f_to_int (Fin (fl (x * 100)))" using f_to_int_range [OF y] by (simp add: i64_def)
  then show ?thesis
    using assms(1-3) ar(1)
    by (simp add: frag_Score_def scoreCPUMemoryFragmentation_def lister_pods_def cpu fa d m a_def [symmetric] Let_def del: fdiv.simps fmul.simps)
qed

definition ex_cpu_node :: node_info where
  "ex_cpu_node = \<lparr>ni_node = Some \<lparr>n_name = ''n1'', n_labels = [],
       n_allocatable = [(''cpu'', \<lparr>q_milli = 1000, q_value = 1, q_is_zero = False\<rparr>)], n_capacity = []\<rparr>,
     ni_req_cpu = 0, ni_req_memory = 0, ni_req_scalar = []\<rparr>"

definition ex_finished :: pod where
  "ex_finished = ex_gpu_pod 2 \<lparr>p_node := ''n1'', p_phase := ''Succeeded''\<rparr>"

lemma frag_Score_above_maximum_witness:
  "200 \<le> fst (frag_Score (Some (cache_lister [ex_finished])) (None :: unit cycle_state option) empty_pod ex_cpu_node)"
proof -
  obtain n where n: "ni_node ex_cpu_node = Some n" by (simp add: ex_cpu_node_def)
  then have nn: "n = the (ni_node ex_cpu_node)" by simp
  have a: "detectGPUIsland (Some (cache_lister [ex_finished])) ex_cpu_node = None"
    "0 < q_milli (res_cpu (n_allocatable (the (ni_node ex_cpu_node))))" "\<forall>p \<in> set [ex_finished]. cpu_nonneg p"
    "2 * q_milli (res_cpu (n_allocatable (the (ni_node ex_cpu_node)))) \<le> millis_on (n_name (the (ni_node ex_cpu_node))) [ex_finished]"
    "millis_on (n_name (the (ni_node ex_cpu_node))) [ex_finished] \<le> 2 ^ 46"
    by code_simp+
  from frag_Score_above_maximum [OF n a(1) cache.list_all a(2-5) [folded nn]] show ?thesis by blast
qed

end
