(* ===== verification/TenantHardware.thy ===== *)
theory TenantHardware
  imports Profile Interfaces
begin

text \<open>
  \<^verbatim>\<open>pkg/plugins/tenanthardware/tenanthardware.go\<close>: the score plugin that matches the priority
  of a tenant to the hardware tier of a node.  The tenant's priority comes from the profile, or from
  the pod when there is none; the hardware tier from a label, or from the GPU model.
\<close>

section \<open>Model\<close>

definition LabelHardwareTier :: string where
  "LabelHardwareTier = ''hardware.kubenexus.io/tier''"

definition th_LabelGPUModel :: string where
  "th_LabelGPUModel = ''gpu.kubenexus.io/model''"

definition PriorityHigh :: string where "PriorityHigh = ''high-priority''"
definition PriorityMedium :: string where "PriorityMedium = ''medium-priority''"
definition PriorityLow :: string where "PriorityLow = ''low-priority''"

definition TierPremium :: string where "TierPremium = ''premium''"
definition TierStandard :: string where "TierStandard = ''standard''"
definition TierEconomy :: string where "TierEconomy = ''economy''"

definition ScorePerfectMatch :: int where "ScorePerfectMatch = 100"
definition ScoreAcceptableMatch :: int where "ScoreAcceptableMatch = 70"
definition ScoreMismatchPenalty :: int where "ScoreMismatchPenalty = 20"
definition ScoreNoHardwareInfo :: int where "ScoreNoHardwareInfo = 50"

fun mapTenantTierToPriority :: "tenant_tier \<Rightarrow> string" where
  "mapTenantTierToPriority TierGold = PriorityHigh"
| "mapTenantTierToPriority TierSilver = PriorityMedium"
| "mapTenantTierToPriority TierBronze = PriorityLow"
| "mapTenantTierToPriority _ = PriorityMedium"

definition getTenantPriority :: "pod \<Rightarrow> string" where
  "getTenantPriority p =
     (case lookup (p_annots p) ''scheduling.kubenexus.io/priority-tier'' of
        Some priority \<Rightarrow> priority
      | None \<Rightarrow>
          if p_prio_class p \<noteq> ''''
          then (let priorityClass = to_lower (p_prio_class p)
                in if contains priorityClass ''high'' \<or> contains priorityClass ''critical'' then PriorityHigh
                   else if contains priorityClass ''medium'' \<or> contains priorityClass ''normal'' then PriorityMedium
                   else if contains priorityClass ''low'' \<or> contains priorityClass ''best-effort'' then PriorityLow
                   else PriorityMedium)
          else PriorityMedium)"

definition getTenantPriorityFromProfile :: "'o cycle_state option \<Rightarrow> pod \<Rightarrow> string" where
  "getTenantPriorityFromProfile state p =
     (case GetProfile state of
        Inr profile \<Rightarrow> mapTenantTierToPriority (sp_tier profile)
      | Inl _ \<Rightarrow> getTenantPriority p)"

definition premiumModels :: "string list" where
  "premiumModels = [''H100'', ''H200'', ''A100-80GB'', ''MI300'']"

definition standardModels :: "string list" where
  "standardModels = [''A100'', ''A40'', ''A6000'', ''MI250'']"

definition economyModels :: "string list" where
  "economyModels = [''L40'', ''L4'', ''T4'', ''A10'', ''A16'']"

definition inferTierFromGPUModel :: "string \<Rightarrow> string" where
  "inferTierFromGPUModel gpuModel =
     (let model = to_upper gpuModel
      in if list_ex (contains model) premiumModels then TierPremium
         else if list_ex (contains model) standardModels then TierStandard
         else if list_ex (contains model) economyModels then TierEconomy
         else '''')"

definition getHardwareTier :: "node \<Rightarrow> string" where
  "getHardwareTier n =
     (case lookup (n_labels n) LabelHardwareTier of
        Some tier \<Rightarrow> tier
      | None \<Rightarrow> (case lookup (n_labels n) th_LabelGPUModel of
                   Some gpuModel \<Rightarrow> inferTierFromGPUModel gpuModel
                 | None \<Rightarrow> ''''))"

definition perfectMatches :: "string gomap" where
  "perfectMatches = [(PriorityHigh, TierPremium), (PriorityMedium, TierStandard), (PriorityLow, TierEconomy)]"

text \<open>An \<^verbatim>\<open>if\<close> without a return falls through to the next one.\<close>

definition calculateAffinityScore :: "string \<Rightarrow> string \<Rightarrow> int" where
  "calculateAffinityScore tenantPriority hardwareTier =
     (if hardwareTier = '''' then ScoreNoHardwareInfo
      else if lookup_str perfectMatches tenantPriority = hardwareTier then ScorePerfectMatch
      else if tenantPriority = PriorityHigh \<and> hardwareTier = TierStandard then ScoreAcceptableMatch
      else if tenantPriority = PriorityHigh \<and> hardwareTier = TierEconomy then ScoreAcceptableMatch - 10
      else if tenantPriority = PriorityMedium \<and> hardwareTier = TierEconomy then ScoreAcceptableMatch
      else if tenantPriority = PriorityMedium \<and> hardwareTier = TierPremium then ScoreMismatchPenalty
      else if tenantPriority = PriorityLow \<and> (hardwareTier = TierPremium \<or> hardwareTier = TierStandard)
           then ScoreMismatchPenalty
      else ScoreAcceptableMatch)"

definition TenantHardware_Score :: "'o cycle_state option \<Rightarrow> pod \<Rightarrow> node_info \<Rightarrow> int \<times> status" where
  "TenantHardware_Score state p nodeInfo =
     (case ni_node nodeInfo of
        None \<Rightarrow> (ScoreNoHardwareInfo, success)
      | Some n \<Rightarrow>
          (calculateAffinityScore (getTenantPriorityFromProfile state p) (getHardwareTier n), success))"

section \<open>The table of scores\<close>

lemmas th_scores =
  ScorePerfectMatch_def ScoreAcceptableMatch_def ScoreMismatchPenalty_def ScoreNoHardwareInfo_def

lemmas th_names =
  PriorityHigh_def PriorityMedium_def PriorityLow_def TierPremium_def TierStandard_def TierEconomy_def

lemma perfect_match [simp]:
  "lookup_str perfectMatches PriorityHigh = TierPremium"
  "lookup_str perfectMatches PriorityMedium = TierStandard"
  "lookup_str perfectMatches PriorityLow = TierEconomy"
  "t \<noteq> PriorityHigh \<Longrightarrow> t \<noteq> PriorityMedium \<Longrightarrow> t \<noteq> PriorityLow \<Longrightarrow> lookup_str perfectMatches t = ''''"
  by (auto simp: perfectMatches_def lookup_str_def th_names)

lemma names_distinct [simp]:
  "PriorityHigh \<noteq> PriorityMedium" "PriorityMedium \<noteq> PriorityHigh" "PriorityHigh \<noteq> PriorityLow"
  "PriorityLow \<noteq> PriorityHigh" "PriorityMedium \<noteq> PriorityLow" "PriorityLow \<noteq> PriorityMedium"
  "TierPremium \<noteq> TierStandard" "TierStandard \<noteq> TierPremium" "TierPremium \<noteq> TierEconomy"
  "TierEconomy \<noteq> TierPremium" "TierStandard \<noteq> TierEconomy" "TierEconomy \<noteq> TierStandard"
  "TierPremium \<noteq> ''''" "TierStandard \<noteq> ''''" "TierEconomy \<noteq> ''''"
  by (simp_all add: th_names)

lemma affinity_range: "calculateAffinityScore t h \<in> {20, 50, 60, 70, 100}"
  by (simp add: calculateAffinityScore_def th_scores)

interpretation tenant_hardware: score_plugin "\<lambda>(state, p, ni). TenantHardware_Score state p ni" "\<lambda>_. True"
proof unfold_locales
  fix i :: "'a cycle_state option \<times> pod \<times> node_info"
  obtain state p ni where i: "i = (state, p, ni)" by (cases i)
  show "st_code (snd (case i of (state, p, ni) \<Rightarrow> TenantHardware_Score state p ni)) = Success"
    by (simp add: i TenantHardware_Score_def split: option.splits)
  have "fst (TenantHardware_Score state p ni) \<in> {20, 50, 60, 70, 100}"
  proof (cases "ni_node ni")
    case None
    then show ?thesis by (simp add: TenantHardware_Score_def th_scores)
  next
    case (Some n)
    have "fst (TenantHardware_Score state p ni) =
        calculateAffinityScore (getTenantPriorityFromProfile state p) (getHardwareTier n)"
      by (simp add: TenantHardware_Score_def Some)
    then show ?thesis using affinity_range by metis
  qed
  then show "0 \<le> fst (case i of (state, p, ni) \<Rightarrow> TenantHardware_Score state p ni) \<and>
      fst (case i of (state, p, ni) \<Rightarrow> TenantHardware_Score state p ni) \<le> MaxNodeScore"
    by (auto simp: i MaxNodeScore_def)
qed

text \<open>The tier meant for a tenant.\<close>

fun hardware_for :: "tenant_tier \<Rightarrow> string" where
  "hardware_for TierGold = TierPremium"
| "hardware_for TierBronze = TierEconomy"
| "hardware_for _ = TierStandard"

lemma affinity_perfect: "calculateAffinityScore (mapTenantTierToPriority t) h = 100 \<longleftrightarrow> h = hardware_for t"
  by (cases t) (auto simp: calculateAffinityScore_def th_scores)

lemma affinity_premium:
  "t \<noteq> TierGold \<Longrightarrow> calculateAffinityScore (mapTenantTierToPriority t) TierPremium = 20"
  by (cases t) (simp_all add: calculateAffinityScore_def th_scores)

lemma to_upper_char_lower: "to_upper_char (to_lower_char c) = to_upper_char c"
proof -
  have "\<And>n::nat. 65 \<le> n \<Longrightarrow> n \<le> 90 \<Longrightarrow> (of_char (char_of (n + 32) :: char) :: nat) = n + 32" by simp
  then show ?thesis by (auto simp: to_lower_char_def to_upper_char_def Let_def)
qed

lemma infer_case_insensitive: "inferTierFromGPUModel (to_lower m) = inferTierFromGPUModel m"
  by (simp add: inferTierFromGPUModel_def to_upper_def to_lower_def o_def to_upper_char_lower)

section \<open>Properties\<close>

text \<open>Hardware goes to the tenants it is meant for: for a pod with a profile the nodes of the matching
  hardware tier score 100 and every other node scores less, so that a matching node always wins; a
  premium node scores 20 for every tenant below gold, which is less than the 50 of a node that says
  nothing about its hardware. Every score is between 0 and 100.\<close>

theorem TenantHardware_matches:
  assumes "GetProfile state = Inr profile" and "ni_node ni = Some n"
  shows "(fst (TenantHardware_Score state p ni) = 100 \<longleftrightarrow> getHardwareTier n = hardware_for (sp_tier profile)) \<and>
    (getHardwareTier n = TierPremium \<and> sp_tier profile \<noteq> TierGold \<longrightarrow> fst (TenantHardware_Score state p ni) = 20) \<and>
    (getHardwareTier n = '''' \<longrightarrow> fst (TenantHardware_Score state p ni) = 50) \<and>
    0 \<le> fst (TenantHardware_Score state p ni) \<and> fst (TenantHardware_Score state p ni) \<le> 100"
proof -
  have s: "fst (TenantHardware_Score state p ni) =
      calculateAffinityScore (mapTenantTierToPriority (sp_tier profile)) (getHardwareTier n)"
    using assms by (simp add: TenantHardware_Score_def getTenantPriorityFromProfile_def)
  have r: "0 \<le> fst (TenantHardware_Score state p ni) \<and> fst (TenantHardware_Score state p ni) \<le> 100"
    using tenant_hardware.score_range [of "(state, p, ni)"] by (simp add: MaxNodeScore_def)
  show ?thesis
    using r affinity_perfect [of "sp_tier profile"] affinity_premium [of "sp_tier profile"]
    by (simp add: s) (simp add: calculateAffinityScore_def th_scores)
qed

definition ex_th_state :: "tenant_tier \<Rightarrow> unit cycle_state" where
  "ex_th_state t = [stateKey \<mapsto> ProfileData \<lparr>sp_tier = t, sp_tenant = ''ml'', sp_workload = WorkloadTraining,
     sp_gang = False, sp_preemptible = False, sp_priority = 0, sp_qos = ''''\<rparr>]"

definition ex_th_node :: "string \<Rightarrow> node_info" where
  "ex_th_node m = \<lparr>ni_node = Some \<lparr>n_name = ''n'', n_labels = [(th_LabelGPUModel, m)], n_allocatable = [], n_capacity = []\<rparr>,
     ni_req_cpu = 0, ni_req_memory = 0, ni_req_scalar = []\<rparr>"

lemma TenantHardware_matches_witness:
  "fst (TenantHardware_Score (Some (ex_th_state TierBronze)) empty_pod (ex_th_node ''NVIDIA-H100'')) = 20 \<and>
   fst (TenantHardware_Score (Some (ex_th_state TierGold)) empty_pod (ex_th_node ''nvidia-h100'')) = 100"
proof -
  have g: "GetProfile (Some (ex_th_state t)) = Inr \<lparr>sp_tier = t, sp_tenant = ''ml'', sp_workload = WorkloadTraining,
     sp_gang = False, sp_preemptible = False, sp_priority = 0, sp_qos = ''''\<rparr>" for t
    by (simp add: GetProfile_def ex_th_state_def)
  define n where "n = (\<lambda>m. \<lparr>n_name = ''n'', n_labels = [(th_LabelGPUModel, m)], n_allocatable = [], n_capacity = []\<rparr>)"
  have n: "ni_node (ex_th_node m) = Some (n m)" for m by (simp add: ex_th_node_def n_def)
  have h: "getHardwareTier (n ''NVIDIA-H100'') = TierPremium" "getHardwareTier (n ''nvidia-h100'') = TierPremium"
    unfolding n_def by code_simp+
  show ?thesis
    using TenantHardware_matches [OF g [of TierBronze] n [of "''NVIDIA-H100''"], of empty_pod]
      TenantHardware_matches [OF g [of TierGold] n [of "''nvidia-h100''"], of empty_pod] h by simp
qed

text \<open>A misspelt priority escapes the protection: without a profile the annotation of the pod is taken
  as it is, and any text other than the three known priorities scores 70 on every node that has a
  tier, the premium ones included, where \<^verbatim>\<open>medium\<close> and \<^verbatim>\<open>low\<close> tenants score 20.\<close>

theorem unknown_priority_not_penalised:
  assumes "GetProfile state = Inl e"
    and "lookup (p_annots p) ''scheduling.kubenexus.io/priority-tier'' = Some t"
    and "t \<notin> {PriorityHigh, PriorityMedium, PriorityLow}"
    and "ni_node ni = Some n" and "getHardwareTier n \<noteq> ''''"
  shows "TenantHardware_Score state p ni = (70, success)"
  using assms
  by (simp add: TenantHardware_Score_def getTenantPriorityFromProfile_def getTenantPriority_def
      calculateAffinityScore_def th_scores)

lemma unknown_priority_not_penalised_witness:
  "TenantHardware_Score (None :: unit cycle_state option)
     (empty_pod \<lparr>p_annots := [(''scheduling.kubenexus.io/priority-tier'', ''low'')]\<rparr>) (ex_th_node ''H100'') = (70, success)"
proof -
  let ?p = "empty_pod \<lparr>p_annots := [(''scheduling.kubenexus.io/priority-tier'', ''low'')]\<rparr>"
  let ?n = "\<lparr>n_name = ''n'', n_labels = [(th_LabelGPUModel, ''H100'')], n_allocatable = [], n_capacity = []\<rparr>"
  have a: "lookup (p_annots ?p) ''scheduling.kubenexus.io/priority-tier'' = Some ''low''" by simp
  have g: "GetProfile (None :: unit cycle_state option) = Inl CycleStateNil" by (simp add: GetProfile_def)
  have n: "ni_node (ex_th_node ''H100'') = Some ?n" by (simp add: ex_th_node_def)
  have h: "getHardwareTier ?n \<noteq> ''''" by code_simp
  have t: "''low'' \<notin> {PriorityHigh, PriorityMedium, PriorityLow}" by (simp add: th_names)
  show ?thesis by (rule unknown_priority_not_penalised [OF g a t n h])
qed

end
