(* ===== verification/NetworkFabric.thy ===== *)
theory NetworkFabric
  imports Profile Interfaces ScoreArith "HOL-Library.AList"
begin

text \<open>
  \<^verbatim>\<open>pkg/plugins/networkfabric/networkfabric.go\<close>: the filter that keeps a gang inside one NVLink
  partition (clique) and the score that prefers the network domain the gang already occupies.  The
  listers of pods, nodes and DRA resource slices are arguments; a lister that is nil is \<^verbatim>\<open>None\<close>.
  A nil status, which the score returns, is success.
\<close>

section \<open>Constants\<close>

definition LabelFabricType :: string where "LabelFabricType = ''network.kubenexus.io/fabric-type''"
definition LabelFabricID :: string where "LabelFabricID = ''network.kubenexus.io/fabric-id''"
definition LabelRackID :: string where "LabelRackID = ''network.kubenexus.io/rack-id''"
definition LabelAZ :: string where "LabelAZ = ''network.kubenexus.io/az''"
definition LabelGPUClique :: string where "LabelGPUClique = ''nvidia.com/gpu.clique''"

definition AnnotationNetworkSensitive :: string where
  "AnnotationNetworkSensitive = ''scheduling.kubenexus.io/network-sensitive''"
definition AnnotationMinFabricTier :: string where
  "AnnotationMinFabricTier = ''scheduling.kubenexus.io/min-fabric-tier''"
definition AnnotationCoLocate :: string where
  "AnnotationCoLocate = ''scheduling.kubenexus.io/co-locate''"
definition AnnotationPodGroup :: string where
  "AnnotationPodGroup = ''pod-group.scheduling.sigs.k8s.io/name''"
definition AnnotationRequireClique :: string where
  "AnnotationRequireClique = ''scheduling.kubenexus.io/require-clique''"

definition BonusSameClique :: int where "BonusSameClique = 40"
definition BonusSameFabricDomain :: int where "BonusSameFabricDomain = 30"
definition BonusSameRack :: int where "BonusSameRack = 20"
definition BonusSameAZ :: int where "BonusSameAZ = 10"
definition PenaltyCrossClique :: int where "PenaltyCrossClique = 40"
definition PenaltyCrossFabric :: int where "PenaltyCrossFabric = 30"
definition PenaltyCrossRack :: int where "PenaltyCrossRack = 20"
definition PenaltyCrossAZ :: int where "PenaltyCrossAZ = 10"

definition BoostTrainingHighTier :: int where "BoostTrainingHighTier = 15"
definition BoostInferenceLowTier :: int where "BoostInferenceLowTier = 10"
definition PenaltyTrainingLowTier :: int where "PenaltyTrainingLowTier = 20"
definition PenaltyInferenceHighTier :: int where "PenaltyInferenceHighTier = 5"

text \<open>The constant 1.5 is exact in binary.\<close>

definition WeightNetworkSensitive :: float64 where
  "WeightNetworkSensitive = Fin (3 / 2)"

section \<open>Fabric tiers\<close>

datatype fabric_type =
    FabricNVSwitch | FabricNVLink | FabricInfiniBand | FabricRoCE | FabricEthernet | FabricUnknown

definition getFabricType :: "node \<Rightarrow> fabric_type" where
  "getFabricType n =
     (let s = to_lower (lookup_str (n_labels n) LabelFabricType)
      in if s = ''nvswitch'' then FabricNVSwitch
         else if s = ''nvlink'' then FabricNVLink
         else if s = ''infiniband'' \<or> s = ''ib'' then FabricInfiniBand
         else if s = ''roce'' \<or> s = ''rdma'' then FabricRoCE
         else if s = ''ethernet'' \<or> s = ''eth'' then FabricEthernet
         else FabricUnknown)"

fun getFabricTierScore :: "fabric_type \<Rightarrow> int" where
  "getFabricTierScore FabricNVSwitch = 100"
| "getFabricTierScore FabricNVLink = 90"
| "getFabricTierScore FabricInfiniBand = 75"
| "getFabricTierScore FabricRoCE = 60"
| "getFabricTierScore FabricEthernet = 40"
| "getFabricTierScore _ = 50"

definition getMinFabricTier :: "pod \<Rightarrow> fabric_type" where
  "getMinFabricTier p =
     (let s = to_lower (lookup_str (p_annots p) AnnotationMinFabricTier)
      in if s = ''nvswitch'' then FabricNVSwitch
         else if s = ''nvlink'' then FabricNVLink
         else if s = ''infiniband'' \<or> s = ''ib'' then FabricInfiniBand
         else if s = ''roce'' then FabricRoCE
         else if s = ''ethernet'' then FabricEthernet
         else FabricUnknown)"

fun tierOrder :: "fabric_type \<Rightarrow> int" where
  "tierOrder FabricNVSwitch = 5"
| "tierOrder FabricNVLink = 4"
| "tierOrder FabricInfiniBand = 3"
| "tierOrder FabricRoCE = 2"
| "tierOrder FabricEthernet = 1"
| "tierOrder FabricUnknown = 0"

definition meetsFabricTierRequirement :: "fabric_type \<Rightarrow> fabric_type \<Rightarrow> bool" where
  "meetsFabricTierRequirement actual minimum \<longleftrightarrow> tierOrder actual \<ge> tierOrder minimum"

definition isNetworkSensitive :: "pod \<Rightarrow> bool" where
  "isNetworkSensitive p \<longleftrightarrow> to_lower (lookup_str (p_annots p) AnnotationNetworkSensitive) = ''true''"

section \<open>Cliques\<close>

type_synonym slice_lister = "(string + resource_slice list) option"

definition isGPUDriver :: "string \<Rightarrow> bool" where
  "isGPUDriver driver \<longleftrightarrow>
     (let d = to_lower driver in contains d ''nvidia'' \<or> contains d ''gpu'' \<or> contains d ''amd'')"

text \<open>The clique a device names, and the first one in a slice or in the slices of the node.\<close>

definition device_clique :: "device_attr gomap \<Rightarrow> string option" where
  "device_clique attrs =
     (case lookup attrs ''nvlink-domain'' of
        None \<Rightarrow> None
      | Some a \<Rightarrow>
         (case da_int a of
            Some v \<Rightarrow> Some (itoa v)
          | None \<Rightarrow> (case da_string a of
                       Some s \<Rightarrow> if s \<noteq> '''' then Some s else None
                     | None \<Rightarrow> None)))"

fun first_clique :: "dra_device list \<Rightarrow> string option" where
  "first_clique [] = None"
| "first_clique (d # ds) = (case device_clique (dv_attrs d) of Some c \<Rightarrow> Some c | None \<Rightarrow> first_clique ds)"

fun slices_clique :: "string \<Rightarrow> resource_slice list \<Rightarrow> string" where
  "slices_clique nodeName [] = ''''"
| "slices_clique nodeName (s # ss) =
     (if sl_node s \<noteq> Some nodeName then slices_clique nodeName ss
      else if \<not> isGPUDriver (sl_driver s) then slices_clique nodeName ss
      else (case first_clique (sl_devices s) of
              Some c \<Rightarrow> c
            | None \<Rightarrow> slices_clique nodeName ss))"

definition getNodeClique :: "slice_lister \<Rightarrow> node \<Rightarrow> string" where
  "getNodeClique slices n =
     (let clique = lookup_str (n_labels n) LabelGPUClique
      in if clique \<noteq> '''' then clique
         else (case slices of
                 None \<Rightarrow> ''''
               | Some (Inl _) \<Rightarrow> ''''
               | Some (Inr ss) \<Rightarrow> slices_clique (n_name n) ss))"

text \<open>The scheduled members of the gang.\<close>

definition getGangMemberPods :: "pod_lister \<Rightarrow> string \<Rightarrow> string \<Rightarrow> pod list" where
  "getGangMemberPods lister namespace podGroup =
     (if podGroup = '''' then []
      else (case pl_ns_list lister namespace None of
              Inl _ \<Rightarrow> []
            | Inr allPods \<Rightarrow>
                filter (\<lambda>q. p_node q \<noteq> '''' \<and> lookup_str (p_annots q) AnnotationPodGroup = podGroup) allPods))"

fun first_pod_clique :: "node_lister \<Rightarrow> slice_lister \<Rightarrow> pod list \<Rightarrow> string" where
  "first_pod_clique nodes slices [] = ''''"
| "first_pod_clique nodes slices (q # qs) =
     (if p_node q = '''' then first_pod_clique nodes slices qs
      else (case nodes (p_node q) of
              Inl _ \<Rightarrow> first_pod_clique nodes slices qs
            | Inr n \<Rightarrow> (let clique = getNodeClique slices n
                        in if clique \<noteq> '''' then clique else first_pod_clique nodes slices qs)))"

definition getGangClique :: "pod_lister \<Rightarrow> node_lister \<Rightarrow> slice_lister \<Rightarrow> string \<Rightarrow> string \<Rightarrow> string" where
  "getGangClique lister nodes slices namespace podGroup =
     first_pod_clique nodes slices (getGangMemberPods lister namespace podGroup)"

definition requiresCliqueFilter :: "pod \<Rightarrow> bool" where
  "requiresCliqueFilter p \<longleftrightarrow>
     (if lookup_str (p_annots p) AnnotationRequireClique = ''true'' then True
      else to_lower (lookup_str (p_annots p) AnnotationCoLocate) = ''strict'')"

definition nf_Filter :: "pod_lister \<Rightarrow> node_lister \<Rightarrow> slice_lister \<Rightarrow> pod \<Rightarrow> node_info \<Rightarrow> status" where
  "nf_Filter lister nodes slices p nodeInfo =
     (case ni_node nodeInfo of
        None \<Rightarrow> mk_status Error ''node not found''
      | Some n \<Rightarrow>
         (let podGroup = lookup_str (p_annots p) AnnotationPodGroup
          in if podGroup = '''' then success
             else if \<not> requiresCliqueFilter p then success
             else let candidateClique = getNodeClique slices n;
                      existingClique = getGangClique lister nodes slices (p_ns p) podGroup
             in if candidateClique = ''''
                then (if existingClique \<noteq> ''''
                      then mk_status Unschedulable
                             (''node '' @ n_name n @ '' has no NVLink partition label, but gang '' @ podGroup @
                              '' requires clique '' @ existingClique)
                      else success)
                else if existingClique = '''' then success
                else if candidateClique \<noteq> existingClique
                then mk_status Unschedulable
                       (''node '' @ n_name n @ '' is in NVLink partition '' @ candidateClique @ '', but gang '' @
                        podGroup @ '' requires partition '' @ existingClique)
                else success))"

section \<open>Score\<close>

text \<open>Counting one level of the topology: \<^verbatim>\<open>m[key]++\<close> when the label is not empty.\<close>

definition bump :: "string \<Rightarrow> int gomap \<Rightarrow> int gomap" where
  "bump key m = (if key = '''' then m else AList.update key ((case lookup m key of None \<Rightarrow> 0 | Some c \<Rightarrow> c) + 1) m)"

type_synonym level_counts = "int gomap \<times> int gomap \<times> int gomap \<times> int gomap"

fun count_levels :: "node_lister option \<Rightarrow> pod list \<Rightarrow> level_counts \<Rightarrow> level_counts" where
  "count_levels nodeLister [] acc = acc"
| "count_levels nodeLister (q # qs) (cliques, fabricDomains, racks, azs) =
     count_levels nodeLister qs
       (if p_node q = '''' then (cliques, fabricDomains, racks, azs)
        else (case nodeLister of
                None \<Rightarrow> (cliques, fabricDomains, racks, azs)
              | Some nodes \<Rightarrow>
                 (case nodes (p_node q) of
                    Inl _ \<Rightarrow> (cliques, fabricDomains, racks, azs)
                  | Inr n \<Rightarrow> (bump (lookup_str (n_labels n) LabelGPUClique) cliques,
                              bump (lookup_str (n_labels n) LabelFabricID) fabricDomains,
                              bump (lookup_str (n_labels n) LabelRackID) racks,
                              bump (lookup_str (n_labels n) LabelAZ) azs))))"

text \<open>The bonus or penalty of one level.\<close>

definition level_score :: "string \<Rightarrow> int gomap \<Rightarrow> int \<Rightarrow> int \<Rightarrow> int" where
  "level_score candidate counts bonus penalty =
     (if candidate = '''' then 0
      else if (case lookup counts candidate of None \<Rightarrow> 0 | Some c \<Rightarrow> c) > 0 then bonus
      else if counts \<noteq> [] then - penalty
      else 0)"

definition calculateLocalityScore ::
  "pod list \<Rightarrow> string \<Rightarrow> string \<Rightarrow> string \<Rightarrow> string \<Rightarrow> node_lister option \<Rightarrow> int" where
  "calculateLocalityScore gangPods candidateClique candidateFabricID candidateRackID candidateAZ nodeLister =
     (if gangPods = [] then 0
      else let (cliques, fabricDomains, racks, azs) = count_levels nodeLister gangPods ([], [], [], [])
      in level_score candidateClique cliques BonusSameClique PenaltyCrossClique +
         level_score candidateFabricID fabricDomains BonusSameFabricDomain PenaltyCrossFabric +
         level_score candidateRackID racks BonusSameRack PenaltyCrossRack +
         level_score candidateAZ azs BonusSameAZ PenaltyCrossAZ)"

definition getWorkloadFabricBonus :: "'o cycle_state option \<Rightarrow> pod \<Rightarrow> fabric_type \<Rightarrow> int" where
  "getWorkloadFabricBonus state p fabricType =
     (let workloadTypeStr =
            (case GetProfile state of
               Inr profile \<Rightarrow> to_lower (workload_string (sp_workload profile))
             | Inl _ \<Rightarrow> (case ClassifyPod (Some p) of TypeBatch \<Rightarrow> ''training'' | TypeService \<Rightarrow> ''inference''));
          isHighTierFabric = (fabricType = FabricNVSwitch \<or> fabricType = FabricInfiniBand);
          isLowTierFabric = (fabricType = FabricRoCE \<or> fabricType = FabricEthernet)
      in if workloadTypeStr = ''training'' \<or> workloadTypeStr = ''batch''
         then (if isHighTierFabric then BoostTrainingHighTier
               else if isLowTierFabric then - PenaltyTrainingLowTier else 0)
         else if workloadTypeStr = ''inference'' \<or> workloadTypeStr = ''service''
         then (if isLowTierFabric then BoostInferenceLowTier
               else if isHighTierFabric then - PenaltyInferenceHighTier else 0)
         else 0)"

definition nf_Score ::
  "pod_lister \<Rightarrow> node_lister option \<Rightarrow> slice_lister \<Rightarrow> 'o cycle_state option \<Rightarrow> pod \<Rightarrow> node_info \<Rightarrow> int \<times> status" where
  "nf_Score lister nodeLister slices state p nodeInfo =
     (case ni_node nodeInfo of
        None \<Rightarrow> (0, mk_status Error ''node not found'')
      | Some n \<Rightarrow>
         (let podGroup = lookup_str (p_annots p) AnnotationPodGroup;
              isGangMember = (podGroup \<noteq> '''');
              fabricType = getFabricType n;
              fabricID = lookup_str (n_labels n) LabelFabricID;
              rackID = lookup_str (n_labels n) LabelRackID;
              az = lookup_str (n_labels n) LabelAZ;
              baseScore = getFabricTierScore fabricType
          in if \<not> isGangMember then (baseScore, success)
             else let gangPods = getGangMemberPods lister (p_ns p) podGroup
             in if gangPods = [] then (baseScore, success)
             else let candidateClique = getNodeClique slices n;
                      localityScore = calculateLocalityScore gangPods candidateClique fabricID rackID az nodeLister;
                      workloadAdjustment = getWorkloadFabricBonus state p fabricType;
                      finalScore = baseScore + localityScore + workloadAdjustment;
                      finalScore = (if isNetworkSensitive p
                                    then f_to_int (fmul (f_int finalScore) WeightNetworkSensitive) else finalScore);
                      minTier = getMinFabricTier p
             in if minTier \<noteq> FabricUnknown \<and> \<not> meetsFabricTierRequirement fabricType minTier then (0, success)
             else let finalScore = (if finalScore > 100 then 100 else finalScore);
                      finalScore = (if finalScore < 0 then 0 else finalScore)
             in (finalScore, success)))"

section \<open>The clique of a placed pod\<close>

definition placed_clique :: "node_lister \<Rightarrow> slice_lister \<Rightarrow> pod \<Rightarrow> string" where
  "placed_clique nodes slices q =
     (if p_node q = '''' then '''' else (case nodes (p_node q) of Inl _ \<Rightarrow> '''' | Inr n \<Rightarrow> getNodeClique slices n))"

definition gang_member :: "string \<Rightarrow> string \<Rightarrow> pod \<Rightarrow> bool" where
  "gang_member namespace podGroup q \<longleftrightarrow>
     p_ns q = namespace \<and> lookup_str (p_annots q) AnnotationPodGroup = podGroup \<and> podGroup \<noteq> ''''"

lemma first_pod_clique_Cons:
  "first_pod_clique nodes slices (q # qs) =
     (if placed_clique nodes slices q \<noteq> '''' then placed_clique nodes slices q else first_pod_clique nodes slices qs)"
  by (auto simp: placed_clique_def Let_def split: sum.splits)

lemma first_pod_clique_empty:
  "first_pod_clique nodes slices qs = '''' \<longleftrightarrow> (\<forall>q \<in> set qs. placed_clique nodes slices q = '''')"
proof (induction qs)
  case (Cons q qs)
  then show ?case by (simp only: first_pod_clique_Cons) auto
qed simp

lemma first_pod_clique_some:
  "first_pod_clique nodes slices qs \<noteq> '''' \<Longrightarrow>
   \<exists>q \<in> set qs. placed_clique nodes slices q = first_pod_clique nodes slices qs"
proof (induction qs)
  case (Cons q qs)
  then show ?case by (simp only: first_pod_clique_Cons) auto
qed simp

lemma gang_members_cache:
  "podGroup \<noteq> '''' \<Longrightarrow>
   set (getGangMemberPods (cache_lister ps) namespace podGroup) =
     {q \<in> set ps. gang_member namespace podGroup q \<and> p_node q \<noteq> ''''}"
  by (auto simp: getGangMemberPods_def gang_member_def cache.list_ns sel_matches_def)

lemma nf_Filter_success_iff:
  assumes "ni_node ni = Some n" and "lookup_str (p_annots p) AnnotationPodGroup = g" "g \<noteq> ''''"
    and "requiresCliqueFilter p"
  shows "st_code (nf_Filter lister nodes slices p ni) = Success \<longleftrightarrow>
    getGangClique lister nodes slices (p_ns p) g \<in> {'''', getNodeClique slices n}"
  using assms by (auto simp: nf_Filter_def Let_def)

section \<open>Placements that pass the filter\<close>

text \<open>
  The pods of the informer cache over time.  A pod appears unscheduled; it passes the filter on a node and is
  then chosen for it, as far as the filter is concerned; later its binding becomes visible in the cache, or
  is given up; and pods may leave or be listed in another order.  Between the two a pod that was chosen
  still has no node in the cache (it waits in \<^verbatim>\<open>Permit\<close> or is being bound), and any number of other
  pods may be chosen or bound.  The nodes and the resource slices do not change.

  The flag restricts the runs: when it is set, every member of a gang asks for the clique filter, and it is
  judged only while no other member of its gang is chosen without being bound in the cache.
\<close>

definition one_at_a_time :: "pod \<Rightarrow> (pod \<times> string) list \<Rightarrow> bool" where
  "one_at_a_time p chosen \<longleftrightarrow>
     (lookup_str (p_annots p) AnnotationPodGroup \<noteq> '''' \<longrightarrow> requiresCliqueFilter p \<and>
        (\<forall>(q, h) \<in> set chosen. \<not> gang_member (p_ns p) (lookup_str (p_annots p) AnnotationPodGroup) q))"

inductive placements :: "bool \<Rightarrow> node_lister \<Rightarrow> slice_lister \<Rightarrow> pod list \<Rightarrow> (pod \<times> string) list \<Rightarrow> bool"
  for careful nodes slices where
  start: "placements careful nodes slices [] []"
| create: "placements careful nodes slices ps chosen \<Longrightarrow> p_node p = '''' \<Longrightarrow>
    placements careful nodes slices (p # ps) chosen"
| choose: "placements careful nodes slices ps chosen \<Longrightarrow> (careful \<Longrightarrow> one_at_a_time p chosen) \<Longrightarrow>
    ni_node ni = Some n \<Longrightarrow> nodes (n_name n) = Inr n \<Longrightarrow>
    st_code (nf_Filter (cache_lister ps) nodes slices p ni) = Success \<Longrightarrow>
    placements careful nodes slices ps ((p, n_name n) # chosen)"
| bind: "placements careful nodes slices ps chosen \<Longrightarrow> (p, h) \<in> set chosen \<Longrightarrow>
    placements careful nodes slices (p\<lparr>p_node := h\<rparr> # remove1 p ps) (remove1 (p, h) chosen)"
| give_up: "placements careful nodes slices ps chosen \<Longrightarrow> placements careful nodes slices ps (remove1 c chosen)"
| relist: "placements careful nodes slices ps chosen \<Longrightarrow> set qs \<subseteq> set ps \<Longrightarrow>
    placements careful nodes slices qs chosen"

text \<open>The pods with a node, in the cache or chosen.\<close>

definition placed :: "pod list \<Rightarrow> (pod \<times> string) list \<Rightarrow> pod list" where
  "placed ps chosen = ps @ map (\<lambda>(p, h). p\<lparr>p_node := h\<rparr>) chosen"

definition one_clique :: "node_lister \<Rightarrow> slice_lister \<Rightarrow> string \<Rightarrow> string \<Rightarrow> pod list \<Rightarrow> bool" where
  "one_clique nodes slices namespace podGroup ps \<longleftrightarrow>
     (\<exists>c. \<forall>q \<in> set ps. gang_member namespace podGroup q \<longrightarrow> placed_clique nodes slices q \<in> {'''', c})"

lemma one_clique_subset: "one_clique nodes slices ns g ps \<Longrightarrow> set qs \<subseteq> set ps \<Longrightarrow> one_clique nodes slices ns g qs"
  unfolding one_clique_def by blast

lemma one_clique_Cons_empty:
  "one_clique nodes slices ns g ps \<Longrightarrow> placed_clique nodes slices p = '''' \<Longrightarrow> one_clique nodes slices ns g (p # ps)"
  unfolding one_clique_def by auto

lemma one_clique_bind:
  assumes inv: "one_clique nodes slices ns g ps"
    and req: "gang_member ns g p \<Longrightarrow> requiresCliqueFilter p"
    and n: "ni_node ni = Some n" "nodes (n_name n) = Inr n"
    and ok: "st_code (nf_Filter (cache_lister ps) nodes slices p ni) = Success"
  shows "one_clique nodes slices ns g (p\<lparr>p_node := n_name n\<rparr> # ps)"
proof (cases "gang_member ns g p")
  case False
  then have "\<not> gang_member ns g (p\<lparr>p_node := n_name n\<rparr>)" by (simp add: gang_member_def)
  with inv show ?thesis by (auto simp: one_clique_def)
next
  case True
  define e where "e = getGangClique (cache_lister ps) nodes slices ns g"
  have p: "p_ns p = ns" "lookup_str (p_annots p) AnnotationPodGroup = g" "g \<noteq> ''''" using True by (simp_all add: gang_member_def)
  have e: "e = '''' \<or> e = getNodeClique slices n"
    using nf_Filter_success_iff [OF n(1) p(2,3) req [OF True], of "cache_lister ps" nodes slices] ok p(1)
    by (simp add: e_def)
  have members: "\<And>q. q \<in> set (getGangMemberPods (cache_lister ps) ns g) \<longleftrightarrow> q \<in> set ps \<and> gang_member ns g q \<and> p_node q \<noteq> ''''"
    using gang_members_cache [OF p(3)] by auto
  have new: "placed_clique nodes slices (p\<lparr>p_node := n_name n\<rparr>) \<in> {'''', getNodeClique slices n}"
    using n(2) by (simp add: placed_clique_def)
  obtain c where c: "\<And>q. q \<in> set ps \<Longrightarrow> gang_member ns g q \<Longrightarrow> placed_clique nodes slices q \<in> {'''', c}"
    using inv unfolding one_clique_def by blast
  have "placed_clique nodes slices q \<in> {'''', getNodeClique slices n}" if q: "q \<in> set ps" "gang_member ns g q" for q
  proof (cases "e = ''''")
    case True
    then have "placed_clique nodes slices q = ''''" if "p_node q \<noteq> ''''"
      using first_pod_clique_empty [of nodes slices] members [of q] q that by (auto simp: e_def getGangClique_def)
    then show ?thesis by (cases "p_node q = ''''") (simp_all add: placed_clique_def)
  next
    case False
    then obtain q' where "q' \<in> set ps" "gang_member ns g q'" "placed_clique nodes slices q' = e"
      using first_pod_clique_some [of nodes slices] members by (auto simp: e_def getGangClique_def)
    with c [of q'] c [OF q] False e show ?thesis by auto
  qed
  with new show ?thesis unfolding one_clique_def by auto
qed

lemma gang_member_node [simp]: "gang_member ns g (p\<lparr>p_node := h\<rparr>) = gang_member ns g p"
  by (simp add: gang_member_def)

lemma one_clique_choose:
  assumes "one_clique nodes slices ns g (placed ps chosen)" "one_at_a_time p chosen"
    and n: "ni_node ni = Some n" "nodes (n_name n) = Inr n"
    and ok: "st_code (nf_Filter (cache_lister ps) nodes slices p ni) = Success"
  shows "one_clique nodes slices ns g (placed ps ((p, n_name n) # chosen))"
proof (cases "gang_member ns g p")
  case False
  with assms(1) show ?thesis by (auto simp: one_clique_def placed_def)
next
  case True
  then have g: "lookup_str (p_annots p) AnnotationPodGroup = g" "p_ns p = ns" "g \<noteq> ''''" by (simp_all add: gang_member_def)
  with assms(2) have r: "requiresCliqueFilter p" and none: "\<And>q h. (q, h) \<in> set chosen \<Longrightarrow> \<not> gang_member ns g q"
    by (auto simp: one_at_a_time_def)
  have "one_clique nodes slices ns g ps" using assms(1) by (rule one_clique_subset) (simp add: placed_def)
  from one_clique_bind [OF this r n ok] obtain c where
    c: "\<forall>q \<in> set (p\<lparr>p_node := n_name n\<rparr> # ps). gang_member ns g q \<longrightarrow> placed_clique nodes slices q \<in> {'''', c}"
    unfolding one_clique_def by blast
  show ?thesis unfolding one_clique_def
  proof (intro exI [of _ c] ballI impI)
    fix q assume q: "q \<in> set (placed ps ((p, n_name n) # chosen))" "gang_member ns g q"
    have "q \<in> set (p\<lparr>p_node := n_name n\<rparr> # ps)" using q none by (auto simp: placed_def)
    then show "placed_clique nodes slices q \<in> {'''', c}" using c q(2) by blast
  qed
qed

lemma placements_one_clique: "placements True nodes slices ps chosen \<Longrightarrow> one_clique nodes slices ns g (placed ps chosen)"
proof (induction rule: placements.induct)
  case start
  show ?case by (simp add: one_clique_def placed_def)
next
  case (create ps chosen p)
  then have "one_clique nodes slices ns g (p # placed ps chosen)"
    by (intro one_clique_Cons_empty) (simp_all add: placed_clique_def)
  then show ?case by (simp add: placed_def)
next
  case (choose ps chosen p ni n)
  then show ?case by (intro one_clique_choose) simp_all
next
  case (bind ps chosen p h)
  then show ?case
    by (elim one_clique_subset) (use set_remove1_subset [of p ps] set_remove1_subset [of "(p, h)" chosen] in \<open>force simp: placed_def\<close>)
next
  case (give_up ps chosen c)
  then show ?case by (elim one_clique_subset) (use set_remove1_subset [of c chosen] in \<open>auto simp: placed_def\<close>)
next
  case (relist ps chosen qs)
  then show ?case by (elim one_clique_subset) (auto simp: placed_def)
qed

text \<open>Two members that are both chosen before either is bound: the filter looks at neither.\<close>

lemma placements_split:
  assumes "placements False nodes slices ps chosen"
    and none: "\<And>q. q \<in> set ps \<Longrightarrow> gang_member ns g q \<Longrightarrow> placed_clique nodes slices q = ''''"
    and p: "gang_member ns g p" "gang_member ns g p'" "p_node p' = ''''"
    and n: "nodes (n_name n) = Inr n" "n_name n \<noteq> ''''"
    and n': "nodes (n_name n') = Inr n'"
  shows "\<exists>ps'. placements False nodes slices ps' chosen \<and> p\<lparr>p_node := n_name n\<rparr> \<in> set ps' \<and> p'\<lparr>p_node := n_name n'\<rparr> \<in> set ps'"
proof -
  let ?ni = "\<lambda>m. \<lparr>ni_node = Some m, ni_req_cpu = 0, ni_req_memory = 0, ni_req_scalar = []\<rparr>"
  have ni: "ni_node (?ni m) = Some m" for m by simp
  have ok: "st_code (nf_Filter (cache_lister ps) nodes slices q (?ni m)) = Success" if "gang_member ns g q" for q m
  proof (cases "requiresCliqueFilter q")
    case True
    have q: "p_ns q = ns" "lookup_str (p_annots q) AnnotationPodGroup = g" "g \<noteq> ''''" using that by (simp_all add: gang_member_def)
    have "getGangClique (cache_lister ps) nodes slices ns g = ''''"
      using none gang_members_cache [OF q(3), of ps ns] by (simp add: getGangClique_def first_pod_clique_empty)
    then show ?thesis using nf_Filter_success_iff [OF ni q(2,3) True] q(1) by simp
  next
    case False
    then show ?thesis by (simp add: nf_Filter_def Let_def)
  qed
  let ?c1 = "(p, n_name n)" and ?c2 = "(p', n_name n')" and ?ps1 = "p\<lparr>p_node := n_name n\<rparr> # remove1 p ps"
  have "placements False nodes slices ps (?c2 # ?c1 # chosen)"
    by (intro choose [OF choose [OF assms(1) _ ni n(1) ok [OF p(1)]] _ ni n' ok [OF p(2)]]) simp_all
  from bind [OF this, of p "n_name n"] have "placements False nodes slices ?ps1 (?c2 # chosen)"
    by (cases "?c1 = ?c2") auto
  from bind [OF this, of p' "n_name n'"]
  have "placements False nodes slices (p'\<lparr>p_node := n_name n'\<rparr> # remove1 p' ?ps1) chosen" by simp
  moreover have "p' \<noteq> p\<lparr>p_node := n_name n\<rparr>" using p(3) n(2) by auto
  ultimately show ?thesis by (intro exI [of _ "p'\<lparr>p_node := n_name n'\<rparr> # remove1 p' ?ps1"]) simp
qed

section \<open>The levels of the topology\<close>

text \<open>The value of a label on the node of a placed pod; empty when it is not known.\<close>

definition node_label :: "node_lister \<Rightarrow> string \<Rightarrow> pod \<Rightarrow> string" where
  "node_label nodes key q =
     (if p_node q = '''' then '''' else (case nodes (p_node q) of Inl _ \<Rightarrow> '''' | Inr n \<Rightarrow> lookup_str (n_labels n) key))"

definition tally :: "(pod \<Rightarrow> string) \<Rightarrow> pod list \<Rightarrow> int gomap \<Rightarrow> int gomap" where
  "tally f qs m = foldl (\<lambda>m q. bump (f q) m) m qs"

lemma tally_simps [simp]: "tally f [] m = m" "tally f (q # qs) m = tally f qs (bump (f q) m)"
  by (simp_all add: tally_def)

lemma bump_empty [simp]: "bump '''' m = m"
  by (simp add: bump_def)

lemma count_levels_tally:
  "count_levels (Some nodes) qs (a, b, c, d) =
     (tally (node_label nodes LabelGPUClique) qs a, tally (node_label nodes LabelFabricID) qs b,
      tally (node_label nodes LabelRackID) qs c, tally (node_label nodes LabelAZ) qs d)"
  by (induction qs arbitrary: a b c d) (simp_all add: node_label_def split: sum.split)

definition count_at :: "int gomap \<Rightarrow> string \<Rightarrow> int" where
  "count_at m k = (case lookup m k of None \<Rightarrow> 0 | Some c \<Rightarrow> c)"

lemma count_at_bump: "k \<noteq> '''' \<Longrightarrow> count_at (bump k' m) k = count_at m k + (if k' = k then 1 else 0)"
  by (auto simp: count_at_def bump_def update_conv')

lemma count_at_tally: "k \<noteq> '''' \<Longrightarrow> count_at (tally f qs m) k = count_at m k + count_if (\<lambda>q. f q = k) qs"
  by (induction qs arbitrary: m) (simp_all add: count_at_bump)

lemma bump_Nil_iff: "bump k m = [] \<longleftrightarrow> m = [] \<and> k = ''''"
  by (cases m) (auto simp: bump_def)

lemma tally_Nil_iff: "tally f qs m = [] \<longleftrightarrow> m = [] \<and> (\<forall>q \<in> set qs. f q = '''')"
  by (induction qs arbitrary: m) (auto simp: bump_Nil_iff)

text \<open>One level: the bonus when a member is there, the penalty when members are elsewhere only.\<close>

lemma level_score_tally:
  "level_score c (tally f qs []) b pen =
     (if c = '''' then 0 else if \<exists>q \<in> set qs. f q = c then b
      else if \<exists>q \<in> set qs. f q \<noteq> '''' then - pen else 0)"
  using count_at_tally [of c f qs "[]"] count_if_pos_iff [of "\<lambda>q. f q = c" qs]
  by (auto simp: level_score_def tally_Nil_iff count_at_def)

text \<open>A node shares a level with a gang when some placed member has the node's label there.\<close>

definition shares :: "node_lister \<Rightarrow> string \<Rightarrow> node \<Rightarrow> pod list \<Rightarrow> bool" where
  "shares nodes key n qs \<longleftrightarrow> lookup_str (n_labels n) key \<noteq> '''' \<and> (\<exists>q \<in> set qs. node_label nodes key q = lookup_str (n_labels n) key)"

text \<open>It is foreign at a level when it has a label there, some member has one, and none has the same.\<close>

definition foreign :: "node_lister \<Rightarrow> string \<Rightarrow> node \<Rightarrow> pod list \<Rightarrow> bool" where
  "foreign nodes key n qs \<longleftrightarrow> lookup_str (n_labels n) key \<noteq> '''' \<and>
     (\<exists>q \<in> set qs. node_label nodes key q \<noteq> '''') \<and> (\<forall>q \<in> set qs. node_label nodes key q \<noteq> lookup_str (n_labels n) key)"

definition levels :: "string list" where
  "levels = [LabelGPUClique, LabelFabricID, LabelRackID, LabelAZ]"

lemma level_score_shares:
  "shares nodes key n qs \<Longrightarrow> level_score (lookup_str (n_labels n) key) (tally (node_label nodes key) qs []) b pen = b"
  by (auto simp: level_score_tally shares_def)

lemma level_score_foreign:
  "foreign nodes key n qs \<Longrightarrow> level_score (lookup_str (n_labels n) key) (tally (node_label nodes key) qs []) b pen = - pen"
  by (auto simp: level_score_tally foreign_def)

lemmas nf_weights =
  BonusSameClique_def BonusSameFabricDomain_def BonusSameRack_def BonusSameAZ_def
  PenaltyCrossClique_def PenaltyCrossFabric_def PenaltyCrossRack_def PenaltyCrossAZ_def
  BoostTrainingHighTier_def BoostInferenceLowTier_def PenaltyTrainingLowTier_def PenaltyInferenceHighTier_def

definition locality :: "node_lister \<Rightarrow> slice_lister \<Rightarrow> node \<Rightarrow> pod list \<Rightarrow> int" where
  "locality nodes slices n qs = calculateLocalityScore qs (getNodeClique slices n) (lookup_str (n_labels n) LabelFabricID)
     (lookup_str (n_labels n) LabelRackID) (lookup_str (n_labels n) LabelAZ) (Some nodes)"

lemma getNodeClique_label: "lookup_str (n_labels n) LabelGPUClique \<noteq> '''' \<Longrightarrow> getNodeClique slices n = lookup_str (n_labels n) LabelGPUClique"
  by (simp add: getNodeClique_def)

lemma locality_shares:
  assumes "\<And>key. key \<in> set levels \<Longrightarrow> shares nodes key n qs" and "qs \<noteq> []"
  shows "locality nodes slices n qs = 100"
proof -
  have s: "shares nodes LabelGPUClique n qs" "shares nodes LabelFabricID n qs" "shares nodes LabelRackID n qs"
    "shares nodes LabelAZ n qs" by (rule assms(1), simp add: levels_def)+
  have "getNodeClique slices n = lookup_str (n_labels n) LabelGPUClique"
    using s(1) by (simp add: getNodeClique_label shares_def)
  then show ?thesis using assms(2) s
    by (simp add: locality_def calculateLocalityScore_def count_levels_tally level_score_shares nf_weights)
qed

lemma locality_foreign:
  assumes "\<And>key. key \<in> set levels \<Longrightarrow> foreign nodes key n qs" and "qs \<noteq> []"
  shows "locality nodes slices n qs = - 100"
proof -
  have s: "foreign nodes LabelGPUClique n qs" "foreign nodes LabelFabricID n qs" "foreign nodes LabelRackID n qs"
    "foreign nodes LabelAZ n qs" by (rule assms(1), simp add: levels_def)+
  have "getNodeClique slices n = lookup_str (n_labels n) LabelGPUClique"
    using s(1) by (simp add: getNodeClique_label foreign_def)
  then show ?thesis using assms(2) s
    by (simp add: locality_def calculateLocalityScore_def count_levels_tally level_score_foreign nf_weights)
qed

section \<open>The score of a gang member\<close>

definition clip100 :: "int \<Rightarrow> int" where
  "clip100 v = max 0 (min 100 v)"

lemma clip100_range: "0 \<le> clip100 v" "clip100 v \<le> 100"
  by (simp_all add: clip100_def)

definition fabric_total :: "node_lister \<Rightarrow> slice_lister \<Rightarrow> 'o cycle_state option \<Rightarrow> pod \<Rightarrow> node \<Rightarrow> pod list \<Rightarrow> int" where
  "fabric_total nodes slices state p n qs =
     getFabricTierScore (getFabricType n) + locality nodes slices n qs + getWorkloadFabricBonus state p (getFabricType n)"

definition boosted :: "pod \<Rightarrow> int \<Rightarrow> int" where
  "boosted p v = (if isNetworkSensitive p then f_to_int (fmul (f_int v) WeightNetworkSensitive) else v)"

definition tier_ok :: "pod \<Rightarrow> node \<Rightarrow> bool" where
  "tier_ok p n \<longleftrightarrow> getMinFabricTier p = FabricUnknown \<or> meetsFabricTierRequirement (getFabricType n) (getMinFabricTier p)"

lemma nf_Score_gang:
  assumes "ni_node ni = Some n" and "lookup_str (p_annots p) AnnotationPodGroup = g" "g \<noteq> ''''"
    and "getGangMemberPods lister (p_ns p) g = qs" "qs \<noteq> []"
  shows "nf_Score lister (Some nodes) slices state p ni =
    (if tier_ok p n then clip100 (boosted p (fabric_total nodes slices state p n qs)) else 0, success)"
  using assms by (auto simp: nf_Score_def Let_def tier_ok_def clip100_def boosted_def fabric_total_def locality_def)

lemma tier_score_range: "40 \<le> getFabricTierScore t \<and> getFabricTierScore t \<le> 100"
  by (cases t) simp_all

lemma bonus_range: "- 20 \<le> getWorkloadFabricBonus state p t \<and> getWorkloadFabricBonus state p t \<le> 15"
  by (auto simp: getWorkloadFabricBonus_def Let_def nf_weights)

lemma boosted_float:
  assumes "\<bar>v\<bar> \<le> 1000"
  shows "f_to_int (fmul (f_int v) WeightNetworkSensitive) = f_to_int (Fin (fl (of_int v * (3 / 2))))"
proof -
  have "f_int v = Fin (of_int v)" using assms by (intro f_int_small) simp
  moreover have "\<bar>of_int v * (3 / 2 :: rat)\<bar> \<le> 1000000000000000000000000000000"
  proof -
    have "(of_int v :: rat) \<le> of_int 1000" "of_int (- 1000) \<le> (of_int v :: rat)" using assms by (simp_all only: of_int_le_iff)
    then show ?thesis by simp
  qed
  ultimately show ?thesis by (simp only: WeightNetworkSensitive_def fmul_Fin)
qed

lemma boosted_bounds:
  assumes "\<bar>v\<bar> \<le> 1000"
  shows "120 \<le> v \<Longrightarrow> 100 \<le> boosted p v" and "v \<le> 15 \<Longrightarrow> boosted p v \<le> 22"
proof -
  define x where "x = fl (of_int v * (3 / 2))"
  have v: "(of_int v :: rat) \<le> of_int 1000" "of_int (- 1000) \<le> (of_int v :: rat)" using assms by (simp_all only: of_int_le_iff)
  have x: "x \<le> of_int 1500" "of_int (- 1500) \<le> x"
    unfolding x_def by (rule fl_le_int, simp, use v in simp, rule fl_ge_int, simp, use v in simp)
  note f = boosted_float [OF assms, folded x_def]
  show "100 \<le> boosted p v" if "120 \<le> v"
  proof -
    have "(of_int 120 :: rat) \<le> of_int v" using that by (simp only: of_int_le_iff)
    then have "of_int 180 \<le> x" unfolding x_def by (intro fl_ge_int) simp_all
    from f_to_int_range [OF this x(1)] that f show ?thesis by (simp add: boosted_def i64_def)
  qed
  show "boosted p v \<le> 22" if "v \<le> 15"
  proof -
    have "(of_int v :: rat) \<le> of_int 15" using that by (simp only: of_int_le_iff)
    moreover have "fl (45 / 2) = (45 / 2)" using fl_exact [of 45 "- 1"] by (simp add: power_int_minus)
    ultimately have "x \<le> 45 / 2" unfolding x_def using fl_mono [of "of_int v * (3 / 2)" "45 / 2"] by simp
    then have "trunc x \<le> trunc (45 / 2)" by (rule trunc_mono)
    moreover have "trunc (45 / 2) = 22" by (simp add: trunc_def floor_eq_iff)
    moreover have "- 1500 \<le> trunc x" using trunc_mono [OF x(2)] by (simp only: trunc_of_int)
    ultimately have "f_to_int (Fin x) \<le> 22" by (simp add: i64_def)
    then show ?thesis using that f by (simp add: boosted_def)
  qed
qed

lemma nf_Score_range:
  assumes "ni_node ni \<noteq> None"
  shows "st_code (snd (nf_Score lister nodes slices state p ni)) = Success \<and>
    0 \<le> fst (nf_Score lister nodes slices state p ni) \<and> fst (nf_Score lister nodes slices state p ni) \<le> 100"
proof -
  obtain n where n: "ni_node ni = Some n" using assms by blast
  show ?thesis
    using tier_score_range [of "getFabricType n"] by (simp add: nf_Score_def Let_def n)
qed

interpretation network_fabric: score_plugin
  "\<lambda>(lister, nodes, slices, state, p, ni). nf_Score lister nodes slices state p ni"
  "\<lambda>(lister, nodes, slices, state, p, ni). ni_node ni \<noteq> None"
proof unfold_locales
  fix i :: "pod_lister \<times> node_lister option \<times> slice_lister \<times> 'a cycle_state option \<times> pod \<times> node_info"
  obtain lister nodes slices state p ni where i: "i = (lister, nodes, slices, state, p, ni)" by (cases i)
  assume "case i of (lister, nodes, slices, state, p, ni) \<Rightarrow> ni_node ni \<noteq> None"
  then have "ni_node ni \<noteq> None" by (simp add: i)
  note r = nf_Score_range [OF this, of lister nodes slices state p]
  show "st_code (snd (case i of (lister, nodes, slices, state, p, ni) \<Rightarrow> nf_Score lister nodes slices state p ni)) = Success"
    using r by (simp only: i prod.case)
  show "0 \<le> fst (case i of (lister, nodes, slices, state, p, ni) \<Rightarrow> nf_Score lister nodes slices state p ni) \<and>
      fst (case i of (lister, nodes, slices, state, p, ni) \<Rightarrow> nf_Score lister nodes slices state p ni) \<le> MaxNodeScore"
    using r by (simp only: i prod.case MaxNodeScore_def)
qed

section \<open>Properties\<close>

text \<open>Two racks of two nodes, a node outside every network domain, and members of a gang.\<close>

definition ex_fabric_node :: "string \<Rightarrow> string \<Rightarrow> node" where
  "ex_fabric_node nm d = \<lparr>n_name = nm,
     n_labels = (if d = '''' then [] else [(LabelGPUClique, d), (LabelFabricID, d), (LabelRackID, d), (LabelAZ, d),
       (LabelFabricType, ''nvswitch'')]), n_allocatable = [], n_capacity = []\<rparr>"

definition ex_fabric_nodes :: node_lister where
  "ex_fabric_nodes nm =
     (case lookup [(''a1'', ''A''), (''a2'', ''A''), (''b1'', ''B''), (''c1'', '''')] nm of
        None \<Rightarrow> Inl ''not found'' | Some d \<Rightarrow> Inr (ex_fabric_node nm d))"

definition ex_info :: "string \<Rightarrow> string \<Rightarrow> node_info" where
  "ex_info nm d = \<lparr>ni_node = Some (ex_fabric_node nm d), ni_req_cpu = 0, ni_req_memory = 0, ni_req_scalar = []\<rparr>"

definition ex_nf_pod :: "string \<Rightarrow> string \<Rightarrow> pod" where
  "ex_nf_pod nm host = empty_pod \<lparr>p_name := nm, p_ns := ''ml'', p_node := host,
     p_annots := [(AnnotationPodGroup, ''g''), (AnnotationRequireClique, ''true'')]\<rparr>"

lemma ex_info_node [simp]: "ni_node (ex_info nm d) = Some (ex_fabric_node nm d)"
  by (simp add: ex_info_def)

lemma ex_fabric_lookup:
  "ex_fabric_nodes ''a1'' = Inr (ex_fabric_node ''a1'' ''A'')" "ex_fabric_nodes ''a2'' = Inr (ex_fabric_node ''a2'' ''A'')"
  "ex_fabric_nodes ''b1'' = Inr (ex_fabric_node ''b1'' ''B'')" "ex_fabric_nodes ''c1'' = Inr (ex_fabric_node ''c1'' '''')"
  "n_name (ex_fabric_node nm d) = nm"
  by (simp_all add: ex_fabric_nodes_def ex_fabric_node_def)

lemma ex_nf_pod_member [simp]: "gang_member ''ml'' ''g'' (ex_nf_pod nm host)" "requiresCliqueFilter (ex_nf_pod nm host)"
  by (simp_all add: gang_member_def ex_nf_pod_def requiresCliqueFilter_def lookup_str_def
      AnnotationPodGroup_def AnnotationRequireClique_def)

lemma ex_placements: "placements True ex_fabric_nodes None [ex_nf_pod ''p1'' ''a1''] [(ex_nf_pod ''p2'' '''', ''a2'')]"
proof -
  have p: "ex_nf_pod nm host \<lparr>p_node := h\<rparr> = ex_nf_pod nm h" for nm host h by (simp add: ex_nf_pod_def)
  have f: "st_code (nf_Filter (cache_lister []) ex_fabric_nodes None (ex_nf_pod ''p1'' '''') (ex_info ''a1'' ''A'')) = Success"
    "st_code (nf_Filter (cache_lister [ex_nf_pod ''p1'' ''a1'']) ex_fabric_nodes None (ex_nf_pod ''p2'' '''') (ex_info ''a2'' ''A'')) = Success"
    by code_simp+
  have o: "one_at_a_time (ex_nf_pod nm host) []" for nm host by (simp add: one_at_a_time_def)
  have "placements True ex_fabric_nodes None [] [(ex_nf_pod ''p1'' '''', ''a1'')]"
    using choose [OF start _ ex_info_node [of "''a1''" "''A''"] _ f(1), of True] by (simp add: ex_fabric_lookup o)
  from bind [OF this, of "ex_nf_pod ''p1'' ''''" "''a1''"] have "placements True ex_fabric_nodes None [ex_nf_pod ''p1'' ''a1''] []"
    by (simp add: p)
  from choose [OF this _ ex_info_node [of "''a2''" "''A''"] _ f(2)] show ?thesis by (simp add: ex_fabric_lookup o)
qed

text \<open>C8: The clique filter keeps a gang in one NVLink partition as far as it sees the placements, and no
  further.  In a cluster whose nodes and resource slices do not change, when every member of a gang asks for the filter
  and a member is judged only while no other member of its gang has been chosen without being bound in the cache,
  then whatever pods appear, leave, give up and are bound, and in whatever order the lister returns them, there is one
  clique such that every member that is bound or chosen sits on a node of that clique or on a node of none.
  Without the second condition, which the framework does not ensure, since it binds a chosen pod while it judges the
  next ones, the gang can be split: from every state whose bound members are in no clique, any two
  members can be bound to any two nodes, whatever partitions these are in.\<close>

theorem gang_in_one_clique:
  "(placements True nodes slices ps chosen \<longrightarrow>
     (\<exists>c. \<forall>q \<in> set (placed ps chosen). gang_member ns g q \<longrightarrow> placed_clique nodes slices q \<in> {'''', c})) \<and>
   (placements False nodes slices ps chosen \<and>
      (\<forall>q \<in> set ps. gang_member ns g q \<longrightarrow> placed_clique nodes slices q = '''') \<and>
      gang_member ns g p \<and> gang_member ns g p' \<and> p_node p' = '''' \<and>
      nodes (n_name n) = Inr n \<and> n_name n \<noteq> '''' \<and> nodes (n_name n') = Inr n' \<and> n_name n' \<noteq> '''' \<longrightarrow>
    (\<exists>ps'. placements False nodes slices ps' chosen \<and>
       p\<lparr>p_node := n_name n\<rparr> \<in> set ps' \<and> placed_clique nodes slices (p\<lparr>p_node := n_name n\<rparr>) = getNodeClique slices n \<and>
       p'\<lparr>p_node := n_name n'\<rparr> \<in> set ps' \<and> placed_clique nodes slices (p'\<lparr>p_node := n_name n'\<rparr>) = getNodeClique slices n'))"
proof (intro conjI impI; (elim conjE)?)
  assume "placements True nodes slices ps chosen"
  then show "\<exists>c. \<forall>q \<in> set (placed ps chosen). gang_member ns g q \<longrightarrow> placed_clique nodes slices q \<in> {'''', c}"
    using placements_one_clique by (simp only: one_clique_def)
next
  assume a: "placements False nodes slices ps chosen" "\<forall>q \<in> set ps. gang_member ns g q \<longrightarrow> placed_clique nodes slices q = ''''"
    "gang_member ns g p" "gang_member ns g p'" "p_node p' = ''''" "nodes (n_name n) = Inr n" "n_name n \<noteq> ''''"
    "nodes (n_name n') = Inr n'" "n_name n' \<noteq> ''''"
  obtain ps' where "placements False nodes slices ps' chosen" "p\<lparr>p_node := n_name n\<rparr> \<in> set ps'" "p'\<lparr>p_node := n_name n'\<rparr> \<in> set ps'"
    using placements_split [OF a(1) _ a(3-8)] a(2) by blast
  moreover have "placed_clique nodes slices (q\<lparr>p_node := n_name m\<rparr>) = getNodeClique slices m"
    if "nodes (n_name m) = Inr m" "n_name m \<noteq> ''''" for q m using that by (simp add: placed_clique_def)
  ultimately show "\<exists>ps'. placements False nodes slices ps' chosen \<and>
       p\<lparr>p_node := n_name n\<rparr> \<in> set ps' \<and> placed_clique nodes slices (p\<lparr>p_node := n_name n\<rparr>) = getNodeClique slices n \<and>
       p'\<lparr>p_node := n_name n'\<rparr> \<in> set ps' \<and> placed_clique nodes slices (p'\<lparr>p_node := n_name n'\<rparr>) = getNodeClique slices n'"
    using a(6-9) by blast
qed

text \<open>A member on a node of partition \<^verbatim>\<open>A\<close> with a second one chosen, and a gang over \<^verbatim>\<open>A\<close> and \<^verbatim>\<open>B\<close>.\<close>

lemma gang_in_one_clique_witness:
  "(\<exists>c. \<forall>q \<in> {ex_nf_pod ''p1'' ''a1'', ex_nf_pod ''p2'' ''a2''}. placed_clique ex_fabric_nodes None q \<in> {'''', c}) \<and>
   (\<exists>ps'. placements False ex_fabric_nodes None ps' [] \<and>
      ex_nf_pod ''p1'' ''a1'' \<in> set ps' \<and> placed_clique ex_fabric_nodes None (ex_nf_pod ''p1'' ''a1'') = ''A'' \<and>
      ex_nf_pod ''p2'' ''b1'' \<in> set ps' \<and> placed_clique ex_fabric_nodes None (ex_nf_pod ''p2'' ''b1'') = ''B'')"
proof
  have p: "ex_nf_pod nm host \<lparr>p_node := h\<rparr> = ex_nf_pod nm h" "p_node (ex_nf_pod nm host) = host" for nm host h
    by (simp_all add: ex_nf_pod_def)
  have l: "set (placed [ex_nf_pod ''p1'' ''a1''] [(ex_nf_pod ''p2'' '''', ''a2'')]) = {ex_nf_pod ''p1'' ''a1'', ex_nf_pod ''p2'' ''a2''}"
    by (simp add: placed_def p)
  obtain c where "\<forall>q \<in> {ex_nf_pod ''p1'' ''a1'', ex_nf_pod ''p2'' ''a2''}.
      gang_member ''ml'' ''g'' q \<longrightarrow> placed_clique ex_fabric_nodes None q \<in> {'''', c}"
    using conjunct1 [OF gang_in_one_clique, THEN mp, OF ex_placements, of "''ml''" "''g''"] unfolding l by blast
  then have "\<forall>q \<in> {ex_nf_pod ''p1'' ''a1'', ex_nf_pod ''p2'' ''a2''}. placed_clique ex_fabric_nodes None q \<in> {'''', c}"
    by (simp only: ball_simps ex_nf_pod_member simp_thms)
  then show "\<exists>c. \<forall>q \<in> {ex_nf_pod ''p1'' ''a1'', ex_nf_pod ''p2'' ''a2''}. placed_clique ex_fabric_nodes None q \<in> {'''', c}"
    by blast
  have c: "getNodeClique None (ex_fabric_node ''a1'' ''A'') = ''A''" "getNodeClique None (ex_fabric_node ''b1'' ''B'') = ''B''" by code_simp+
  note s = conjunct2 [OF gang_in_one_clique, THEN mp, of ex_fabric_nodes None "[]" "[]" "''ml''" "''g''" "ex_nf_pod ''p1'' ''''"
      "ex_nf_pod ''p2'' ''''" "ex_fabric_node ''a1'' ''A''" "ex_fabric_node ''b1'' ''B''", unfolded p ex_fabric_lookup c]
  show "\<exists>ps'. placements False ex_fabric_nodes None ps' [] \<and>
      ex_nf_pod ''p1'' ''a1'' \<in> set ps' \<and> placed_clique ex_fabric_nodes None (ex_nf_pod ''p1'' ''a1'') = ''A'' \<and>
      ex_nf_pod ''p2'' ''b1'' \<in> set ps' \<and> placed_clique ex_fabric_nodes None (ex_nf_pod ''p2'' ''b1'') = ''B''"
  proof (rule s, intro conjI)
    show "placements False ex_fabric_nodes None [] []" by (rule start)
    show "''a1'' \<noteq> ''''" "''b1'' \<noteq> ''''" by simp_all
    show "gang_member ''ml'' ''g'' (ex_nf_pod ''p1'' '''')" "gang_member ''ml'' ''g'' (ex_nf_pod ''p2'' '''')"
      by (rule ex_nf_pod_member)+
  qed (rule ballI, simp | rule refl)+
qed

text \<open>The filter does not keep a gang inside a clique once a member sits outside every clique: as
  long as no bound member has a clique, a node of any clique is accepted, so that the gang spans a node
  outside NVLink and a partition, although a later node outside is refused.\<close>

theorem clique_filter_admits_mixed:
  assumes "ni_node ni = Some n" "ni_node ni' = Some n'"
    and "gang_member ns g p" "requiresCliqueFilter p" "gang_member ns g p'" "requiresCliqueFilter p'"
    and "\<And>q. q \<in> set ps \<Longrightarrow> gang_member ns g q \<Longrightarrow> placed_clique nodes slices q = ''''"
    and "q' \<in> set ps'" "gang_member ns g q'" "placed_clique nodes slices q' \<noteq> ''''"
    and "getNodeClique slices n' = ''''"
  shows "st_code (nf_Filter (cache_lister ps) nodes slices p ni) = Success \<and>
    st_code (nf_Filter (cache_lister ps') nodes slices p' ni') \<noteq> Success"
proof -
  have p: "p_ns p = ns" "lookup_str (p_annots p) AnnotationPodGroup = g" "g \<noteq> ''''"
    "p_ns p' = ns" "lookup_str (p_annots p') AnnotationPodGroup = g"
    using assms(3,5) by (simp_all add: gang_member_def)
  have "getGangClique (cache_lister ps) nodes slices ns g = ''''"
    using assms(7) gang_members_cache [OF p(3), of ps ns] by (simp add: getGangClique_def first_pod_clique_empty)
  moreover have "p_node q' \<noteq> ''''" using assms(10) by (auto simp: placed_clique_def)
  then have "getGangClique (cache_lister ps') nodes slices ns g \<noteq> ''''"
    using assms(8,9,10) gang_members_cache [OF p(3), of ps' ns] by (auto simp: getGangClique_def first_pod_clique_empty)
  ultimately show ?thesis
    using nf_Filter_success_iff [OF assms(1) p(2,3) assms(4), of "cache_lister ps" nodes slices]
      nf_Filter_success_iff [OF assms(2) p(5,3) assms(6), of "cache_lister ps'" nodes slices] assms(11) p(1,4) by simp
qed

lemma clique_filter_admits_mixed_witness:
  "st_code (nf_Filter (cache_lister [ex_nf_pod ''p1'' ''c1'']) ex_fabric_nodes None (ex_nf_pod ''p2'' '''') (ex_info ''a1'' ''A'')) = Success \<and>
   st_code (nf_Filter (cache_lister [ex_nf_pod ''p2'' ''a1'', ex_nf_pod ''p1'' ''c1'']) ex_fabric_nodes None
     (ex_nf_pod ''p3'' '''') (ex_info ''c1'' '''')) \<noteq> Success"
proof -
  have c: "placed_clique ex_fabric_nodes None (ex_nf_pod ''p1'' ''c1'') = ''''"
    "placed_clique ex_fabric_nodes None (ex_nf_pod ''p2'' ''a1'') \<noteq> ''''" "getNodeClique None (ex_fabric_node ''c1'' '''') = ''''"
    by code_simp+
  show ?thesis
    by (rule clique_filter_admits_mixed [OF ex_info_node ex_info_node ex_nf_pod_member ex_nf_pod_member _ _ ex_nf_pod_member(1) c(2,3)])
       (use c(1) in simp_all)
qed

text \<open>The domain of the gang wins by a wide margin: a node that shares the clique, the fabric, the
  rack and the zone of placed members and has the required tier scores the full 100, whatever its own
  fabric and the workload; a node that is foreign to the gang at all four levels scores at most 22, even
  for a network-sensitive pod on the best fabric.\<close>

theorem nf_Score_prefers_domain:
  assumes "lookup_str (p_annots p) AnnotationPodGroup = g" "g \<noteq> ''''"
    and "getGangMemberPods lister (p_ns p) g = qs" "qs \<noteq> []"
    and "ni_node ni = Some n" "tier_ok p n" "\<And>key. key \<in> set levels \<Longrightarrow> shares nodes key n qs"
    and "ni_node ni' = Some n'" "\<And>key. key \<in> set levels \<Longrightarrow> foreign nodes key n' qs"
  shows "fst (nf_Score lister (Some nodes) slices state p ni) = 100 \<and>
    fst (nf_Score lister (Some nodes) slices state p ni') \<le> 22"
proof -
  let ?t = "fabric_total nodes slices state p n qs" and ?t' = "fabric_total nodes slices state p n' qs"
  have "120 \<le> ?t" "\<bar>?t\<bar> \<le> 1000"
    using locality_shares [OF assms(7,4)] tier_score_range [of "getFabricType n"] bonus_range [of state p "getFabricType n"]
    by (simp_all add: fabric_total_def abs_le_iff)
  then have "clip100 (boosted p ?t) = 100" using boosted_bounds(1) [of ?t p] by (simp add: clip100_def)
  moreover have "?t' \<le> 15" "\<bar>?t'\<bar> \<le> 1000"
    using locality_foreign [OF assms(9,4)] tier_score_range [of "getFabricType n'"] bonus_range [of state p "getFabricType n'"]
    by (simp_all add: fabric_total_def abs_le_iff)
  then have "clip100 (boosted p ?t') \<le> 22" using boosted_bounds(2) [of ?t' p] by (simp add: clip100_def)
  ultimately show ?thesis
    using nf_Score_gang [OF assms(5,1,2,3,4), of nodes slices state] nf_Score_gang [OF assms(8,1,2,3,4), of nodes slices state]
      assms(6) by simp
qed

lemma nf_Score_prefers_domain_witness:
  "fst (nf_Score (cache_lister [ex_nf_pod ''p1'' ''a1'']) (Some ex_fabric_nodes) None (None :: unit cycle_state option)
     (ex_nf_pod ''p2'' '''') (ex_info ''a2'' ''A'')) = 100 \<and>
   fst (nf_Score (cache_lister [ex_nf_pod ''p1'' ''a1'']) (Some ex_fabric_nodes) None (None :: unit cycle_state option)
     (ex_nf_pod ''p2'' '''') (ex_info ''b1'' ''B'')) \<le> 22"
proof -
  let ?p = "ex_nf_pod ''p2'' ''''" and ?qs = "[ex_nf_pod ''p1'' ''a1'']"
  have m: "getGangMemberPods (cache_lister ?qs) (p_ns ?p) ''g'' = ?qs" by code_simp
  have g: "lookup_str (p_annots ?p) AnnotationPodGroup = ''g''" "tier_ok ?p (ex_fabric_node ''a2'' ''A'')" by code_simp+
  have l: "node_label ex_fabric_nodes key (ex_nf_pod ''p1'' ''a1'') = ''A''" "lookup_str (n_labels (ex_fabric_node ''a2'' ''A'')) key = ''A''"
    "lookup_str (n_labels (ex_fabric_node ''b1'' ''B'')) key = ''B''" if "key \<in> set levels" for key
  proof -
    have "list_all (\<lambda>key. node_label ex_fabric_nodes key (ex_nf_pod ''p1'' ''a1'') = ''A'' \<and>
       lookup_str (n_labels (ex_fabric_node ''a2'' ''A'')) key = ''A'' \<and>
       lookup_str (n_labels (ex_fabric_node ''b1'' ''B'')) key = ''B'') levels" by code_simp
    then show "node_label ex_fabric_nodes key (ex_nf_pod ''p1'' ''a1'') = ''A''" "lookup_str (n_labels (ex_fabric_node ''a2'' ''A'')) key = ''A''"
      "lookup_str (n_labels (ex_fabric_node ''b1'' ''B'')) key = ''B''" using that by (simp_all add: list_all_iff)
  qed
  show ?thesis
    by (rule nf_Score_prefers_domain [OF g(1) _ m _ ex_info_node g(2) _ ex_info_node])
       (simp_all add: shares_def foreign_def l)
qed

end
