(* ===== verification/NumaTopology.thy ===== *)
theory NumaTopology
  imports Workload GoParseFloat
begin

text \<open>
  \<^verbatim>\<open>pkg/plugins/numatopology/numatopology.go\<close>, first part: the NUMA topology a node's labels
  describe, the CPU lists, the policy and the requests of a pod, and the map from GPUs to NUMA nodes.

  Parsing a topology may fail to return at all: the slice for the declared number of NUMA nodes may
  be larger than the address space, and a CPU range that ends at the largest \<^verbatim>\<open>int\<close> never
  leaves its loop, because the counter wraps around.  Such a call has the value \<^verbatim>\<open>None\<close>.
\<close>

section \<open>Constants\<close>

definition LabelNUMANodeCount :: string where
  "LabelNUMANodeCount = ''numa.kubenexus.io/node-count''"
definition AnnotationNUMAPolicy :: string where
  "AnnotationNUMAPolicy = ''scheduling.kubenexus.io/numa-policy''"
definition AnnotationNUMAAffinityNodeID :: string where
  "AnnotationNUMAAffinityNodeID = ''scheduling.kubenexus.io/numa-affinity-node-id''"
definition AnnotationNUMAAntiAffinityNodeID :: string where
  "AnnotationNUMAAntiAffinityNodeID = ''scheduling.kubenexus.io/numa-anti-affinity-node-id''"
definition AnnotationMemoryIntensive :: string where
  "AnnotationMemoryIntensive = ''scheduling.kubenexus.io/memory-intensive''"

definition NUMAPolicySingleNode :: string where "NUMAPolicySingleNode = ''single-numa-node''"
definition NUMAPolicyBestEffort :: string where "NUMAPolicyBestEffort = ''best-effort''"
definition NUMAPolicyNone :: string where "NUMAPolicyNone = ''none''"
definition DefaultBatchNUMAPolicy :: string where "DefaultBatchNUMAPolicy = NUMAPolicySingleNode"

section \<open>Types\<close>

text \<open>The distance map has the NUMA node IDs as keys, in ascending order.\<close>

record numa_node =
  nn_id :: int
  nn_cpus :: "int list"
  nn_total_memory :: int
  nn_available_cpus :: int
  nn_available_memory :: int
  nn_distance :: "(int \<times> int) list"
  nn_bandwidth :: int

datatype topo_error = MissingCount | InvalidCount | NoValidNodes

section \<open>CPU lists\<close>

text \<open>\<^verbatim>\<open>for i := start; i <= end; i++\<close> with the increment of a 64-bit \<^verbatim>\<open>int\<close>.\<close>

partial_function (option) cpu_range :: "int \<Rightarrow> int \<Rightarrow> int list option" where
  "cpu_range i e =
     (if i \<le> e then Option.bind (cpu_range (wrap64 (i + 1)) e) (\<lambda>cpus. Some (i # cpus)) else Some [])"

declare cpu_range.simps [code]

text \<open>One comma-separated item.\<close>

definition parse_cpu_item :: "string \<Rightarrow> (num_error + int list) option" where
  "parse_cpu_item r =
     (case split_on CHR ''-'' (trim_space r) of
        [a] \<Rightarrow> (case atoi a of Inl e \<Rightarrow> Some (Inl e) | Inr cpu \<Rightarrow> Some (Inr [cpu]))
      | [a, b] \<Rightarrow>
         (case atoi a of
            Inl e \<Rightarrow> Some (Inl e)
          | Inr start \<Rightarrow>
             (case atoi b of
                Inl e \<Rightarrow> Some (Inl e)
              | Inr stop \<Rightarrow> Option.bind (cpu_range start stop) (\<lambda>cpus. Some (Inr cpus))))
      | _ \<Rightarrow> Some (Inl ErrSyntax))"

fun parse_cpu_items :: "string list \<Rightarrow> (num_error + int list) option" where
  "parse_cpu_items [] = Some (Inr [])"
| "parse_cpu_items (r # rs) =
     (case parse_cpu_item r of
        None \<Rightarrow> None
      | Some (Inl e) \<Rightarrow> Some (Inl e)
      | Some (Inr cpus) \<Rightarrow>
         (case parse_cpu_items rs of
            None \<Rightarrow> None
          | Some (Inl e) \<Rightarrow> Some (Inl e)
          | Some (Inr rest) \<Rightarrow> Some (Inr (cpus @ rest))))"

definition parseCPUList :: "string \<Rightarrow> (num_error + int list) option" where
  "parseCPUList cpuList = parse_cpu_items (split_on CHR '','' cpuList)"

section \<open>The topology of a node\<close>

definition numa_label :: "int \<Rightarrow> string \<Rightarrow> string" where
  "numa_label i what = ''numa.kubenexus.io/node-'' @ itoa i @ what"

text \<open>A number that counts only when its label is there and parses.\<close>

definition label_number :: "string gomap \<Rightarrow> string \<Rightarrow> int option" where
  "label_number labels key =
     (case lookup labels key of
        None \<Rightarrow> None
      | Some s \<Rightarrow> (case atoi s of Inl _ \<Rightarrow> None | Inr n \<Rightarrow> Some n))"

definition distance_label :: "int \<Rightarrow> int \<Rightarrow> string" where
  "distance_label i j = numa_label i (''-distance-'' @ itoa j)"

definition parse_distances :: "string gomap \<Rightarrow> int \<Rightarrow> int \<Rightarrow> (int \<times> int) list" where
  "parse_distances labels cnt i =
     List.map_filter (\<lambda>j. map_option (Pair j) (label_number labels (distance_label i j))) [0..cnt - 1]"

text \<open>
  The body of the loop over the NUMA nodes: \<^verbatim>\<open>Some None\<close> is a NUMA node that is skipped
  because a label is missing or malformed.
\<close>

definition parse_numa_node :: "string gomap \<Rightarrow> int \<Rightarrow> int \<Rightarrow> numa_node option option" where
  "parse_numa_node labels cnt i =
     (case lookup labels (numa_label i ''-cpus'') of
        None \<Rightarrow> Some None
      | Some cpusStr \<Rightarrow>
         (case parseCPUList cpusStr of
            None \<Rightarrow> None
          | Some (Inl _) \<Rightarrow> Some None
          | Some (Inr cpus) \<Rightarrow>
             (case lookup labels (numa_label i ''-memory'') of
                None \<Rightarrow> Some None
              | Some memStr \<Rightarrow>
                 (case atoi memStr of
                    Inl _ \<Rightarrow> Some None
                  | Inr memory \<Rightarrow>
                      Some (Some \<lparr>nn_id = i, nn_cpus = cpus, nn_total_memory = memory,
                        nn_available_cpus = int (length cpus), nn_available_memory = memory,
                        nn_distance = parse_distances labels cnt i,
                        nn_bandwidth = (case label_number labels (numa_label i ''-bandwidth'') of
                                          None \<Rightarrow> 0 | Some bw \<Rightarrow> bw)\<rparr>)))))"

fun parse_numa_nodes :: "string gomap \<Rightarrow> int \<Rightarrow> int list \<Rightarrow> numa_node list option" where
  "parse_numa_nodes labels cnt [] = Some []"
| "parse_numa_nodes labels cnt (i # is) =
     (case parse_numa_node labels cnt i of
        None \<Rightarrow> None
      | Some r \<Rightarrow>
         (case parse_numa_nodes labels cnt is of
            None \<Rightarrow> None
          | Some ns \<Rightarrow> Some (case r of None \<Rightarrow> ns | Some n \<Rightarrow> n # ns)))"

text \<open>
  \<^verbatim>\<open>make([]NUMANode, 0, count)\<close> panics when \<^verbatim>\<open>count\<close> elements of 72 bytes exceed the
  address space of 48 bits.
\<close>

definition numa_slice_fits :: "int \<Rightarrow> bool" where
  "numa_slice_fits cnt \<longleftrightarrow> 72 * cnt \<le> 2 ^ 48"

definition parseNUMATopology :: "node \<Rightarrow> (topo_error + numa_node list) option" where
  "parseNUMATopology n =
     (case lookup (n_labels n) LabelNUMANodeCount of
        None \<Rightarrow> Some (Inl MissingCount)
      | Some countStr \<Rightarrow>
         (case atoi countStr of
            Inl _ \<Rightarrow> Some (Inl InvalidCount)
          | Inr cnt \<Rightarrow>
              if cnt \<le> 0 then Some (Inl InvalidCount)
              else if \<not> numa_slice_fits cnt then None
              else (case parse_numa_nodes (n_labels n) cnt [0..cnt - 1] of
                      None \<Rightarrow> None
                    | Some numaNodes \<Rightarrow>
                        if numaNodes = [] then Some (Inl NoValidNodes) else Some (Inr numaNodes))))"

section \<open>The pod\<close>

definition getNUMAPolicy :: "pod \<Rightarrow> string" where
  "getNUMAPolicy p =
     (let inferred = (if ClassifyPod (Some p) = TypeBatch then DefaultBatchNUMAPolicy else NUMAPolicyNone)
      in case lookup (p_annots p) AnnotationNUMAPolicy of
           Some policy \<Rightarrow>
             if policy = NUMAPolicySingleNode \<or> policy = NUMAPolicyBestEffort \<or> policy = NUMAPolicyNone
             then policy else inferred
         | None \<Rightarrow> inferred)"

text \<open>The cores, rounded up after adding the containers' millicores, and the bytes of memory.\<close>

definition numa_getPodResourceRequests :: "pod \<Rightarrow> int \<times> int" where
  "numa_getPodResourceRequests p =
     (let cpu = sum64 (map (\<lambda>c. q_milli (res_cpu (c_requests c))) (p_containers p));
          memory = sum64 (map (\<lambda>c. q_value (res_memory (c_requests c))) (p_containers p))
      in (quot (wrap64 (cpu + 999)) 1000, memory))"

definition isMemoryIntensive :: "pod \<Rightarrow> bool" where
  "isMemoryIntensive p \<longleftrightarrow>
     (if lookup (p_annots p) AnnotationMemoryIntensive = Some ''true'' then True
      else let memory = snd (numa_getPodResourceRequests p);
               cores = sum64 (map (\<lambda>c. quot (wrap64 (q_milli (res_cpu (c_requests c)) + 999)) 1000) (p_containers p));
               cpuCores = (if cores = 0 then 1 else cores);
               memoryGB = quot memory (1024 * 1024 * 1024);
               memPerCore = quot memoryGB cpuCores
           in memoryGB > 16 \<and> memPerCore > 4)"

definition parseNUMAIDList :: "string \<Rightarrow> int list" where
  "parseNUMAIDList idList =
     List.map_filter (\<lambda>part. case atoi (trim_space part) of Inl _ \<Rightarrow> None | Inr i \<Rightarrow> Some i)
       (split_on CHR '','' idList)"

definition getNUMAAffinityPreferences :: "pod \<Rightarrow> int list \<times> int list" where
  "getNUMAAffinityPreferences p =
     ((case lookup (p_annots p) AnnotationNUMAAffinityNodeID of
         None \<Rightarrow> [] | Some affinity \<Rightarrow> parseNUMAIDList affinity),
      (case lookup (p_annots p) AnnotationNUMAAntiAffinityNodeID of
         None \<Rightarrow> [] | Some antiAffinity \<Rightarrow> parseNUMAIDList antiAffinity))"

definition isNUMAInList :: "int \<Rightarrow> int list \<Rightarrow> bool" where
  "isNUMAInList numaID ids \<longleftrightarrow> list_ex (\<lambda>i. i = numaID) ids"

section \<open>GPUs\<close>

text \<open>The map from the index of a GPU, below 16, to its NUMA node.\<close>

definition getGPUNUMAMapping :: "node \<Rightarrow> (int \<times> int) list" where
  "getGPUNUMAMapping n =
     List.map_filter (\<lambda>i. map_option (Pair i) (label_number (n_labels n) (''gpu.kubenexus.io/numa-node-'' @ itoa i)))
       [0..15]"

definition gpus_requested :: "pod \<Rightarrow> int" where
  "gpus_requested p = sum64 (map (\<lambda>c. gpu_value (c_requests c)) (p_containers p))"

definition gpus_on_numa :: "int \<Rightarrow> (int \<times> int) list \<Rightarrow> int" where
  "gpus_on_numa numaID mapping = count_if (\<lambda>(i, numa). numa = numaID) mapping"

definition canFitGPUsInNUMA :: "pod \<Rightarrow> numa_node \<Rightarrow> (int \<times> int) list \<Rightarrow> bool" where
  "canFitGPUsInNUMA p numa mapping \<longleftrightarrow>
     (if gpus_requested p = 0 then True
      else if mapping = [] then True
      else gpus_on_numa (nn_id numa) mapping \<ge> gpus_requested p)"

definition BonusGPUNUMACoLocation :: int where "BonusGPUNUMACoLocation = 15"
definition PenaltyGPUNUMAMismatch :: int where "PenaltyGPUNUMAMismatch = 25"

definition calculateGPUNUMABonus :: "pod \<Rightarrow> numa_node \<Rightarrow> (int \<times> int) list \<Rightarrow> int" where
  "calculateGPUNUMABonus p numa mapping =
     (if gpus_requested p = 0 then 0
      else if mapping = [] then 0
      else if gpus_on_numa (nn_id numa) mapping \<ge> gpus_requested p then BonusGPUNUMACoLocation
      else - PenaltyGPUNUMAMismatch)"

section \<open>CPU ranges\<close>

lemma cpu_range_upto:
  assumes "i64 i" "i64 e" "e < 9223372036854775807"
  shows "cpu_range i e = Some [i..e]"
  using assms
proof (induction "nat (e - i + 1)" arbitrary: i)
  case 0
  then show ?case by (subst cpu_range.simps) simp
next
  case (Suc k)
  then have le: "i \<le> e" and k: "k = nat (e - (i + 1) + 1)" by simp_all
  have i: "i64 (i + 1)" using le Suc.prems by (simp add: i64_def)
  then have "cpu_range (wrap64 (i + 1)) e = Some [i + 1..e]"
    using Suc.hyps(1) [OF k i Suc.prems(2,3)] by (simp add: wrap64_id)
  then show ?case using le by (subst cpu_range.simps) (simp add: upto_rec1)
qed

lemma cpu_range_empty: "e < i \<Longrightarrow> cpu_range i e = Some []"
  by (subst cpu_range.simps) simp

text \<open>With the largest 64-bit number as the end the condition of the loop is always true.\<close>

lemma cpu_range_stuck:
  assumes "cpu_range i e = Some ys"
  shows "i64 i \<longrightarrow> e \<noteq> 9223372036854775807"
proof (rule cpu_range.raw_induct [OF _ assms, of "\<lambda>i e ys. i64 i \<longrightarrow> e \<noteq> 9223372036854775807"])
  fix f :: "int \<Rightarrow> int \<Rightarrow> int list option" and i e :: int and ys
  assume IH: "\<And>i e ys. f i e = Some ys \<Longrightarrow> i64 i \<longrightarrow> e \<noteq> 9223372036854775807"
    and eq: "(if i \<le> e then Option.bind (f (wrap64 (i + 1)) e) (\<lambda>cpus. Some (i # cpus)) else Some []) = Some ys"
  show "i64 i \<longrightarrow> e \<noteq> 9223372036854775807"
  proof (intro impI notI)
    assume a: "i64 i" "e = 9223372036854775807"
    then have "i \<le> e" by (simp add: i64_def)
    then obtain zs where "f (wrap64 (i + 1)) e = Some zs" using eq by (auto split: bind_splits)
    from IH [OF this] a show False by simp
  qed
qed

text \<open>C38: The loop over a CPU range returns, with exactly the CPUs from the start to the end, for every
  pair of 64-bit numbers but one kind: when the end is the largest 64-bit number and the range is not
  empty, the increment wraps around below the end, the loop never ends and the slice grows without
  bound.\<close>

theorem cpu_range_returns_iff:
  assumes "i64 i" and "i64 e"
  shows "cpu_range i e = (if i \<le> e \<and> e = 2 ^ 63 - 1 then None else Some [i..e])"
proof (cases "i \<le> e \<and> e = 2 ^ 63 - 1")
  case True
  then have "cpu_range i e \<noteq> Some ys" for ys using cpu_range_stuck [of i e ys] assms(1) by auto
  with True show ?thesis by (cases "cpu_range i e") auto
next
  case False
  then show ?thesis
    using cpu_range_upto [of i e] cpu_range_empty [of e i] assms by (auto simp: i64_def)
qed

lemma cpu_range_returns_iff_witness:
  "cpu_range 0 (2 ^ 63 - 1) = None \<and> cpu_range 2 4 = Some [2, 3, 4]"
  using cpu_range_returns_iff [of 0 "2 ^ 63 - 1"] cpu_range_returns_iff [of 2 4]
  by (simp add: i64_def upto.simps)

section \<open>Parsing what was printed\<close>

text \<open>The list a node labeller writes: ranges joined by commas.\<close>

definition print_cpu_range :: "int \<times> int \<Rightarrow> string" where
  "print_cpu_range r = (if fst r = snd r then itoa (fst r) else itoa (fst r) @ ''-'' @ itoa (snd r))"

fun print_cpu_list :: "(int \<times> int) list \<Rightarrow> string" where
  "print_cpu_list [] = ''''"
| "print_cpu_list [r] = print_cpu_range r"
| "print_cpu_list (r # rs) = print_cpu_range r @ '','' @ print_cpu_list rs"

lemma digit_char_ne:
  assumes "d < 10" "(of_char c :: nat) < 48 \<or> 57 < (of_char c :: nat)"
  shows "digit_char d \<noteq> c"
  using of_char_digit_char [OF assms(1)] assms by auto

lemma itoa_nonneg_chars: "0 \<le> n \<Longrightarrow> c \<in> set (itoa n) \<Longrightarrow> \<exists>d<10. c = digit_char d"
  using nat_digits_digits by (auto simp: itoa_def)

lemma itoa_no_char:
  assumes "0 \<le> n" "(of_char c :: nat) < 48 \<or> 57 < (of_char c :: nat)"
  shows "c \<notin> set (itoa n)"
  using itoa_nonneg_chars [OF assms(1)] digit_char_ne assms(2) by metis

lemma trim_space_no_space:
  assumes "\<forall>c \<in> set s. \<not> is_space c"
  shows "trim_space s = s"
proof -
  have d: "dropWhile is_space t = t" if "\<forall>c \<in> set t. \<not> is_space c" for t
    using that by (cases t) auto
  show ?thesis using d [OF assms] d [of "rev s"] assms by (simp add: trim_space_def)
qed

lemma print_cpu_range_chars:
  assumes "0 \<le> fst r" "0 \<le> snd r" "c \<in> set (print_cpu_range r)"
  shows "c = CHR ''-'' \<or> (\<exists>d<10. c = digit_char d)"
  using assms itoa_nonneg_chars [of "fst r" c] itoa_nonneg_chars [of "snd r" c]
  by (auto simp: print_cpu_range_def split: if_splits)

lemma print_cpu_range_no_space:
  assumes "0 \<le> fst r" "0 \<le> snd r"
  shows "trim_space (print_cpu_range r) = print_cpu_range r"
proof (rule trim_space_no_space, rule ballI)
  fix c assume "c \<in> set (print_cpu_range r)"
  then consider "c = CHR ''-''" | d where "d < 10" "c = digit_char d"
    using print_cpu_range_chars [OF assms] by blast
  then show "\<not> is_space c"
    by cases (simp_all add: is_space_def of_char_digit_char)
qed

lemma print_cpu_range_no_comma:
  assumes "0 \<le> fst r" "0 \<le> snd r"
  shows "CHR '','' \<notin> set (print_cpu_range r)"
proof
  assume "CHR '','' \<in> set (print_cpu_range r)"
  then obtain d where "d < 10" "CHR '','' = digit_char d" using print_cpu_range_chars [OF assms] by force
  moreover from \<open>d < 10\<close> have "digit_char d \<noteq> CHR '',''" by (rule digit_char_ne) simp
  ultimately show False by simp
qed

definition cpu_bounds :: "int \<times> int \<Rightarrow> bool" where
  "cpu_bounds r \<longleftrightarrow> 0 \<le> fst r \<and> fst r \<le> snd r \<and> snd r < 2 ^ 63 - 1"

lemma parse_print_cpu_range:
  assumes "cpu_bounds r"
  shows "parse_cpu_item (print_cpu_range r) = Some (Inr [fst r..snd r])"
proof -
  have b: "0 \<le> fst r" "0 \<le> snd r" "i64 (fst r)" "i64 (snd r)" "snd r < 9223372036854775807"
    using assms by (auto simp: cpu_bounds_def i64_def)
  have m: "CHR ''-'' \<notin> set (itoa (fst r))" "CHR ''-'' \<notin> set (itoa (snd r))"
    using b by (simp_all add: itoa_no_char)
  note t = print_cpu_range_no_space [OF b(1,2)]
  show ?thesis
  proof (cases "fst r = snd r")
    case True
    then have "print_cpu_range r = itoa (fst r)" by (simp add: print_cpu_range_def)
    then show ?thesis
      using t m(1) True by (simp add: parse_cpu_item_def split_on_no_sep atoi_itoa b)
  next
    case False
    then have "print_cpu_range r = itoa (fst r) @ CHR ''-'' # itoa (snd r)" by (simp add: print_cpu_range_def)
    then show ?thesis
      using t m by (simp add: parse_cpu_item_def split_on_append split_on_no_sep atoi_itoa b cpu_range_upto)
  qed
qed

text \<open>C37: Reading back a CPU list: a list of ranges printed the way the label writes it,
  \<^verbatim>\<open>0-15,32-47\<close>, parses to exactly the CPUs of the ranges in order, so that the number of CPUs of
  a NUMA node is the sum of the sizes of its ranges.\<close>

theorem parseCPUList_roundtrip:
  assumes "rs \<noteq> []" and "\<forall>r \<in> set rs. cpu_bounds r"
  shows "parseCPUList (print_cpu_list rs) = Some (Inr (concat (map (\<lambda>(s, e). [s..e]) rs)))"
  using assms
proof (induction rs rule: print_cpu_list.induct)
  case (2 r)
  then have b: "cpu_bounds r" "0 \<le> fst r" "0 \<le> snd r" by (auto simp: cpu_bounds_def)
  show ?case
    by (simp add: parseCPUList_def split_on_no_sep print_cpu_range_no_comma b parse_print_cpu_range case_prod_beta)
next
  case (3 r r' rs)
  then have b: "cpu_bounds r" "0 \<le> fst r" "0 \<le> snd r" by (auto simp: cpu_bounds_def)
  from 3 show ?case
    by (simp add: parseCPUList_def split_on_append print_cpu_range_no_comma b parse_print_cpu_range case_prod_beta)
qed simp

lemma parseCPUList_roundtrip_witness:
  "parseCPUList ''0-1,8,32-33'' = Some (Inr [0, 1, 8, 32, 33])"
proof -
  have "print_cpu_list [(0, 1), (8, 8), (32, 33)] = ''0-1,8,32-33''" by code_simp
  then show ?thesis
    using parseCPUList_roundtrip [of "[(0, 1), (8, 8), (32, 33)]"] by (simp add: cpu_bounds_def upto.simps)
qed

section \<open>Well-formed topologies\<close>

lemma split_on_no_sep_parts: "p \<in> set (split_on c s) \<Longrightarrow> c \<notin> set p"
  by (induction s arbitrary: p) (auto split: if_splits list.splits)

lemma atoi_unsigned: "CHR ''-'' \<notin> set s \<Longrightarrow> atoi s = Inr n \<Longrightarrow> 0 \<le> n"
  using parse_uint_nonneg by (auto simp: atoi_def Let_def split: list.splits sum.splits if_splits)

lemma cpu_range_Some: "i64 i \<Longrightarrow> i64 e \<Longrightarrow> cpu_range i e = Some cpus \<Longrightarrow> cpus = [i..e]"
  using cpu_range_upto [of i e] cpu_range_empty [of e i] cpu_range_stuck [of i e cpus]
  by (cases "e = 2 ^ 63 - 1"; cases "i \<le> e") (auto simp: i64_def)

definition cpu_id :: "int \<Rightarrow> bool" where
  "cpu_id c \<longleftrightarrow> 0 \<le> c \<and> i64 c"

lemma parse_cpu_item_ids:
  assumes "parse_cpu_item r = Some (Inr cpus)"
  shows "\<forall>c \<in> set cpus. cpu_id c"
proof -
  define parts where "parts = split_on CHR ''-'' (trim_space r)"
  have n: "0 \<le> k \<and> i64 k" if "p \<in> set parts" "atoi p = Inr k" for p k
    using that split_on_no_sep_parts atoi_unsigned atoi_i64 unfolding parts_def by blast
  from assms consider a k where "parts = [a]" "atoi a = Inr k" "cpus = [k]"
    | a b j k where "parts = [a, b]" "atoi a = Inr j" "atoi b = Inr k" "cpu_range j k = Some cpus"
    unfolding parse_cpu_item_def parts_def [symmetric]
    by (auto split: list.splits sum.splits bind_splits)
  then show ?thesis
  proof cases
    case 1
    then show ?thesis using n [of a k] by (simp add: cpu_id_def)
  next
    case 2
    then have jk: "0 \<le> j \<and> i64 j" "0 \<le> k \<and> i64 k" using n [of a j] n [of b k] by simp_all
    then have "cpus = [j..k]" using 2(4) cpu_range_Some by blast
    then show ?thesis using jk by (auto simp: cpu_id_def i64_def)
  qed
qed

lemma parse_cpu_items_ids: "parse_cpu_items rs = Some (Inr cpus) \<Longrightarrow> \<forall>c \<in> set cpus. cpu_id c"
proof (induction rs arbitrary: cpus)
  case (Cons r rs)
  then obtain a b where "parse_cpu_item r = Some (Inr a)" "parse_cpu_items rs = Some (Inr b)" "cpus = a @ b"
    by (auto split: option.splits sum.splits)
  with Cons.IH [of b] parse_cpu_item_ids [of r a] show ?case by auto
qed simp

lemma parseCPUList_ids: "parseCPUList s = Some (Inr cpus) \<Longrightarrow> \<forall>c \<in> set cpus. cpu_id c"
  by (simp add: parseCPUList_def parse_cpu_items_ids)

text \<open>What every NUMA node of a parsed topology satisfies, when \<^verbatim>\<open>cnt\<close> were declared.\<close>

definition numa_node_wf :: "int \<Rightarrow> numa_node \<Rightarrow> bool" where
  "numa_node_wf cnt nd \<longleftrightarrow>
     0 \<le> nn_id nd \<and> nn_id nd < cnt \<and> (\<forall>c \<in> set (nn_cpus nd). cpu_id c) \<and>
     nn_available_cpus nd = int (length (nn_cpus nd)) \<and> nn_available_memory nd = nn_total_memory nd \<and>
     i64 (nn_total_memory nd) \<and> i64 (nn_bandwidth nd) \<and>
     distinct (map fst (nn_distance nd)) \<and> (\<forall>(j, d) \<in> set (nn_distance nd). 0 \<le> j \<and> j < cnt \<and> i64 d)"

lemma map_filter_pairs:
  "distinct js \<Longrightarrow> distinct (map fst (List.map_filter (\<lambda>j. map_option (Pair j) (f j)) js)) \<and>
   set (map fst (List.map_filter (\<lambda>j. map_option (Pair j) (f j)) js)) \<subseteq> set js"
  by (induction js) (auto simp: List.map_filter_simps split: option.splits)

lemma label_number_i64: "label_number labels key = Some k \<Longrightarrow> i64 k"
  using atoi_i64 by (auto simp: label_number_def split: option.splits sum.splits)

lemma parse_distances_wf:
  "distinct (map fst (parse_distances labels cnt i))"
  "(j, d) \<in> set (parse_distances labels cnt i) \<Longrightarrow> 0 \<le> j \<and> j < cnt \<and> i64 d"
proof -
  show "distinct (map fst (parse_distances labels cnt i))"
    unfolding parse_distances_def by (rule map_filter_pairs [THEN conjunct1]) simp
  show "0 \<le> j \<and> j < cnt \<and> i64 d" if "(j, d) \<in> set (parse_distances labels cnt i)"
    using that label_number_i64 by (auto simp: parse_distances_def List.map_filter_def)
qed

lemma parse_numa_node_wf:
  assumes "parse_numa_node labels cnt i = Some (Some nd)" "0 \<le> i" "i < cnt"
  shows "nn_id nd = i \<and> numa_node_wf cnt nd"
proof -
  obtain cpus memory where "(\<exists>s. parseCPUList s = Some (Inr cpus))" "i64 memory"
    and nd: "nd = \<lparr>nn_id = i, nn_cpus = cpus, nn_total_memory = memory, nn_available_cpus = int (length cpus),
       nn_available_memory = memory, nn_distance = parse_distances labels cnt i,
       nn_bandwidth = (case label_number labels (numa_label i ''-bandwidth'') of None \<Rightarrow> 0 | Some bw \<Rightarrow> bw)\<rparr>"
    using assms(1) atoi_i64 unfolding parse_numa_node_def by (auto split: option.splits sum.splits)
  moreover have "i64 (case label_number labels (numa_label i ''-bandwidth'') of None \<Rightarrow> 0 | Some bw \<Rightarrow> bw)"
    by (auto simp: label_number_i64 i64_def split: option.splits dest: label_number_i64)
  ultimately show ?thesis
    using assms(2,3) parseCPUList_ids parse_distances_wf(1) [of labels cnt i] parse_distances_wf(2) [of _ _ labels cnt i]
    by (auto simp: numa_node_wf_def)
qed

lemma parse_numa_nodes_wf:
  assumes "parse_numa_nodes labels cnt is = Some ns" "sorted_wrt (<) is" "\<forall>i \<in> set is. 0 \<le> i \<and> i < cnt"
  shows "sorted_wrt (<) (map nn_id ns) \<and> set (map nn_id ns) \<subseteq> set is \<and> (\<forall>nd \<in> set ns. numa_node_wf cnt nd)"
  using assms
proof (induction "is" arbitrary: ns)
  case (Cons i "is")
  obtain r ms where r: "parse_numa_node labels cnt i = Some r" and ms: "parse_numa_nodes labels cnt is = Some ms"
    and ns: "ns = (case r of None \<Rightarrow> ms | Some nd \<Rightarrow> nd # ms)"
    using Cons.prems(1) by (auto split: option.splits)
  note IH = Cons.IH [OF ms]
  show ?case
  proof (cases r)
    case None
    then show ?thesis using IH Cons.prems ns by auto
  next
    case (Some nd)
    then have "nn_id nd = i \<and> numa_node_wf cnt nd" using parse_numa_node_wf r Cons.prems(3) by simp
    then show ?thesis using IH Cons.prems ns Some by auto
  qed
qed simp

lemma sorted_upto_less: "sorted_wrt (<) [i..j :: int]"
  using sorted_wrt_upto [of i j] by simp

lemma parsed_node_wf:
  assumes "parseNUMATopology n = Some (Inr ns)" "nd \<in> set ns"
  shows "\<exists>cnt. numa_node_wf cnt nd"
proof -
  obtain cnt where "parse_numa_nodes (n_labels n) cnt [0..cnt - 1] = Some ns"
    using assms(1) unfolding parseNUMATopology_def by (auto split: option.splits sum.splits if_splits)
  from parse_numa_nodes_wf [OF this sorted_upto_less] show ?thesis using assms(2) by auto
qed

text \<open>C32: The type of a parsed topology: whenever the labels of a node yield NUMA nodes there is at
  least one, their IDs ascend strictly (no two entries share an ID) and lie below the declared count,
  each node has as many available CPUs as its list has entries, every CPU ID and every size is a 64-bit
  number, CPU IDs are not negative, and the distances are keyed by IDs below the count.\<close>

theorem parseNUMATopology_wf:
  assumes "parseNUMATopology n = Some (Inr ns)"
  shows "\<exists>s cnt. lookup (n_labels n) LabelNUMANodeCount = Some s \<and> atoi s = Inr cnt \<and> 0 < cnt \<and>
    ns \<noteq> [] \<and> sorted_wrt (<) (map nn_id ns) \<and> (\<forall>nd \<in> set ns. numa_node_wf cnt nd)"
proof -
  obtain s cnt where s: "lookup (n_labels n) LabelNUMANodeCount = Some s" "atoi s = Inr cnt" "0 < cnt"
    and ns: "parse_numa_nodes (n_labels n) cnt [0..cnt - 1] = Some ns" "ns \<noteq> []"
    using assms unfolding parseNUMATopology_def by (auto split: option.splits sum.splits if_splits)
  then show ?thesis using parse_numa_nodes_wf [OF ns(1) sorted_upto_less] by auto
qed

definition ex_numa_labels :: "string gomap" where
  "ex_numa_labels = [(LabelNUMANodeCount, ''2''),
     (''numa.kubenexus.io/node-0-cpus'', ''0-3''), (''numa.kubenexus.io/node-0-memory'', ''64000''),
     (''numa.kubenexus.io/node-1-cpus'', ''4-5,8''), (''numa.kubenexus.io/node-1-memory'', ''32000''),
     (''numa.kubenexus.io/node-0-distance-0'', ''10''), (''numa.kubenexus.io/node-0-distance-1'', ''21''),
     (''numa.kubenexus.io/node-1-distance-0'', ''21'')]"

definition ex_numa_node :: node where
  "ex_numa_node = \<lparr>n_name = ''n1'', n_labels = ex_numa_labels, n_allocatable = [], n_capacity = []\<rparr>"

definition ex_numa_nodes :: "numa_node list" where
  "ex_numa_nodes =
     [\<lparr>nn_id = 0, nn_cpus = [0, 1, 2, 3], nn_total_memory = 64000, nn_available_cpus = 4,
       nn_available_memory = 64000, nn_distance = [(0, 10), (1, 21)], nn_bandwidth = 0\<rparr>,
      \<lparr>nn_id = 1, nn_cpus = [4, 5, 8], nn_total_memory = 32000, nn_available_cpus = 3,
       nn_available_memory = 32000, nn_distance = [(0, 21)], nn_bandwidth = 0\<rparr>]"

lemma ex_numa_parse: "parseNUMATopology ex_numa_node = Some (Inr ex_numa_nodes)"
  by code_simp

lemma parseNUMATopology_wf_witness:
  "sorted_wrt (<) (map nn_id ex_numa_nodes) \<and> (\<exists>cnt. \<forall>nd \<in> set ex_numa_nodes. numa_node_wf cnt nd)"
  using parseNUMATopology_wf [OF ex_numa_parse] by auto

end
