(* ===== verification/Numa.thy ===== *)
theory Numa
  imports NumaTopology Interfaces ScoreArith "HOL-Library.AList"
begin

text \<open>
  \<^verbatim>\<open>pkg/plugins/numatopology/numatopology.go\<close>, second part: the filter that keeps strict pods on
  nodes where one NUMA node can hold them, the weighted score of the best NUMA node, and the gang
  state, which records where the members of a gang were placed.  The state is an argument and a result
  of the score.  Writing metrics and logs is left out.

  A call that does not return, because the topology cannot be parsed (see \<^verbatim>\<open>NumaTopology\<close>), is
  \<^verbatim>\<open>None\<close>.
\<close>

section \<open>Constants\<close>

definition AnnotationGangGroup :: string where
  "AnnotationGangGroup = ''scheduling.kubenexus.io/gang-group''"
definition AnnotationGangNUMASpread :: string where
  "AnnotationGangNUMASpread = ''scheduling.kubenexus.io/gang-numa-spread''"
definition AnnotationNUMADistance :: string where
  "AnnotationNUMADistance = ''scheduling.kubenexus.io/numa-distance-weight''"

definition GangNUMASpreadPacked :: string where "GangNUMASpreadPacked = ''packed''"
definition GangNUMASpreadBalanced :: string where "GangNUMASpreadBalanced = ''balanced''"
definition GangNUMASpreadIsolated :: string where "GangNUMASpreadIsolated = ''isolated''"

text \<open>The decimal constants, rounded to a float64 as the compiler does.\<close>

definition WeightNUMAFit :: float64 where "WeightNUMAFit = to_f64 (2 / 5)"
definition WeightMemoryBandwidth :: float64 where "WeightMemoryBandwidth = Fin (1 / 4)"
definition WeightNUMADistance :: float64 where "WeightNUMADistance = to_f64 (1 / 5)"
definition WeightGangAffinity :: float64 where "WeightGangAffinity = to_f64 (3 / 20)"

section \<open>The filter\<close>

text \<open>The test on one NUMA node: capacity, then the GPUs.\<close>

definition numa_admits :: "pod \<Rightarrow> int \<Rightarrow> int \<Rightarrow> (int \<times> int) list \<Rightarrow> numa_node \<Rightarrow> bool" where
  "numa_admits p podCPU podMemory mapping numa \<longleftrightarrow>
     (nn_available_cpus numa \<ge> podCPU \<and> nn_available_memory numa \<ge> podMemory) \<and>
     \<not> (mapping \<noteq> [] \<and> \<not> canFitGPUsInNUMA p numa mapping)"

fun first_admitting :: "(numa_node \<Rightarrow> bool) \<Rightarrow> numa_node list \<Rightarrow> numa_node option" where
  "first_admitting P [] = None"
| "first_admitting P (numa # numas) = (if P numa then Some numa else first_admitting P numas)"

definition numa_Filter :: "pod \<Rightarrow> node_info \<Rightarrow> status option" where
  "numa_Filter p nodeInfo =
     (case ni_node nodeInfo of
        None \<Rightarrow> Some (mk_status Error ''node is nil'')
      | Some n \<Rightarrow>
         (let policy = getNUMAPolicy p
          in if policy = NUMAPolicyNone then Some success
             else if policy = NUMAPolicyBestEffort then Some success
             else (case parseNUMATopology n of
                     None \<Rightarrow> None
                   | Some (Inl _) \<Rightarrow> Some success
                   | Some (Inr numaNodes) \<Rightarrow>
                       if length numaNodes \<le> 1 then Some success
                       else let (podCPU, podMemory) = numa_getPodResourceRequests p;
                                mapping = getGPUNUMAMapping n
                       in (case first_admitting (numa_admits p podCPU podMemory mapping) numaNodes of
                             Some _ \<Rightarrow> Some success
                           | None \<Rightarrow>
                               Some (mk_status Unschedulable
                                 (''pod requires '' @ itoa podCPU @ '' CPUs and '' @ itoa podMemory @
                                  '' bytes memory, but no single NUMA node has sufficient capacity on node '' @
                                  n_name n))))))"

section \<open>Gang state\<close>

record gang_numa_state =
  gs_group :: string
  gs_members :: "int gomap"
  gs_policy :: string

type_synonym gang_states = "gang_numa_state gomap"

definition numa_pod_key :: "pod \<Rightarrow> string" where
  "numa_pod_key p = p_ns p @ ''/'' @ p_name p"

definition spread_annotation :: "pod \<Rightarrow> string" where
  "spread_annotation p =
     (case lookup (p_annots p) AnnotationGangNUMASpread of Some policy \<Rightarrow> policy | None \<Rightarrow> GangNUMASpreadPacked)"

definition recordGangPlacement :: "pod \<Rightarrow> int \<Rightarrow> gang_states \<Rightarrow> gang_states" where
  "recordGangPlacement p numaID gangs =
     (case lookup_nonempty (p_annots p) AnnotationGangGroup of
        None \<Rightarrow> gangs
      | Some gangGroup \<Rightarrow>
         (let gangState = (case lookup gangs gangGroup of
                             Some g \<Rightarrow> g
                           | None \<Rightarrow> \<lparr>gs_group = gangGroup, gs_members = [], gs_policy = spread_annotation p\<rparr>)
          in AList.update gangGroup
               (gangState\<lparr>gs_members := AList.update (numa_pod_key p) numaID (gs_members gangState)\<rparr>) gangs))"

section \<open>Component scores\<close>

definition numa_distance_weight :: "pod \<Rightarrow> float64" where
  "numa_distance_weight p =
     (case lookup (p_annots p) AnnotationNUMADistance of
        None \<Rightarrow> Fin 1
      | Some weight \<Rightarrow>
         (case parseFloat weight of
            Inl _ \<Rightarrow> Fin 1
          | Inr w \<Rightarrow> if fge w (Fin 0) \<and> fge (Fin 100) w then fdiv w (Fin 50) else Fin 1))"

definition avg_distance :: "(int \<times> int) list \<Rightarrow> float64" where
  "avg_distance others = fdiv (f_int (sum64 (map snd others))) (f_int (int (length others)))"

definition calculateNUMADistanceScore :: "numa_node \<Rightarrow> pod \<Rightarrow> float64" where
  "calculateNUMADistanceScore numa p =
     (if nn_distance numa = [] then Fin 50
      else let distanceWeight = numa_distance_weight p;
               others = filter (\<lambda>(otherID, distance). otherID \<noteq> nn_id numa) (nn_distance numa)
      in if others = [] then Fin 100
         else let score = fsub (Fin 100) (fmul (fmul (fsub (avg_distance others) (Fin 10)) (Fin 5)) distanceWeight);
                  score' = (if flt score (Fin 0) then Fin 0 else score)
         in (if flt (Fin 100) score' then Fin 100 else score'))"

definition members_on :: "int \<Rightarrow> gang_numa_state \<Rightarrow> int" where
  "members_on numaID g = count_if (\<lambda>(podKey, assignedNUMA). assignedNUMA = numaID) (gs_members g)"

text \<open>The policy in force: the one stored with the gang, or the pod's own when the stored one is empty.\<close>

definition spread_policy :: "pod \<Rightarrow> gang_numa_state \<Rightarrow> string" where
  "spread_policy p g = (if gs_policy g = '''' then spread_annotation p else gs_policy g)"

definition calculateGangAffinityScore :: "gang_states \<Rightarrow> pod \<Rightarrow> numa_node \<Rightarrow> float64" where
  "calculateGangAffinityScore gangs p numa =
     (case lookup_nonempty (p_annots p) AnnotationGangGroup of
        None \<Rightarrow> Fin 50
      | Some gangGroup \<Rightarrow>
         (case lookup gangs gangGroup of
            None \<Rightarrow> Fin 50
          | Some g \<Rightarrow>
              if gs_members g = [] then Fin 50
              else let spreadPolicy = spread_policy p g
              in if spreadPolicy = GangNUMASpreadPacked
                 then (if list_ex (\<lambda>(podKey, assignedNUMA). assignedNUMA = nn_id numa) (gs_members g)
                       then Fin 100 else Fin 20)
                 else if spreadPolicy = GangNUMASpreadBalanced
                 then (let score = fsub (Fin 100) (fmul (f_int (members_on (nn_id numa) g)) (Fin 20))
                       in if flt score (Fin 0) then Fin 0 else score)
                 else if spreadPolicy = GangNUMASpreadIsolated
                 then (if list_ex (\<lambda>(podKey, assignedNUMA). assignedNUMA = nn_id numa) (gs_members g)
                       then Fin 0 else Fin 100)
                 else Fin 50))"

text \<open>The fit of the pod into a NUMA node, with the boost of a preferred one.\<close>

definition numa_fit_score :: "int \<Rightarrow> int \<Rightarrow> int list \<Rightarrow> numa_node \<Rightarrow> float64" where
  "numa_fit_score podCPU podMemory preferred numa =
     (let cpuRemaining = f_int (wrap64 (nn_available_cpus numa - podCPU));
          memRemaining = f_int (wrap64 (nn_available_memory numa - podMemory));
          cpuFit = fdiv cpuRemaining (f_int (int (length (nn_cpus numa))));
          cpuFitScore = (if flt cpuFit (Fin 0) then Fin 0 else cpuFit);
          memFit = fdiv memRemaining (f_int (nn_total_memory numa));
          memFitScore = (if flt memFit (Fin 0) then Fin 0 else memFit);
          fitScore = fmul (fadd (fmul cpuFitScore (to_f64 (3 / 5))) (fmul memFitScore (to_f64 (2 / 5)))) (Fin 100)
      in if isNUMAInList (nn_id numa) preferred
         then fmin (Fin 100) (fmul fitScore (to_f64 (6 / 5))) else fitScore)"

definition numa_bandwidth_score :: "int \<Rightarrow> bool \<Rightarrow> numa_node \<Rightarrow> float64" where
  "numa_bandwidth_score podMemory memoryIntensive numa =
     (if memoryIntensive \<and> nn_bandwidth numa > 0
      then let bandwidthUtilization = fmul (fdiv (f_int podMemory) (f_int (nn_total_memory numa))) (Fin 100);
               s = fsub (Fin 100) bandwidthUtilization
           in if flt s (Fin 0) then Fin 0 else s
      else Fin 50)"

text \<open>The weighted sum of the components, capped to 0 and 100.\<close>

definition numa_weigh :: "float64 \<Rightarrow> float64 \<Rightarrow> float64 \<Rightarrow> float64 \<Rightarrow> float64 \<Rightarrow> float64" where
  "numa_weigh fitScore memBandwidthScore distanceScore gangScore gpuBonus =
     (let totalScore = fadd (fadd (fadd (fadd (fmul fitScore WeightNUMAFit)
                         (fmul memBandwidthScore WeightMemoryBandwidth))
                         (fmul distanceScore WeightNUMADistance))
                         (fmul gangScore WeightGangAffinity)) gpuBonus
      in if flt (Fin 100) totalScore then Fin 100
         else if flt totalScore (Fin 0) then Fin 0 else totalScore)"

text \<open>The body of the loop for one NUMA node, or \<^verbatim>\<open>None\<close> when it is skipped.\<close>

definition numa_total_score :: "gang_states \<Rightarrow> pod \<Rightarrow> node \<Rightarrow> numa_node \<Rightarrow> float64 option" where
  "numa_total_score gangs p n numa =
     (if nn_available_cpus numa < fst (numa_getPodResourceRequests p) \<or>
         nn_available_memory numa < snd (numa_getPodResourceRequests p) then None
      else if isNUMAInList (nn_id numa) (snd (getNUMAAffinityPreferences p)) then None
      else Some (numa_weigh
             (numa_fit_score (fst (numa_getPodResourceRequests p)) (snd (numa_getPodResourceRequests p))
                (fst (getNUMAAffinityPreferences p)) numa)
             (numa_bandwidth_score (snd (numa_getPodResourceRequests p)) (isMemoryIntensive p) numa)
             (calculateNUMADistanceScore numa p)
             (calculateGangAffinityScore gangs p numa)
             (f_int (calculateGPUNUMABonus p numa (getGPUNUMAMapping n)))))"

section \<open>The score\<close>

text \<open>The loop over the NUMA nodes: the best score so far and its NUMA node, \<^verbatim>\<open>-1\<close> for none.\<close>

fun best_numa :: "(numa_node \<Rightarrow> float64 option) \<Rightarrow> numa_node list \<Rightarrow> float64 \<Rightarrow> int \<Rightarrow> float64 \<times> int" where
  "best_numa tot [] bestScore bestNUMAID = (bestScore, bestNUMAID)"
| "best_numa tot (numa # numas) bestScore bestNUMAID =
     (case tot numa of
        None \<Rightarrow> best_numa tot numas bestScore bestNUMAID
      | Some totalScore \<Rightarrow>
          if flt bestScore totalScore then best_numa tot numas totalScore (nn_id numa)
          else best_numa tot numas bestScore bestNUMAID)"

definition numa_Score :: "gang_states \<Rightarrow> pod \<Rightarrow> node_info \<Rightarrow> ((int \<times> status) \<times> gang_states) option" where
  "numa_Score gangs p nodeInfo =
     (case ni_node nodeInfo of
        None \<Rightarrow> Some ((0, mk_status Error ''node is nil''), gangs)
      | Some n \<Rightarrow>
          if getNUMAPolicy p = NUMAPolicyNone then Some ((quot MaxNodeScore 2, success), gangs)
          else (case parseNUMATopology n of
                  None \<Rightarrow> None
                | Some (Inl _) \<Rightarrow> Some ((quot MaxNodeScore 2, success), gangs)
                | Some (Inr numaNodes) \<Rightarrow>
                    if length numaNodes \<le> 1 then Some ((quot MaxNodeScore 2, success), gangs)
                    else let (bestScore, bestNUMAID) = best_numa (numa_total_score gangs p n) numaNodes (Fin 0) (- 1)
                    in if bestNUMAID = - 1 then Some ((quot MaxNodeScore 4, success), gangs)
                       else Some ((f_to_int bestScore, success), recordGangPlacement p bestNUMAID gangs)))"

section \<open>The filter as an existence test\<close>

lemma first_admitting_None: "first_admitting P ns = None \<longleftrightarrow> (\<forall>nd \<in> set ns. \<not> P nd)"
  by (induction ns) auto

text \<open>What the filter asks of a NUMA node, over the parsed sizes.\<close>

definition numa_holds :: "pod \<Rightarrow> node \<Rightarrow> numa_node \<Rightarrow> bool" where
  "numa_holds p n nd \<longleftrightarrow>
     fst (numa_getPodResourceRequests p) \<le> int (length (nn_cpus nd)) \<and>
     snd (numa_getPodResourceRequests p) \<le> nn_total_memory nd \<and>
     (gpus_requested p = 0 \<or> getGPUNUMAMapping n = [] \<or>
      gpus_requested p \<le> gpus_on_numa (nn_id nd) (getGPUNUMAMapping n))"

lemma numa_node_available:
  assumes "parseNUMATopology n = Some (Inr ns)" "nd \<in> set ns"
  shows "nn_available_cpus nd = int (length (nn_cpus nd))" "nn_available_memory nd = nn_total_memory nd" "0 \<le> nn_id nd"
  using parsed_node_wf [OF assms] by (auto simp: numa_node_wf_def)

lemma numa_admits_holds:
  assumes "parseNUMATopology n = Some (Inr ns)" "nd \<in> set ns"
  shows "numa_admits p (fst (numa_getPodResourceRequests p)) (snd (numa_getPodResourceRequests p))
     (getGPUNUMAMapping n) nd \<longleftrightarrow> numa_holds p n nd"
  using numa_node_available [OF assms] by (auto simp: numa_admits_def numa_holds_def canFitGPUsInNUMA_def)

lemma numa_Filter_single:
  assumes "ni_node ni = Some n" and "getNUMAPolicy p = NUMAPolicySingleNode"
    and "parseNUMATopology n = Some (Inr ns)" and "2 \<le> length ns"
  shows "numa_Filter p ni = Some (if \<exists>nd \<in> set ns. numa_holds p n nd then success
    else mk_status Unschedulable
      (''pod requires '' @ itoa (fst (numa_getPodResourceRequests p)) @ '' CPUs and '' @
       itoa (snd (numa_getPodResourceRequests p)) @
       '' bytes memory, but no single NUMA node has sufficient capacity on node '' @ n_name n))"
proof -
  obtain c m where r: "numa_getPodResourceRequests p = (c, m)" by fastforce
  have a: "numa_admits p c m (getGPUNUMAMapping n) nd \<longleftrightarrow> numa_holds p n nd" if "nd \<in> set ns" for nd
    using numa_admits_holds [OF assms(3) that, of p] by (simp add: r)
  then have "first_admitting (numa_admits p c m (getGPUNUMAMapping n)) ns = None \<longleftrightarrow> \<not> (\<exists>nd \<in> set ns. numa_holds p n nd)"
    by (auto simp: first_admitting_None)
  moreover have "NUMAPolicySingleNode \<noteq> NUMAPolicyNone" "NUMAPolicySingleNode \<noteq> NUMAPolicyBestEffort"
    by (simp_all add: NUMAPolicySingleNode_def NUMAPolicyNone_def NUMAPolicyBestEffort_def)
  ultimately show ?thesis
    using assms
    by (cases "first_admitting (numa_admits p c m (getGPUNUMAMapping n)) ns") (simp_all add: numa_Filter_def r)
qed

text \<open>C29: A strict pod is kept off a node exactly when no NUMA node can hold it: on a node with at
  least two NUMA nodes the filter answers success if some NUMA node has the CPUs, the memory and, when
  the pod asks for GPUs and the node says where they are, enough of the GPUs; otherwise it answers
  Unschedulable, and never anything else.\<close>

theorem numa_Filter_holds:
  assumes "ni_node ni = Some n" and "getNUMAPolicy p = NUMAPolicySingleNode"
    and "parseNUMATopology n = Some (Inr ns)" and "2 \<le> length ns"
  shows "\<exists>st. numa_Filter p ni = Some st \<and>
    st_code st = (if \<exists>nd \<in> set ns. numa_holds p n nd then Success else Unschedulable)"
  by (simp add: numa_Filter_single [OF assms])

definition ex_numa_pod :: "string \<Rightarrow> int \<Rightarrow> int \<Rightarrow> pod" where
  "ex_numa_pod policy cores mem = empty_pod\<lparr>p_name := ''p'', p_ns := ''ns'',
     p_annots := [(AnnotationNUMAPolicy, policy)],
     p_containers := [\<lparr>c_image = '''', c_requests =
       [(''cpu'', \<lparr>q_milli = 1000 * cores, q_value = cores, q_is_zero = False\<rparr>),
        (''memory'', \<lparr>q_milli = 1000 * mem, q_value = mem, q_is_zero = False\<rparr>)], c_limits = []\<rparr>]\<rparr>"

definition ex_numa_info :: node_info where
  "ex_numa_info = \<lparr>ni_node = Some ex_numa_node, ni_req_cpu = 0, ni_req_memory = 0, ni_req_scalar = []\<rparr>"

lemma ex_numa_info_node: "ni_node ex_numa_info = Some ex_numa_node"
  by (simp add: ex_numa_info_def)

lemma numa_Filter_holds_witness:
  "(\<exists>st. numa_Filter (ex_numa_pod NUMAPolicySingleNode 3 30000) ex_numa_info = Some st \<and> st_code st = Success) \<and>
   (\<exists>st. numa_Filter (ex_numa_pod NUMAPolicySingleNode 6 30000) ex_numa_info = Some st \<and> st_code st = Unschedulable)"
proof -
  have p: "getNUMAPolicy (ex_numa_pod NUMAPolicySingleNode 3 30000) = NUMAPolicySingleNode"
    "getNUMAPolicy (ex_numa_pod NUMAPolicySingleNode 6 30000) = NUMAPolicySingleNode" by code_simp+
  have l: "2 \<le> length ex_numa_nodes" by (simp add: ex_numa_nodes_def)
  have h: "list_ex (numa_holds (ex_numa_pod NUMAPolicySingleNode 3 30000) ex_numa_node) ex_numa_nodes"
    "\<not> list_ex (numa_holds (ex_numa_pod NUMAPolicySingleNode 6 30000) ex_numa_node) ex_numa_nodes" by code_simp+
  show ?thesis
    using numa_Filter_holds [OF ex_numa_info_node p(1) ex_numa_parse l]
      numa_Filter_holds [OF ex_numa_info_node p(2) ex_numa_parse l] h by (simp add: list_ex_iff)
qed

section \<open>The best NUMA node\<close>

lemma numa_weigh_range: "numa_weigh a b c d e = NaN \<or> (\<exists>x. numa_weigh a b c d e = Fin x \<and> 0 \<le> x \<and> x \<le> 100)"
proof -
  obtain t where v: "numa_weigh a b c d e = (if flt (Fin 100) t then Fin 100 else if flt t (Fin 0) then Fin 0 else t)"
    by (simp add: numa_weigh_def Let_def)
  show ?thesis by (cases t) (auto simp: v)
qed

lemma numa_total_score_range:
  assumes "numa_total_score gangs p n nd = Some v"
  shows "v = NaN \<or> (\<exists>x. v = Fin x \<and> 0 \<le> x \<and> x \<le> 100)"
proof -
  obtain a b c d e where "v = numa_weigh a b c d e"
    using assms by (auto simp: numa_total_score_def split: if_splits)
  then show ?thesis using numa_weigh_range by simp
qed

text \<open>The value of the loop: it starts at a finite best and only ever moves up to a finite value.\<close>

definition valued :: "(numa_node \<Rightarrow> float64 option) \<Rightarrow> numa_node \<Rightarrow> rat \<Rightarrow> bool" where
  "valued tot nd x \<longleftrightarrow> tot nd = Some (Fin x)"

lemma best_numa_spec:
  assumes "\<forall>nd \<in> set ns. \<forall>v. tot nd = Some v \<longrightarrow> v = NaN \<or> (\<exists>x. v = Fin x)"
  shows "\<exists>y j. best_numa tot ns (Fin b) i = (Fin y, j) \<and> b \<le> y \<and>
    (\<forall>nd \<in> set ns. \<forall>x. valued tot nd x \<longrightarrow> x \<le> y) \<and>
    (y = b \<and> j = i \<or> b < y \<and> (\<exists>nd \<in> set ns. valued tot nd y \<and> nn_id nd = j))"
  using assms
proof (induction ns arbitrary: b i)
  case (Cons nd ns)
  show ?case
  proof (cases "\<exists>x. tot nd = Some (Fin x) \<and> b < x")
    case True
    then obtain x where x: "tot nd = Some (Fin x)" "b < x" by blast
    from Cons.IH [of x "nn_id nd"] Cons.prems obtain y j where
      y: "best_numa tot ns (Fin x) (nn_id nd) = (Fin y, j)" "x \<le> y"
      "\<forall>nd' \<in> set ns. \<forall>z. valued tot nd' z \<longrightarrow> z \<le> y"
      "y = x \<and> j = nn_id nd \<or> x < y \<and> (\<exists>nd' \<in> set ns. valued tot nd' y \<and> nn_id nd' = j)" by auto
    have "best_numa tot (nd # ns) (Fin b) i = (Fin y, j)" using x y(1) by simp
    moreover have "valued tot nd z \<longrightarrow> z \<le> y" for z using x y(2) by (simp add: valued_def)
    moreover have "\<exists>nd' \<in> set (nd # ns). valued tot nd' y \<and> nn_id nd' = j" using x y(4) by (auto simp: valued_def)
    ultimately show ?thesis using x(2) y(2,3) by auto
  next
    case False
    then have s: "best_numa tot (nd # ns) (Fin b) i = best_numa tot ns (Fin b) i"
      using Cons.prems by (auto split: option.splits)
    from Cons.IH [of b i] Cons.prems obtain y j where
      y: "best_numa tot ns (Fin b) i = (Fin y, j)" "b \<le> y"
      "\<forall>nd' \<in> set ns. \<forall>z. valued tot nd' z \<longrightarrow> z \<le> y"
      "y = b \<and> j = i \<or> b < y \<and> (\<exists>nd' \<in> set ns. valued tot nd' y \<and> nn_id nd' = j)" by auto
    have "valued tot nd z \<longrightarrow> z \<le> y" for z using False y(2) by (auto simp: valued_def)
    then show ?thesis using s y by auto
  qed
qed simp

lemma best_numa_total:
  assumes "parseNUMATopology n = Some (Inr ns)"
  obtains y j where "best_numa (numa_total_score gangs p n) ns (Fin 0) (- 1) = (Fin y, j)" "0 \<le> y" "y \<le> 100"
    "\<forall>nd \<in> set ns. \<forall>x. numa_total_score gangs p n nd = Some (Fin x) \<longrightarrow> x \<le> y"
    "y = 0 \<and> j = - 1 \<or> 0 < y \<and> (\<exists>nd \<in> set ns. numa_total_score gangs p n nd = Some (Fin y) \<and> nn_id nd = j)"
proof -
  have r: "\<forall>nd \<in> set ns. \<forall>v. numa_total_score gangs p n nd = Some v \<longrightarrow> v = NaN \<or> (\<exists>x. v = Fin x)"
    using numa_total_score_range by blast
  from best_numa_spec [OF r, of 0 "- 1"] obtain y j where
    y: "best_numa (numa_total_score gangs p n) ns (Fin 0) (- 1) = (Fin y, j)" "0 \<le> y"
    "\<forall>nd \<in> set ns. \<forall>x. numa_total_score gangs p n nd = Some (Fin x) \<longrightarrow> x \<le> y"
    "y = 0 \<and> j = - 1 \<or> 0 < y \<and> (\<exists>nd \<in> set ns. numa_total_score gangs p n nd = Some (Fin y) \<and> nn_id nd = j)"
    by (auto simp: valued_def)
  have "y \<le> 100" using y(4) numa_total_score_range by fastforce
  with y that show thesis by blast
qed

text \<open>The score of a node with several NUMA nodes, as a case distinction over the best of them.\<close>

lemma numa_Score_multi:
  assumes "ni_node ni = Some n" "getNUMAPolicy p \<noteq> NUMAPolicyNone"
    "parseNUMATopology n = Some (Inr ns)" "2 \<le> length ns"
  shows "numa_Score gangs p ni =
    (let (bestScore, bestNUMAID) = best_numa (numa_total_score gangs p n) ns (Fin 0) (- 1)
     in if bestNUMAID = - 1 then Some ((25, success), gangs)
        else Some ((f_to_int bestScore, success), recordGangPlacement p bestNUMAID gangs))"
proof -
  have "quot MaxNodeScore 4 = 25" by (simp add: MaxNodeScore_def)
  then show ?thesis using assms by (simp add: numa_Score_def split: prod.split)
qed

lemma numa_Score_outcome:
  assumes "ni_node ni = Some n" and "getNUMAPolicy p \<noteq> NUMAPolicyNone"
    and "parseNUMATopology n = Some (Inr ns)" and "2 \<le> length ns"
  obtains (none) "numa_Score gangs p ni = Some ((25, success), gangs)"
      "\<forall>nd \<in> set ns. \<forall>x. numa_total_score gangs p n nd = Some (Fin x) \<longrightarrow> x \<le> 0"
  | (best) nd y where "nd \<in> set ns" "0 < y" "y \<le> 100" "numa_total_score gangs p n nd = Some (Fin y)"
      "\<forall>nd' \<in> set ns. \<forall>x. numa_total_score gangs p n nd' = Some (Fin x) \<longrightarrow> x \<le> y"
      "numa_Score gangs p ni = Some ((\<lfloor>y\<rfloor>, success), recordGangPlacement p (nn_id nd) gangs)"
proof -
  obtain y j where b: "best_numa (numa_total_score gangs p n) ns (Fin 0) (- 1) = (Fin y, j)" "0 \<le> y" "y \<le> 100"
    and m: "\<forall>nd \<in> set ns. \<forall>x. numa_total_score gangs p n nd = Some (Fin x) \<longrightarrow> x \<le> y"
    and e: "y = 0 \<and> j = - 1 \<or> 0 < y \<and> (\<exists>nd \<in> set ns. numa_total_score gangs p n nd = Some (Fin y) \<and> nn_id nd = j)"
    by (rule best_numa_total [OF assms(3), where gangs = gangs and p = p])
  note s = numa_Score_multi [OF assms, of gangs]
  have t: "f_to_int (Fin y) = \<lfloor>y\<rfloor>"
  proof -
    have "0 \<le> \<lfloor>y\<rfloor>" "\<lfloor>y\<rfloor> \<le> 100" using b(2,3) by (simp_all add: floor_le_iff)
    then show ?thesis using b(2) by (simp add: trunc_def i64_def)
  qed
  show thesis
  proof (cases "y = 0")
    case True
    then show ?thesis using e m s b(1) none by auto
  next
    case False
    then obtain nd where nd: "nd \<in> set ns" "numa_total_score gangs p n nd = Some (Fin y)" "nn_id nd = j" "0 < y"
      using e by auto
    have "j \<noteq> - 1" using numa_node_available(3) [OF assms(3) nd(1)] nd(3) by simp
    then have "numa_Score gangs p ni = Some ((\<lfloor>y\<rfloor>, success), recordGangPlacement p (nn_id nd) gangs)"
      using s b(1) t nd(3) by simp
    then show ?thesis using nd m b(3) best by blast
  qed
qed



section \<open>The framework's contract\<close>

text \<open>The answer of a call that returns.\<close>

definition numa_score_answer :: "gang_states \<times> pod \<times> node_info \<Rightarrow> int \<times> status" where
  "numa_score_answer i =
     (case numa_Score (fst i) (fst (snd i)) (snd (snd i)) of
        Some (r, gangs) \<Rightarrow> r
      | None \<Rightarrow> (0, mk_status Error ''''))"

definition numa_score_returns :: "gang_states \<times> pod \<times> node_info \<Rightarrow> bool" where
  "numa_score_returns i \<longleftrightarrow>
     ni_node (snd (snd i)) \<noteq> None \<and> numa_Score (fst i) (fst (snd i)) (snd (snd i)) \<noteq> None"

lemma numa_Score_cases:
  assumes "numa_Score gangs p ni = Some (r, gangs')" "ni_node ni = Some n"
  shows "snd r = success \<and> 0 \<le> fst r \<and> fst r \<le> 100 \<and> (gangs' = gangs \<or> (\<exists>i. 0 \<le> i \<and> gangs' = recordGangPlacement p i gangs))"
proof (cases "getNUMAPolicy p \<noteq> NUMAPolicyNone \<and> (\<exists>ns. parseNUMATopology n = Some (Inr ns) \<and> 2 \<le> length ns)")
  case True
  then obtain ns where ns: "getNUMAPolicy p \<noteq> NUMAPolicyNone" "parseNUMATopology n = Some (Inr ns)" "2 \<le> length ns" by blast
  have f: "0 \<le> \<lfloor>y\<rfloor> \<and> \<lfloor>y\<rfloor> \<le> 100" if "0 < y" "y \<le> 100" for y :: rat
    using that by (simp add: floor_le_iff)
  show ?thesis
    by (rule numa_Score_outcome [OF assms(2) ns, of gangs])
      (use assms(1) f numa_node_available(3) [OF ns(2)] in auto)
next
  case False
  have "quot MaxNodeScore 2 = 50" by (simp add: MaxNodeScore_def)
  then show ?thesis
    using assms False
    by (auto simp: numa_Score_def split: if_splits option.splits sum.splits)
qed

interpretation numa: score_plugin numa_score_answer numa_score_returns
proof unfold_locales
  fix i assume "numa_score_returns i"
  then obtain n r gangs' where i: "ni_node (snd (snd i)) = Some n"
      "numa_Score (fst i) (fst (snd i)) (snd (snd i)) = Some (r, gangs')"
    by (auto simp: numa_score_returns_def)
  with numa_Score_cases [OF i(2,1)]
  show "st_code (snd (numa_score_answer i)) = Success"
    "0 \<le> fst (numa_score_answer i) \<and> fst (numa_score_answer i) \<le> MaxNodeScore"
    by (simp_all add: numa_score_answer_def MaxNodeScore_def)
qed

section \<open>Splitting beats a tight fit\<close>

lemma numa_total_score_skip:
  "int (length (nn_cpus nd)) < fst (numa_getPodResourceRequests p) \<or> nn_total_memory nd < snd (numa_getPodResourceRequests p) \<Longrightarrow>
   parseNUMATopology n = Some (Inr ns) \<Longrightarrow> nd \<in> set ns \<Longrightarrow> numa_total_score gangs p n nd = None"
  using numa_node_available [of n ns nd] by (auto simp: numa_total_score_def)

lemma tight_fit_zero:
  assumes "int (length (nn_cpus nd)) = c" "nn_available_cpus nd = c" "nn_available_memory nd = m" "nn_total_memory nd = m"
    "0 < c" "0 < m" "i64 c" "i64 m"
  shows "numa_fit_score c m preferred nd = Fin 0"
proof -
  have z: "f_int (wrap64 0) = Fin 0" by (simp add: f_int_def to_f64_def fl_def)
  obtain x y where "f_int c = Fin x" "0 < x" "f_int m = Fin y" "0 < y"
    using assms f_int_pos [of c] f_int_pos [of m] by (metis amount_def order_less_imp_le)
  moreover have "to_f64 (0::rat) = Fin 0" by (simp add: to_f64_def fl_def)
  moreover obtain u v w where "to_f64 (3 / 5) = Fin u" "to_f64 (2 / 5) = Fin v" "to_f64 (6 / 5) = Fin w"
    by (simp add: to_f64_Fin)
  ultimately show ?thesis using assms by (simp add: numa_fit_score_def Let_def z [simplified])
qed

text \<open>The loop when every NUMA node has the same positive score: the first one stays the best.\<close>

lemma best_numa_const:
  assumes "\<forall>nd \<in> set ns. tot nd = Some (Fin x)"
  shows "best_numa tot ns (Fin x) i = (Fin x, i)"
  using assms by (induction ns) auto

lemma tight_fit_total:
  assumes "gpus_requested p = 0" "\<not> isMemoryIntensive p" "snd (getNUMAAffinityPreferences p) = []"
    "numa_getPodResourceRequests p = (c, m)" "0 < c" "0 < m" "i64 c"
    "parseNUMATopology n = Some (Inr ns)" "nd \<in> set ns"
    "int (length (nn_cpus nd)) = c" "nn_total_memory nd = m" "calculateNUMADistanceScore nd p = Fin 0"
  shows "numa_total_score gangs p n nd =
    Some (numa_weigh (Fin 0) (Fin 50) (Fin 0) (calculateGangAffinityScore gangs p nd) (f_int 0))"
proof -
  note a = numa_node_available [OF assms(8,9)]
  have "i64 (nn_total_memory nd)" using parsed_node_wf [OF assms(8,9)] by (auto simp: numa_node_wf_def)
  then have "numa_fit_score c m preferred nd = Fin 0" for preferred
    using tight_fit_zero [of nd c m preferred] a assms by simp
  then show ?thesis
    using a assms by (simp add: numa_total_score_def numa_bandwidth_score_def calculateGPUNUMABonus_def isNUMAInList_def)
qed

lemma tight_fit_score:
  assumes "getNUMAPolicy p \<noteq> NUMAPolicyNone"
    "gpus_requested p = 0" "\<not> isMemoryIntensive p" "snd (getNUMAAffinityPreferences p) = []"
    "numa_getPodResourceRequests p = (c, m)" "0 < c" "0 < m" "i64 c"
    "ni_node ni = Some n" "parseNUMATopology n = Some (Inr ns)" "2 \<le> length ns"
    "\<forall>nd \<in> set ns. int (length (nn_cpus nd)) = c \<and> nn_total_memory nd = m \<and> calculateNUMADistanceScore nd p = Fin 0"
    "\<forall>nd. calculateGangAffinityScore gangs p nd = Fin 50"
  shows "numa_Score gangs p ni = Some ((20, success), recordGangPlacement p (nn_id (hd ns)) gangs)"
proof -
  have w: "numa_weigh (Fin 0) (Fin 50) (Fin 0) (Fin 50) (f_int 0) = Fin 20" by code_simp
  have t: "numa_total_score gangs p n nd = Some (Fin 20)" if nd: "nd \<in> set ns" for nd
    using tight_fit_total [OF assms(2-8,10) nd, of gangs] assms(12,13) nd w by simp
  obtain nd nds where ns: "ns = nd # nds" using assms(11) by (cases ns) auto
  have "best_numa (numa_total_score gangs p n) ns (Fin 0) (- 1) = (Fin 20, nn_id nd)"
    using t best_numa_const [of nds "numa_total_score gangs p n" 20 "nn_id nd"] by (simp add: ns)
  moreover have "nn_id nd \<noteq> - 1" using numa_node_available(3) [OF assms(10), of nd] ns by simp
  moreover have "f_to_int (Fin 20) = 20" using trunc_of_int [of 20] by (simp add: i64_def)
  ultimately show ?thesis
    using numa_Score_multi [OF assms(9,1,10,11), of gangs] ns by simp
qed

lemma no_fit_score:
  assumes "getNUMAPolicy p \<noteq> NUMAPolicyNone" "numa_getPodResourceRequests p = (c, m)"
    "ni_node ni = Some n" "parseNUMATopology n = Some (Inr ns)" "2 \<le> length ns"
    "\<forall>nd \<in> set ns. int (length (nn_cpus nd)) < c \<or> nn_total_memory nd < m"
  shows "numa_Score gangs p ni = Some ((25, success), gangs)"
proof -
  have none: "\<forall>nd \<in> set ns. numa_total_score gangs p n nd = None"
    using numa_total_score_skip [OF _ assms(4)] assms(2,6) by simp
  show ?thesis by (rule numa_Score_outcome [OF assms(3,1,4,5), of gangs]) (use none in auto)
qed

text \<open>A node that must split the pod across its NUMA nodes can outrank one that holds it in a single
  NUMA node: for a best-effort pod that is no gang member, asks for no GPU and is not memory-intensive,
  a node whose NUMA nodes each fit the pod exactly, and lie far apart (distance score 0), scores 20,
  while a node on which no NUMA node can hold the pod scores 25. The penalty for crossing NUMA nodes is
  a constant that real placements fall below.\<close>

theorem numa_split_outranks_fit:
  assumes "getNUMAPolicy p = NUMAPolicyBestEffort"
    and "lookup_nonempty (p_annots p) AnnotationGangGroup = None"
    and "gpus_requested p = 0" and "\<not> isMemoryIntensive p" and "snd (getNUMAAffinityPreferences p) = []"
    and "numa_getPodResourceRequests p = (c, m)" and "0 < c" and "0 < m" and "i64 c"
    and "ni_node fit = Some n1" and "parseNUMATopology n1 = Some (Inr ns1)" and "2 \<le> length ns1"
    and "\<forall>nd \<in> set ns1. int (length (nn_cpus nd)) = c \<and> nn_total_memory nd = m \<and> calculateNUMADistanceScore nd p = Fin 0"
    and "ni_node split = Some n2" and "parseNUMATopology n2 = Some (Inr ns2)" and "2 \<le> length ns2"
    and "\<forall>nd \<in> set ns2. int (length (nn_cpus nd)) < c \<or> nn_total_memory nd < m"
  shows "numa_Score gangs p fit = Some ((20, success), gangs) \<and> numa_Score gangs p split = Some ((25, success), gangs)"
proof
  have pol: "getNUMAPolicy p \<noteq> NUMAPolicyNone"
    using assms(1) by (simp add: NUMAPolicyBestEffort_def NUMAPolicyNone_def)
  have g: "\<forall>nd. calculateGangAffinityScore gangs p nd = Fin 50"
    using assms(2) by (simp add: calculateGangAffinityScore_def)
  have "recordGangPlacement p i gangs = gangs" for i using assms(2) by (simp add: recordGangPlacement_def)
  then show "numa_Score gangs p fit = Some ((20, success), gangs)"
    using tight_fit_score [OF pol assms(3-13) g] by simp
  show "numa_Score gangs p split = Some ((25, success), gangs)"
    by (rule no_fit_score [OF pol assms(6,14-17)])
qed

definition ex_far_labels :: "string gomap" where
  "ex_far_labels = [(LabelNUMANodeCount, ''2''),
     (''numa.kubenexus.io/node-0-cpus'', ''0-3''), (''numa.kubenexus.io/node-0-memory'', ''64000''),
     (''numa.kubenexus.io/node-1-cpus'', ''4-7''), (''numa.kubenexus.io/node-1-memory'', ''64000''),
     (''numa.kubenexus.io/node-0-distance-1'', ''31''), (''numa.kubenexus.io/node-1-distance-0'', ''31'')]"

definition ex_small_labels :: "string gomap" where
  "ex_small_labels = [(LabelNUMANodeCount, ''2''),
     (''numa.kubenexus.io/node-0-cpus'', ''0-2''), (''numa.kubenexus.io/node-0-memory'', ''64000''),
     (''numa.kubenexus.io/node-1-cpus'', ''3-5''), (''numa.kubenexus.io/node-1-memory'', ''64000'')]"

definition ex_labelled :: "string gomap \<Rightarrow> node" where
  "ex_labelled ls = \<lparr>n_name = ''n'', n_labels = ls, n_allocatable = [], n_capacity = []\<rparr>"

definition ex_labelled_info :: "string gomap \<Rightarrow> node_info" where
  "ex_labelled_info ls =
     \<lparr>ni_node = Some (ex_labelled ls), ni_req_cpu = 0, ni_req_memory = 0, ni_req_scalar = []\<rparr>"

definition ex_far_nodes :: "numa_node list" where
  "ex_far_nodes =
     [\<lparr>nn_id = 0, nn_cpus = [0, 1, 2, 3], nn_total_memory = 64000, nn_available_cpus = 4,
       nn_available_memory = 64000, nn_distance = [(1, 31)], nn_bandwidth = 0\<rparr>,
      \<lparr>nn_id = 1, nn_cpus = [4, 5, 6, 7], nn_total_memory = 64000, nn_available_cpus = 4,
       nn_available_memory = 64000, nn_distance = [(0, 31)], nn_bandwidth = 0\<rparr>]"

definition ex_small_nodes :: "numa_node list" where
  "ex_small_nodes =
     [\<lparr>nn_id = 0, nn_cpus = [0, 1, 2], nn_total_memory = 64000, nn_available_cpus = 3,
       nn_available_memory = 64000, nn_distance = [], nn_bandwidth = 0\<rparr>,
      \<lparr>nn_id = 1, nn_cpus = [3, 4, 5], nn_total_memory = 64000, nn_available_cpus = 3,
       nn_available_memory = 64000, nn_distance = [], nn_bandwidth = 0\<rparr>]"

lemma ex_labelled_parse:
  "parseNUMATopology (ex_labelled ex_far_labels) = Some (Inr ex_far_nodes)"
  "parseNUMATopology (ex_labelled ex_small_labels) = Some (Inr ex_small_nodes)"
  by code_simp+

lemma ex_labelled_info_node: "ni_node (ex_labelled_info ls) = Some (ex_labelled ls)"
  by (simp add: ex_labelled_info_def)

lemma ex_distance: "nd \<in> set ex_far_nodes \<Longrightarrow> lookup (p_annots p) AnnotationNUMADistance = None \<Longrightarrow>
  calculateNUMADistanceScore nd p = Fin 0"
proof -
  have "avg_distance [(1, 31)] = Fin 31" "avg_distance [(0, 31)] = Fin 31" by code_simp+
  moreover have "fsub (Fin 100) (fmul (fmul (fsub (Fin 31) (Fin 10)) (Fin 5)) (Fin 1)) = Fin (- 5)" by code_simp
  ultimately show "nd \<in> set ex_far_nodes \<Longrightarrow> lookup (p_annots p) AnnotationNUMADistance = None \<Longrightarrow> ?thesis"
    by (auto simp: ex_far_nodes_def calculateNUMADistanceScore_def numa_distance_weight_def)
qed

lemma numa_split_outranks_fit_witness:
  "numa_Score [] (ex_numa_pod NUMAPolicyBestEffort 4 64000) (ex_labelled_info ex_far_labels) = Some ((20, success), []) \<and>
   numa_Score [] (ex_numa_pod NUMAPolicyBestEffort 4 64000) (ex_labelled_info ex_small_labels) = Some ((25, success), [])"
proof -
  let ?p = "ex_numa_pod NUMAPolicyBestEffort 4 64000"
  have p: "getNUMAPolicy ?p = NUMAPolicyBestEffort" "lookup_nonempty (p_annots ?p) AnnotationGangGroup = None"
    "gpus_requested ?p = 0" "\<not> isMemoryIntensive ?p" "snd (getNUMAAffinityPreferences ?p) = []"
    "numa_getPodResourceRequests ?p = (4, 64000)" by code_simp+
  have d: "lookup (p_annots ?p) AnnotationNUMADistance = None" by code_simp
  have f: "\<forall>nd \<in> set ex_far_nodes. int (length (nn_cpus nd)) = 4 \<and> nn_total_memory nd = 64000 \<and>
      calculateNUMADistanceScore nd ?p = Fin 0"
    using ex_distance d by (auto simp: ex_far_nodes_def)
  show ?thesis
    by (rule numa_split_outranks_fit [OF p _ _ _ ex_labelled_info_node ex_labelled_parse(1) _ f
          ex_labelled_info_node ex_labelled_parse(2)])
      (simp_all add: i64_def ex_far_nodes_def ex_small_nodes_def)
qed

section \<open>The gang state\<close>

lemma lookup_update [simp]: "lookup (AList.update k v m) k' = (if k' = k then Some v else lookup m k')"
  by (simp add: update_conv')

lemma record_not_gang: "lookup_nonempty (p_annots p) AnnotationGangGroup = None \<Longrightarrow> recordGangPlacement p i gangs = gangs"
  by (simp add: recordGangPlacement_def)

lemma record_lookup:
  assumes "lookup_nonempty (p_annots p) AnnotationGangGroup = Some grp"
  shows "lookup (recordGangPlacement p i gangs) k =
    (if k = grp
     then Some (let g = (case lookup gangs grp of Some g \<Rightarrow> g
                         | None \<Rightarrow> \<lparr>gs_group = grp, gs_members = [], gs_policy = spread_annotation p\<rparr>)
                in g\<lparr>gs_members := AList.update (numa_pod_key p) i (gs_members g)\<rparr>)
     else lookup gangs k)"
  using assms by (simp add: recordGangPlacement_def Let_def)

text \<open>An invocation of the score for every pod and node of a list, in this order; nothing else writes the state.\<close>

fun run_scores :: "(pod \<times> node_info) list \<Rightarrow> gang_states \<Rightarrow> gang_states option" where
  "run_scores [] gangs = Some gangs"
| "run_scores ((p, ni) # calls) gangs =
     (case numa_Score gangs p ni of None \<Rightarrow> None | Some (r, gangs') \<Rightarrow> run_scores calls gangs')"

definition gang_wf :: "string \<Rightarrow> gang_numa_state \<Rightarrow> bool" where
  "gang_wf k g \<longleftrightarrow> k \<noteq> '''' \<and> gs_group g = k \<and> gs_members g \<noteq> [] \<and> distinct (map fst (gs_members g)) \<and>
     (\<forall>(podKey, i) \<in> set (gs_members g). 0 \<le> i)"

definition gangs_wf :: "gang_states \<Rightarrow> bool" where
  "gangs_wf gangs \<longleftrightarrow> distinct (map fst gangs) \<and> (\<forall>(k, g) \<in> set gangs. gang_wf k g)"

lemma set_update_subset: "set (AList.update k v m) \<subseteq> insert (k, v) (set m)"
  by (induction m) auto

lemma update_nonempty [simp]: "AList.update k v m \<noteq> []"
  by (cases m) auto

lemma gangs_wf_record:
  assumes "gangs_wf gangs" "0 \<le> i"
  shows "gangs_wf (recordGangPlacement p i gangs)"
proof (cases "lookup_nonempty (p_annots p) AnnotationGangGroup")
  case None
  then show ?thesis using assms(1) by (simp add: record_not_gang)
next
  case (Some grp)
  define g where "g = (case lookup gangs grp of Some g \<Rightarrow> g
      | None \<Rightarrow> \<lparr>gs_group = grp, gs_members = [], gs_policy = spread_annotation p\<rparr>)"
  define g' where "g' = g\<lparr>gs_members := AList.update (numa_pod_key p) i (gs_members g)\<rparr>"
  have r: "recordGangPlacement p i gangs = AList.update grp g' gangs"
    using Some by (simp add: recordGangPlacement_def g_def g'_def Let_def)
  have "grp \<noteq> ''''" using Some by (auto dest: lookup_nonemptyD)
  moreover have "gs_group g = grp \<and> distinct (map fst (gs_members g)) \<and> (\<forall>(podKey, i) \<in> set (gs_members g). 0 \<le> i)"
  proof (cases "lookup gangs grp")
    case (Some h)
    then have "(grp, h) \<in> set gangs" by (rule map_of_SomeD)
    then show ?thesis using assms(1) Some by (auto simp: gangs_wf_def gang_wf_def g_def)
  qed (simp add: g_def)
  ultimately have "gang_wf grp g'"
    using assms(2) set_update_subset [of "numa_pod_key p" i "gs_members g"]
    by (auto simp: gang_wf_def g'_def intro!: distinct_update)
  then show ?thesis
    using assms(1) set_update_subset [of grp g' gangs] unfolding r gangs_wf_def by (auto intro!: distinct_update)
qed

lemma numa_Score_state:
  assumes "numa_Score gangs p ni = Some (r, gangs')"
  obtains "gangs' = gangs" | i where "0 \<le> i" "gangs' = recordGangPlacement p i gangs"
proof (cases "ni_node ni")
  case None
  then show thesis using assms that by (simp add: numa_Score_def)
next
  case (Some n)
  from numa_Score_cases [OF assms Some] that show thesis by blast
qed

text \<open>C26: The gang state stays well formed through any run of the score over any pods and nodes, from the
  empty state of a new plugin: gang names are unique and not empty, each state carries its own name, has
  at least one member, records each member once, and places it on a NUMA node with a non-negative
  ID.\<close>

theorem run_scores_wf:
  assumes "run_scores calls [] = Some gangs"
  shows "gangs_wf gangs"
proof -
  have "gangs_wf gangs0 \<Longrightarrow> run_scores calls gangs0 = Some gangs \<Longrightarrow> gangs_wf gangs" for gangs0
  proof (induction calls arbitrary: gangs0)
    case (Cons c calls)
    obtain p ni where c: "c = (p, ni)" by (cases c)
    with Cons.prems(2) obtain r gangs' where s: "numa_Score gangs0 p ni = Some (r, gangs')"
        and rest: "run_scores calls gangs' = Some gangs" by (auto split: option.splits)
    from s have "gangs_wf gangs'"
      by (rule numa_Score_state) (simp_all add: Cons.prems(1) gangs_wf_record)
    then show ?case using Cons.IH rest by blast
  qed simp
  from this [of "[]"] show ?thesis using assms by (simp add: gangs_wf_def)
qed

definition ex_gang_pod :: "string \<Rightarrow> string \<Rightarrow> pod" where
  "ex_gang_pod nm policy = (ex_numa_pod NUMAPolicyBestEffort 4 64000)
     \<lparr>p_name := nm, p_annots := [(AnnotationNUMAPolicy, NUMAPolicyBestEffort), (AnnotationGangGroup, ''train''),
        (AnnotationGangNUMASpread, policy)]\<rparr>"

definition ex_gang_states :: "string \<Rightarrow> gang_states" where
  "ex_gang_states policy =
     [(''train'', \<lparr>gs_group = ''train'', gs_members = [(''ns/a'', 0)], gs_policy = policy\<rparr>)]"

lemma ex_gang_score:
  "numa_Score [] (ex_gang_pod ''a'' GangNUMASpreadIsolated) (ex_labelled_info ex_far_labels) =
     Some ((20, success), ex_gang_states GangNUMASpreadIsolated)"
proof -
  let ?p = "ex_gang_pod ''a'' GangNUMASpreadIsolated"
  have p: "getNUMAPolicy ?p \<noteq> NUMAPolicyNone" "gpus_requested ?p = 0" "\<not> isMemoryIntensive ?p"
    "snd (getNUMAAffinityPreferences ?p) = []" "numa_getPodResourceRequests ?p = (4, 64000)" by code_simp+
  have d: "lookup (p_annots ?p) AnnotationNUMADistance = None" by code_simp
  have f: "\<forall>nd \<in> set ex_far_nodes. int (length (nn_cpus nd)) = 4 \<and> nn_total_memory nd = 64000 \<and>
      calculateNUMADistanceScore nd ?p = Fin 0"
    using ex_distance d by (auto simp: ex_far_nodes_def)
  have g: "\<forall>nd. calculateGangAffinityScore [] ?p nd = Fin 50"
    by (simp add: calculateGangAffinityScore_def split: option.split)
  have r: "recordGangPlacement ?p 0 [] = ex_gang_states GangNUMASpreadIsolated" by code_simp
  have "numa_Score [] ?p (ex_labelled_info ex_far_labels) =
      Some ((20, success), recordGangPlacement ?p (nn_id (hd ex_far_nodes)) [])"
    by (rule tight_fit_score [OF p _ _ _ ex_labelled_info_node ex_labelled_parse(1) _ f g])
      (simp_all add: i64_def ex_far_nodes_def)
  then show ?thesis using r by (simp add: ex_far_nodes_def)
qed

lemma ex_run_scores:
  "run_scores [(ex_gang_pod ''a'' GangNUMASpreadIsolated, ex_labelled_info ex_far_labels)] [] =
     Some (ex_gang_states GangNUMASpreadIsolated)"
  by (simp add: ex_gang_score)

lemma run_scores_wf_witness: "gangs_wf (ex_gang_states GangNUMASpreadIsolated)"
  by (rule run_scores_wf [OF ex_run_scores])

text \<open>The members of a gang on record, and what a step does to them.\<close>

lemma record_keeps:
  assumes "lookup gangs grp = Some g"
  shows "\<exists>g'. lookup (recordGangPlacement p i gangs) grp = Some g' \<and> gs_policy g' = gs_policy g \<and>
    (\<forall>k. has_key (gs_members g) k \<longrightarrow> has_key (gs_members g') k)"
proof (cases "lookup_nonempty (p_annots p) AnnotationGangGroup = Some grp")
  case True
  then show ?thesis using assms by (simp add: record_lookup has_key_def)
next
  case False
  then have "lookup (recordGangPlacement p i gangs) grp = lookup gangs grp"
    by (cases "lookup_nonempty (p_annots p) AnnotationGangGroup") (simp_all add: record_not_gang record_lookup)
  then show ?thesis using assms by auto
qed

lemma numa_Score_keeps:
  assumes "numa_Score gangs p ni = Some (r, gangs')" "lookup gangs grp = Some g"
  shows "\<exists>g'. lookup gangs' grp = Some g' \<and> gs_policy g' = gs_policy g \<and>
    (\<forall>k. has_key (gs_members g) k \<longrightarrow> has_key (gs_members g') k)"
  using assms(1) by (rule numa_Score_state) (use assms(2) record_keeps in auto)

text \<open>A placement on record is never taken back: whatever pods are scored on whatever nodes
  afterwards, every member of a gang stays on record and the gang keeps the spread policy of the pod that
  created it, even when the pods are gone or the gang's name is used again with another policy; the
  plugin has no operation that removes an entry, so the state only grows.\<close>

theorem run_scores_keeps:
  assumes "run_scores calls gangs = Some gangs'" and "lookup gangs grp = Some g"
  shows "\<exists>g'. lookup gangs' grp = Some g' \<and> gs_policy g' = gs_policy g \<and>
    (\<forall>k. has_key (gs_members g) k \<longrightarrow> has_key (gs_members g') k)"
  using assms
proof (induction calls arbitrary: gangs g)
  case (Cons c calls)
  obtain p ni where c: "c = (p, ni)" by (cases c)
  with Cons.prems(1) obtain r gangs1 where s: "numa_Score gangs p ni = Some (r, gangs1)"
    and rest: "run_scores calls gangs1 = Some gangs'" by (auto split: option.splits)
  from numa_Score_keeps [OF s Cons.prems(2)] obtain g1 where
    g1: "lookup gangs1 grp = Some g1" "gs_policy g1 = gs_policy g" "\<forall>k. has_key (gs_members g) k \<longrightarrow> has_key (gs_members g1) k"
    by blast
  from Cons.IH [OF rest g1(1)] g1(2,3) show ?case by auto
qed simp

lemma ex_small_score:
  "numa_Score gangs (ex_gang_pod nm pol) (ex_labelled_info ex_small_labels) = Some ((25, success), gangs)"
proof -
  have "getNUMAPolicy (ex_gang_pod nm pol) = NUMAPolicyBestEffort"
    by (simp add: getNUMAPolicy_def ex_gang_pod_def AnnotationNUMAPolicy_def)
  then have p: "getNUMAPolicy (ex_gang_pod nm pol) \<noteq> NUMAPolicyNone"
    by (simp add: NUMAPolicyBestEffort_def NUMAPolicyNone_def)
  have "numa_getPodResourceRequests (ex_numa_pod NUMAPolicyBestEffort 4 64000) = (4, 64000)" by code_simp
  then have q: "numa_getPodResourceRequests (ex_gang_pod nm pol) = (4, 64000)"
    by (simp add: numa_getPodResourceRequests_def ex_gang_pod_def)
  show ?thesis
    by (rule no_fit_score [OF p q ex_labelled_info_node ex_labelled_parse(2)]) (simp_all add: ex_small_nodes_def)
qed

lemma run_scores_keeps_witness:
  "\<exists>g'. lookup (ex_gang_states ''isolated'') ''train'' = Some g' \<and> gs_policy g' = ''isolated'' \<and> has_key (gs_members g') ''ns/a''"
proof -
  have r: "run_scores [(ex_gang_pod ''b'' ''packed'', ex_labelled_info ex_small_labels)] (ex_gang_states ''isolated'') =
      Some (ex_gang_states ''isolated'')" by (simp add: ex_small_score)
  have l: "lookup (ex_gang_states ''isolated'') ''train'' =
      Some \<lparr>gs_group = ''train'', gs_members = [(''ns/a'', 0)], gs_policy = ''isolated''\<rparr>"
    by (simp add: ex_gang_states_def)
  from run_scores_keeps [OF r l] show ?thesis by (auto simp: has_key_def)
qed

section \<open>A pod meets its own tentative placement\<close>

text \<open>What the isolated policy gives after one member was recorded.\<close>

lemma isolated_single:
  assumes "lookup_nonempty (p_annots p) AnnotationGangGroup = Some grp"
    "lookup gangs grp = None" "spread_annotation p = GangNUMASpreadIsolated"
  shows "calculateGangAffinityScore (recordGangPlacement p i gangs) p nd = (if nn_id nd = i then Fin 0 else Fin 100)"
proof -
  have "lookup (recordGangPlacement p i gangs) grp =
      Some \<lparr>gs_group = grp, gs_members = [(numa_pod_key p, i)], gs_policy = GangNUMASpreadIsolated\<rparr>"
    using assms by (simp add: record_lookup)
  moreover have "GangNUMASpreadIsolated \<noteq> ''''" "GangNUMASpreadIsolated \<noteq> GangNUMASpreadPacked"
    "GangNUMASpreadIsolated \<noteq> GangNUMASpreadBalanced"
    by (simp_all add: GangNUMASpreadIsolated_def GangNUMASpreadPacked_def GangNUMASpreadBalanced_def)
  ultimately show ?thesis using assms(1) by (auto simp: calculateGangAffinityScore_def spread_policy_def)
qed

text \<open>The score of a node depends on the nodes scored before it: scoring records a placement on every
  node it fits, not only on the node that is chosen. When the first pod of an isolated gang has been
  scored on one node, its own tentative placement there counts as a gang member: on every other node
  its gang part drops from the neutral 50 to 0 for the NUMA node with the same number and rises to 100
  for the others, although no member of the gang has been placed anywhere.\<close>

theorem isolated_pod_avoids_itself:
  assumes "numa_Score gangs p ni = Some (r, gangs')" and "gangs' \<noteq> gangs"
    and "lookup_nonempty (p_annots p) AnnotationGangGroup = Some grp" and "lookup gangs grp = None"
    and "spread_annotation p = GangNUMASpreadIsolated"
  shows "(\<forall>nd. calculateGangAffinityScore gangs p nd = Fin 50) \<and>
    (\<exists>i. \<forall>nd. calculateGangAffinityScore gangs' p nd = (if nn_id nd = i then Fin 0 else Fin 100))"
proof
  show "\<forall>nd. calculateGangAffinityScore gangs p nd = Fin 50"
    using assms(3,4) by (simp add: calculateGangAffinityScore_def)
  obtain i where "gangs' = recordGangPlacement p i gangs"
    using assms(1,2) by (elim numa_Score_state) auto
  then show "\<exists>i. \<forall>nd. calculateGangAffinityScore gangs' p nd = (if nn_id nd = i then Fin 0 else Fin 100)"
    using isolated_single [OF assms(3-5)] by blast
qed

lemma isolated_pod_avoids_itself_witness:
  "\<exists>i. \<forall>nd. calculateGangAffinityScore (ex_gang_states GangNUMASpreadIsolated)
     (ex_gang_pod ''a'' GangNUMASpreadIsolated) nd = (if nn_id nd = i then Fin 0 else Fin 100)"
proof -
  have "lookup_nonempty (p_annots (ex_gang_pod ''a'' GangNUMASpreadIsolated)) AnnotationGangGroup = Some ''train''"
    "spread_annotation (ex_gang_pod ''a'' GangNUMASpreadIsolated) = GangNUMASpreadIsolated" by code_simp+
  then show ?thesis
    using isolated_pod_avoids_itself [OF ex_gang_score] by (simp add: ex_gang_states_def)
qed

end
