(* ===== verification/VramDevices.thy ===== *)
theory VramDevices
  imports Profile GoParseFloat
begin

text \<open>
  \<^verbatim>\<open>pkg/plugins/vramscheduler\<close>, the node side: the GPUs of a node with their memory and their
  place in the topology, discovered from DRA resource slices (\<^verbatim>\<open>dra.go\<close>), from the labels of
  Node Feature Discovery (\<^verbatim>\<open>nfd.go\<close>) or from manual labels (\<^verbatim>\<open>vramscheduler.go\<close>), in this
  order of preference.

  \<^verbatim>\<open>resource.ParseQuantity\<close> is a parameter \<^verbatim>\<open>parseQ\<close>: the value of a quantity, or the error
  message.  The lister of resource slices is \<^verbatim>\<open>None\<close> when it is nil.  The list of a node's labels is
  in the order in which a loop visits the map.  A topology that cannot be built, because the label for
  the number of GPUs makes \<^verbatim>\<open>make\<close> panic, is \<^verbatim>\<open>None\<close>.  The five-second timeout is set on a
  context no lister reads, so it has no effect and is left out; running out of memory is not modelled.
\<close>

section \<open>Types and constants\<close>

record gpu_device =
  gd_name :: string
  gd_vram :: int
  gd_numa :: int
  gd_pcie_bus :: string
  gd_pcie_switch :: string
  gd_peers :: "string list"
  gd_domain :: int

type_synonym quantity_parser = "string \<Rightarrow> string + int"

type_synonym slices = "(string + resource_slice list) option"

definition LabelGPUVRAM :: string where "LabelGPUVRAM = ''gpu.kubenexus.io/vram''"
definition vram_LabelGPUModel :: string where "vram_LabelGPUModel = ''gpu.kubenexus.io/model''"
definition LabelGPUCount :: string where "LabelGPUCount = ''gpu.kubenexus.io/count''"

definition NFDLabelPrefix :: string where "NFDLabelPrefix = ''feature.node.kubernetes.io/''"
definition NVIDIAVendorID :: string where "NVIDIAVendorID = ''10de''"
definition AMDVendorID :: string where "AMDVendorID = ''1002''"
definition IntelGPUVendorID :: string where "IntelGPUVendorID = ''8086''"
definition NFDNUMANodes :: string where "NFDNUMANodes = ''feature.node.kubernetes.io/memory-numa''"

definition GiB :: int where "GiB = 1024 * 1024 * 1024"

text \<open>An integer that a string stands for when it parses.\<close>

definition atoi_or :: "int \<Rightarrow> string \<Rightarrow> int" where
  "atoi_or dflt s = (case atoi s of Inl _ \<Rightarrow> dflt | Inr k \<Rightarrow> k)"

section \<open>DRA resource slices\<close>

definition gpuPatterns :: "string list" where
  "gpuPatterns = [''gpu'', ''nvidia'', ''amd'', ''intel.com/gpu'', ''accelerator'']"

definition vram_isGPUDriver :: "string \<Rightarrow> bool" where
  "vram_isGPUDriver driver \<longleftrightarrow> list_ex (contains (to_lower driver)) gpuPatterns"

definition vramResourceNames :: "string list" where
  "vramResourceNames = [''memory'', ''gpu.memory'', ''nvidia.com/memory'', ''vram'']"

fun first_present :: "string list \<Rightarrow> 'v gomap \<Rightarrow> 'v option" where
  "first_present [] m = None"
| "first_present (k # ks) m = (case lookup m k of Some v \<Rightarrow> Some v | None \<Rightarrow> first_present ks m)"

text \<open>An attribute read as an integer, \<^verbatim>\<open>-1\<close> when unknown, and as a string.\<close>

definition attr_int :: "device_attr gomap \<Rightarrow> string \<Rightarrow> int" where
  "attr_int attrs key =
     (case lookup attrs key of
        None \<Rightarrow> - 1
      | Some a \<Rightarrow>
         (case da_int a of
            Some v \<Rightarrow> v
          | None \<Rightarrow> (case da_string a of Some s \<Rightarrow> atoi_or (- 1) s | None \<Rightarrow> - 1)))"

definition attr_string :: "device_attr gomap \<Rightarrow> string \<Rightarrow> string option" where
  "attr_string attrs key = (case lookup attrs key of None \<Rightarrow> None | Some a \<Rightarrow> da_string a)"

definition parse_peers :: "string \<Rightarrow> string list" where
  "parse_peers s = filter (\<lambda>peer. peer \<noteq> '''') (map trim_space (split_on CHR '','' s))"

definition parseGPUDeviceFromDRA :: "dra_device \<Rightarrow> gpu_device" where
  "parseGPUDeviceFromDRA d =
     (let attrs = dv_attrs d;
          switch = (case attr_string attrs ''pcie-switch'' of Some s \<Rightarrow> s | None \<Rightarrow> '''')
      in \<lparr>gd_name = dv_name d,
          gd_vram = (case first_present vramResourceNames (dv_capacity d) of Some c \<Rightarrow> c | None \<Rightarrow> 0),
          gd_numa = attr_int attrs ''numa-node'',
          gd_pcie_bus = (case attr_string attrs ''pcie-bus-id'' of Some s \<Rightarrow> s | None \<Rightarrow> ''''),
          gd_pcie_switch =
            (case attr_string attrs ''model'' of
               Some model \<Rightarrow> if switch = '''' then model else switch
             | None \<Rightarrow> switch),
          gd_peers = (case attr_string attrs ''nvlink-peers'' of Some s \<Rightarrow> parse_peers s | None \<Rightarrow> []),
          gd_domain = attr_int attrs ''nvlink-domain''\<rparr>)"

text \<open>The step that keeps the least memory seen, 0 standing for none yet.\<close>

definition min_step :: "int \<Rightarrow> int \<Rightarrow> int" where
  "min_step acc x = (if acc = 0 \<or> x < acc then x else acc)"

datatype dra_error = SlicesUnavailable | NoSlices | NoGPUDevices

definition getGPUTopologyFromDRA :: "slices \<Rightarrow> node \<Rightarrow> dra_error + int \<times> gpu_device list" where
  "getGPUTopologyFromDRA slices n =
     (case slices of
        None \<Rightarrow> Inl SlicesUnavailable
      | Some (Inl _) \<Rightarrow> Inl SlicesUnavailable
      | Some (Inr allSlices) \<Rightarrow>
         (let own = filter (\<lambda>s. sl_node s = Some (n_name n)) allSlices
          in if own = [] then Inl NoSlices
             else let gpuDevices = concat (map (\<lambda>s.
                        if \<not> vram_isGPUDriver (sl_driver s) then []
                        else filter (\<lambda>g. gd_vram g > 0) (map parseGPUDeviceFromDRA (sl_devices s))) own)
             in if gpuDevices = [] then Inl NoGPUDevices
                else Inr (foldl min_step 0 (map gd_vram gpuDevices), gpuDevices)))"

section \<open>Node Feature Discovery\<close>

definition nvidiaDeviceIDToVRAM :: "int gomap" where
  "nvidiaDeviceIDToVRAM =
     [(''2330'', 80 * GiB), (''2331'', 80 * GiB), (''2322'', 141 * GiB),
      (''20b0'', 40 * GiB), (''20b1'', 40 * GiB), (''20b2'', 80 * GiB), (''20b5'', 80 * GiB),
      (''26b5'', 48 * GiB), (''26b1'', 48 * GiB), (''27b8'', 24 * GiB), (''2235'', 48 * GiB),
      (''20b7'', 24 * GiB), (''1eb8'', 16 * GiB),
      (''1db4'', 16 * GiB), (''1db5'', 32 * GiB), (''1db6'', 32 * GiB),
      (''2204'', 48 * GiB), (''2206'', 48 * GiB)]"

definition amdDeviceMap :: "int gomap" where
  "amdDeviceMap = [(''740f'', 32 * GiB), (''740c'', 64 * GiB), (''7408'', 32 * GiB), (''738c'', 32 * GiB)]"

definition intelDeviceMap :: "int gomap" where
  "intelDeviceMap = [(''0bd5'', 48 * GiB), (''56c0'', 16 * GiB), (''56c1'', 12 * GiB)]"

definition vram_or_0 :: "int gomap \<Rightarrow> string \<Rightarrow> int" where
  "vram_or_0 m deviceID = (case lookup m deviceID of Some v \<Rightarrow> v | None \<Rightarrow> 0)"

definition inferAMDVRAMFromDeviceID :: "string \<Rightarrow> int" where
  "inferAMDVRAMFromDeviceID deviceID = vram_or_0 amdDeviceMap deviceID"

definition inferIntelVRAMFromDeviceID :: "string \<Rightarrow> int" where
  "inferIntelVRAMFromDeviceID deviceID = vram_or_0 intelDeviceMap deviceID"

definition vendor_vram :: "string \<Rightarrow> string \<Rightarrow> int" where
  "vendor_vram vendorID deviceID =
     (if vendorID = NVIDIAVendorID then vram_or_0 nvidiaDeviceIDToVRAM deviceID
      else if vendorID = AMDVendorID then inferAMDVRAMFromDeviceID deviceID
      else if vendorID = IntelGPUVendorID then inferIntelVRAMFromDeviceID deviceID
      else 0)"

definition pciPrefix :: "string \<Rightarrow> string" where
  "pciPrefix vendorID = NFDLabelPrefix @ ''pci-'' @ vendorID @ ''.device.''"

text \<open>The device ID a label names, when the label is one of the vendor's and has a value.\<close>

definition nfd_device_id :: "string \<Rightarrow> string \<times> string \<Rightarrow> string option" where
  "nfd_device_id vendorID lv =
     (let (lbl, val) = lv
      in if \<not> has_prefix lbl (pciPrefix vendorID) then None
         else if \<not> has_suffix lbl ''.present'' \<and> \<not> has_suffix lbl ''.count'' then None
         else if val \<noteq> ''true'' \<and> val = '''' then None
         else let parts = split_on CHR ''.'' lbl
         in if length parts < 4 then None else Some (parts ! (length parts - 2)))"

definition nfd_device_count :: "string gomap \<Rightarrow> string \<Rightarrow> string \<Rightarrow> int" where
  "nfd_device_count labels vendorID deviceID =
     (case lookup labels (pciPrefix vendorID @ deviceID @ ''.count'') of
        None \<Rightarrow> 1
      | Some s \<Rightarrow> (case atoi s of Inr k \<Rightarrow> if k > 0 then k else 1 | Inl _ \<Rightarrow> 1))"

definition nfd_gpu :: "string \<Rightarrow> string \<Rightarrow> int \<Rightarrow> int \<Rightarrow> int \<Rightarrow> gpu_device" where
  "nfd_gpu vendorID deviceID vram index i =
     \<lparr>gd_name = ''gpu-'' @ itoa index, gd_vram = vram, gd_numa = - 1,
      gd_pcie_bus = vendorID @ '':'' @ deviceID @ ''-'' @ itoa i,
      gd_pcie_switch = '''', gd_peers = [], gd_domain = - 1\<rparr>"

text \<open>The loop over the labels; the index of the next device is the number of devices so far.\<close>

fun scan_labels :: "string gomap \<Rightarrow> string \<Rightarrow> string gomap \<Rightarrow> gpu_device list \<Rightarrow> gpu_device list" where
  "scan_labels labels vendorID [] devices = devices"
| "scan_labels labels vendorID (lv # lvs) devices =
     scan_labels labels vendorID lvs
       (case nfd_device_id vendorID lv of
          None \<Rightarrow> devices
        | Some deviceID \<Rightarrow>
           (let vram = vendor_vram vendorID deviceID
            in if vram = 0 then devices
               else devices @ map (\<lambda>i. nfd_gpu vendorID deviceID vram (int (length devices) + i) i)
                                  [0..nfd_device_count labels vendorID deviceID - 1]))"

definition scanNFDForPCIDevices :: "node \<Rightarrow> string \<Rightarrow> gpu_device list" where
  "scanNFDForPCIDevices n vendorID = scan_labels (n_labels n) vendorID (n_labels n) []"

text \<open>The number of NUMA nodes: a label, or one more than the largest numbered node.\<close>

definition nfd_numa_number :: "string \<Rightarrow> int" where
  "nfd_numa_number lbl =
     (if has_prefix lbl (NFDNUMANodes @ ''.node'')
      then atoi_or 0 (drop (length (NFDNUMANodes @ ''.node'')) lbl) else 0)"

definition getNUMANodeCountFromNFD :: "node \<Rightarrow> int" where
  "getNUMANodeCountFromNFD n =
     (let numbered = foldl (\<lambda>maxNode lv. max maxNode (nfd_numa_number (fst lv))) 0 (n_labels n);
          fallback = (if numbered > 0 then wrap64 (numbered + 1) else 0)
      in if lookup (n_labels n) NFDNUMANodes = None then 0
         else (case lookup (n_labels n) (NFDNUMANodes @ ''.node_count'') of
                 None \<Rightarrow> fallback
               | Some s \<Rightarrow> (case atoi s of Inr k \<Rightarrow> if k > 0 then k else fallback | Inl _ \<Rightarrow> fallback)))"

text \<open>The guess which NUMA node each GPU belongs to: equal shares in the order of the list.\<close>

definition spread_numa :: "int \<Rightarrow> gpu_device list \<Rightarrow> gpu_device list" where
  "spread_numa numaNodeCount gpus =
     (if numaNodeCount > 0
      then (let gpusPerNUMA = quot (int (length gpus)) numaNodeCount
            in map (\<lambda>(i, g). if gpusPerNUMA > 0 then g\<lparr>gd_numa := quot (int i) gpusPerNUMA\<rparr> else g)
                 (enumerate 0 gpus))
      else gpus)"

definition getTopologyFromNFD :: "node \<Rightarrow> (int \<times> gpu_device list) option" where
  "getTopologyFromNFD n =
     (let gpuDevices = scanNFDForPCIDevices n NVIDIAVendorID @ scanNFDForPCIDevices n AMDVendorID @
                       scanNFDForPCIDevices n IntelGPUVendorID
      in if gpuDevices = [] then None
         else Some (foldl min_step 0 (filter (\<lambda>v. v > 0) (map gd_vram gpuDevices)),
                    spread_numa (getNUMANodeCountFromNFD n) gpuDevices))"

section \<open>Manual labels\<close>

definition vramMap :: "int gomap" where
  "vramMap =
     [(''H100-80GB'', 80 * GiB), (''H200'', 141 * GiB), (''H100'', 80 * GiB), (''A100-80GB'', 80 * GiB),
      (''A100-40GB'', 40 * GiB), (''A100'', 40 * GiB), (''L40S'', 48 * GiB), (''L40'', 48 * GiB),
      (''L4'', 24 * GiB), (''A40'', 48 * GiB), (''A30'', 24 * GiB), (''T4'', 16 * GiB),
      (''V100-32GB'', 32 * GiB), (''V100-16GB'', 16 * GiB), (''V100'', 32 * GiB),
      (''RTX8000'', 48 * GiB), (''RTX6000'', 24 * GiB), (''MI300'', 192 * GiB)]"

fun first_contained :: "string \<Rightarrow> int gomap \<Rightarrow> int" where
  "first_contained model [] = 0"
| "first_contained model ((key, vram) # es) =
     (if contains model key then vram else first_contained model es)"

definition inferVRAMFromModel :: "string \<Rightarrow> int" where
  "inferVRAMFromModel gpuModel = first_contained (to_upper gpuModel) vramMap"

definition label_gpu_count :: "node \<Rightarrow> int" where
  "label_gpu_count n = (case lookup (n_labels n) LabelGPUCount of None \<Rightarrow> 1 | Some s \<Rightarrow> atoi_or 1 s)"

definition getNodeGPUVRAMFromLabels :: "quantity_parser \<Rightarrow> node \<Rightarrow> int \<times> int" where
  "getNodeGPUVRAMFromLabels parseQ n =
     (case lookup (n_labels n) LabelGPUVRAM of
        Some vramStr \<Rightarrow>
         (case parseQ vramStr of
            Inl _ \<Rightarrow> (0, 0)
          | Inr vramBytes \<Rightarrow> (vramBytes, label_gpu_count n))
      | None \<Rightarrow>
         (case lookup (n_labels n) vram_LabelGPUModel of
            Some gpuModel \<Rightarrow>
              if inferVRAMFromModel gpuModel > 0 then (inferVRAMFromModel gpuModel, label_gpu_count n) else (0, 0)
          | None \<Rightarrow> (0, 0)))"

section \<open>The fallback chain\<close>

text \<open>
  \<^verbatim>\<open>make([]GPUDevice, gpuCount)\<close> panics for a negative count, and when the devices, of 96 bytes
  each, exceed the address space of 48 bits.
\<close>

definition gpu_slice_fits :: "int \<Rightarrow> bool" where
  "gpu_slice_fits k \<longleftrightarrow> 0 \<le> k \<and> 96 * k \<le> 2 ^ 48"

definition label_gpu :: "int \<Rightarrow> int \<Rightarrow> gpu_device" where
  "label_gpu vram i =
     \<lparr>gd_name = ''gpu-'' @ itoa i, gd_vram = vram, gd_numa = - 1, gd_pcie_bus = '''',
      gd_pcie_switch = '''', gd_peers = [], gd_domain = - 1\<rparr>"

definition topology_from_labels :: "quantity_parser \<Rightarrow> node \<Rightarrow> (int \<times> gpu_device list) option" where
  "topology_from_labels parseQ n =
     (let (vramPerGPU, gpuCount) = getNodeGPUVRAMFromLabels parseQ n
      in if gpu_slice_fits gpuCount then Some (vramPerGPU, map (label_gpu vramPerGPU) [0..gpuCount - 1])
         else None)"

definition getNodeGPUTopology :: "quantity_parser \<Rightarrow> slices \<Rightarrow> node \<Rightarrow> (int \<times> gpu_device list) option" where
  "getNodeGPUTopology parseQ slices n =
     (case getGPUTopologyFromDRA slices n of
        Inr t \<Rightarrow> Some t
      | Inl _ \<Rightarrow>
         (case getTopologyFromNFD n of
            Some t \<Rightarrow> Some t
          | None \<Rightarrow> topology_from_labels parseQ n))"

definition getNodeGPUVRAM :: "quantity_parser \<Rightarrow> slices \<Rightarrow> node \<Rightarrow> (int \<times> int) option" where
  "getNodeGPUVRAM parseQ slices n =
     (case getNodeGPUTopology parseQ slices n of
        None \<Rightarrow> None
      | Some (_, gpuDevices) \<Rightarrow>
          if gpuDevices = [] then Some (getNodeGPUVRAMFromLabels parseQ n)
          else Some (foldl min_step 0 (map gd_vram gpuDevices), int (length gpuDevices)))"

section \<open>The memory of a GPU node\<close>

lemma foldl_min_step: "0 < a \<Longrightarrow> \<forall>x \<in> set xs. 0 < x \<Longrightarrow> foldl min_step a xs = Min (insert a (set xs)) \<and> 0 < foldl min_step a xs"
proof (induction xs arbitrary: a)
  case (Cons x xs)
  have "min_step a x = min a x" using Cons.prems by (simp add: min_step_def min_def)
  with Cons show ?case by (cases "xs = []") (simp_all add: min.assoc)
qed simp

lemma foldl_min_step_Min:
  assumes "xs \<noteq> []" "\<forall>x \<in> set xs. 0 < x"
  shows "foldl min_step 0 xs = Min (set xs)"
proof -
  obtain x ys where "xs = x # ys" using assms(1) by (cases xs) auto
  then show ?thesis using foldl_min_step [of x ys] assms(2) by (simp add: min_step_def)
qed

lemma foldl_min_step_const: "\<forall>x \<in> set xs. x = v \<Longrightarrow> foldl min_step v xs = v"
  by (induction xs) (auto simp: min_step_def)

lemma vram_or_0_pos: "list_all (\<lambda>(k, v). 0 < v) m \<Longrightarrow> vram_or_0 m k \<noteq> 0 \<Longrightarrow> 0 < vram_or_0 m k"
  by (auto simp: vram_or_0_def list_all_iff split: option.splits dest: map_of_SomeD)

lemma vendor_vram_pos: "vendor_vram vendorID deviceID \<noteq> 0 \<Longrightarrow> 0 < vendor_vram vendorID deviceID"
proof -
  have t: "list_all (\<lambda>(k, v). 0 < v) nvidiaDeviceIDToVRAM" "list_all (\<lambda>(k, v). 0 < v) amdDeviceMap"
    "list_all (\<lambda>(k, v). 0 < v) intelDeviceMap"
    by (simp_all add: nvidiaDeviceIDToVRAM_def amdDeviceMap_def intelDeviceMap_def GiB_def)
  note p = vram_or_0_pos [OF t(1), of deviceID] vram_or_0_pos [OF t(2), of deviceID] vram_or_0_pos [OF t(3), of deviceID]
  show "vendor_vram vendorID deviceID \<noteq> 0 \<Longrightarrow> 0 < vendor_vram vendorID deviceID"
    using p by (simp add: vendor_vram_def inferAMDVRAMFromDeviceID_def inferIntelVRAMFromDeviceID_def split: if_splits)
qed

lemma scan_labels_pos:
  "\<forall>g \<in> set ds. 0 < gd_vram g \<Longrightarrow> g \<in> set (scan_labels labels vendorID lvs ds) \<Longrightarrow> 0 < gd_vram g"
proof (induction lvs arbitrary: ds)
  case (Cons lv lvs)
  have "\<forall>g \<in> set (case nfd_device_id vendorID lv of None \<Rightarrow> ds
      | Some deviceID \<Rightarrow> (let vram = vendor_vram vendorID deviceID in if vram = 0 then ds
          else ds @ map (\<lambda>i. nfd_gpu vendorID deviceID vram (int (length ds) + i) i)
                        [0..nfd_device_count labels vendorID deviceID - 1])). 0 < gd_vram g"
    using Cons.prems(1) vendor_vram_pos by (auto simp: nfd_gpu_def Let_def split: option.splits)
  with Cons show ?case by (simp only: scan_labels.simps)
qed simp

lemma spread_numa_vram: "map gd_vram (spread_numa k gpus) = map gd_vram gpus"
proof -
  have "map gd_vram (map (\<lambda>(i, g). if q > 0 then g\<lparr>gd_numa := quot (int i) q\<rparr> else g) (enumerate m gs)) = map gd_vram gs"
    for m q gs by (induction gs arbitrary: m) auto
  note e = this
  show ?thesis unfolding spread_numa_def Let_def by (cases "0 < k") (simp_all only: if_True if_False e)
qed

lemma spread_numa_length: "length (spread_numa k gpus) = length gpus"
  by (simp add: spread_numa_def Let_def)

text \<open>Every topology gives its devices the memory it reports as their least.\<close>

lemma topology_min:
  assumes "getNodeGPUTopology parseQ slices n = Some (v, ds)" "ds \<noteq> []"
  shows "v = foldl min_step 0 (map gd_vram ds) \<and> foldl min_step 0 (map gd_vram ds) = Min (gd_vram ` set ds)"
proof -
  from assms(1) consider
      (dra) "getGPUTopologyFromDRA slices n = Inr (v, ds)"
    | (nfd) "getTopologyFromNFD n = Some (v, ds)"
    | (labels) "topology_from_labels parseQ n = Some (v, ds)"
    by (auto simp: getNodeGPUTopology_def split: sum.splits option.splits)
  then show ?thesis
  proof cases
    case dra
    then have "v = foldl min_step 0 (map gd_vram ds)" "\<forall>g \<in> set ds. 0 < gd_vram g"
      by (auto simp: getGPUTopologyFromDRA_def Let_def split: option.splits sum.splits if_splits)
    then show ?thesis using foldl_min_step_Min [of "map gd_vram ds"] assms(2) by auto
  next
    case nfd
    define gs where "gs = scanNFDForPCIDevices n NVIDIAVendorID @ scanNFDForPCIDevices n AMDVendorID @
        scanNFDForPCIDevices n IntelGPUVendorID"
    have p: "\<forall>g \<in> set gs. 0 < gd_vram g"
      using scan_labels_pos [of "[]"] by (auto simp: gs_def scanNFDForPCIDevices_def)
    have v: "v = foldl min_step 0 (filter (\<lambda>v. v > 0) (map gd_vram gs))"
      and ds: "ds = spread_numa (getNUMANodeCountFromNFD n) gs"
      using nfd by (simp_all add: getTopologyFromNFD_def gs_def Let_def split: if_splits)
    have m: "map gd_vram ds = map gd_vram gs" by (simp add: ds spread_numa_vram)
    have "filter (\<lambda>v. v > 0) (map gd_vram gs) = map gd_vram gs" using p by (simp add: filter_id_conv)
    then have "v = foldl min_step 0 (map gd_vram ds)" using v m by simp
    moreover have "\<forall>x \<in> set (map gd_vram ds). 0 < x" using p by (simp only: m) simp
    ultimately show ?thesis using foldl_min_step_Min [of "map gd_vram ds"] assms(2) by auto
  next
    case labels
    then obtain k where ds: "ds = map (label_gpu v) [0..k - 1]"
      by (auto simp: topology_from_labels_def split: prod.splits if_splits)
    then have c: "\<forall>x \<in> set (map gd_vram ds). x = v" by (auto simp: label_gpu_def)
    obtain d ds' where d: "ds = d # ds'" using assms(2) by (cases ds) auto
    then have "foldl min_step 0 (map gd_vram ds) = v"
      using c foldl_min_step_const [of "map gd_vram ds'" v] by (simp add: min_step_def)
    moreover have "gd_vram ` set ds = {v}" using c d by auto
    ultimately show ?thesis by simp
  qed
qed

lemma node_vram_min:
  assumes "getNodeGPUTopology parseQ slices n = Some (v, ds)" "ds \<noteq> []"
  shows "getNodeGPUVRAM parseQ slices n = Some (Min (gd_vram ` set ds), int (length ds))"
  using topology_min [OF assms] assms by (simp add: getNodeGPUVRAM_def)

text \<open>C30: The memory a node is taken to have per GPU is the minimum over its GPUs, whatever source named
  them and in whatever order: the loops that track a least value, with zero for none yet, implement the
  minimum of the set, the value reported with the topology is the same, and the number of GPUs is the
  number of devices found.\<close>

theorem getNodeGPUVRAM_min:
  assumes "getNodeGPUTopology parseQ slices n = Some (v, ds)" and "ds \<noteq> []"
  shows "getNodeGPUVRAM parseQ slices n = Some (Min (gd_vram ` set ds), int (length ds)) \<and>
    v = Min (gd_vram ` set ds)"
  using topology_min [OF assms] node_vram_min [OF assms] by simp

definition ex_dra_device :: "string \<Rightarrow> int \<Rightarrow> dra_device" where
  "ex_dra_device nm vram = \<lparr>dv_name = nm, dv_capacity = [(''memory'', vram)],
     dv_attrs = [(''model'', \<lparr>da_int = None, da_string = Some ''H100''\<rparr>)]\<rparr>"

definition ex_slices :: slices where
  "ex_slices = Some (Inr [\<lparr>sl_node = Some ''n'', sl_driver = ''gpu.nvidia.com'',
     sl_devices = [ex_dra_device ''gpu-0'' 80, ex_dra_device ''gpu-1'' 40]\<rparr>])"

definition ex_gpu_node :: "string gomap \<Rightarrow> node" where
  "ex_gpu_node ls = \<lparr>n_name = ''n'', n_labels = ls, n_allocatable = [], n_capacity = []\<rparr>"

definition ex_dra_gpu :: "string \<Rightarrow> int \<Rightarrow> gpu_device" where
  "ex_dra_gpu nm vram = \<lparr>gd_name = nm, gd_vram = vram, gd_numa = - 1, gd_pcie_bus = '''',
     gd_pcie_switch = ''H100'', gd_peers = [], gd_domain = - 1\<rparr>"

lemma ex_dra_topology: "getNodeGPUTopology parseQ ex_slices (ex_gpu_node ls) =
  Some (40, [ex_dra_gpu ''gpu-0'' 80, ex_dra_gpu ''gpu-1'' 40])"
proof -
  have "getGPUTopologyFromDRA ex_slices (ex_gpu_node []) = Inr (40, [ex_dra_gpu ''gpu-0'' 80, ex_dra_gpu ''gpu-1'' 40])"
    by code_simp
  moreover have "getGPUTopologyFromDRA ex_slices (ex_gpu_node ls) = getGPUTopologyFromDRA ex_slices (ex_gpu_node [])"
    by (simp only: getGPUTopologyFromDRA_def ex_gpu_node_def node.select_convs)
  ultimately show ?thesis by (simp add: getNodeGPUTopology_def)
qed

lemma ex_node_vram: "getNodeGPUVRAM parseQ ex_slices (ex_gpu_node ls) = Some (40, 2)"
  using node_vram_min [OF ex_dra_topology] by (simp add: ex_dra_gpu_def)

lemma getNodeGPUVRAM_min_witness:
  "getNodeGPUVRAM (\<lambda>_. Inl ''invalid'') ex_slices (ex_gpu_node []) = Some (40, 2) \<and>
   Min (gd_vram ` {ex_dra_gpu ''gpu-0'' 80, ex_dra_gpu ''gpu-1'' 40}) = 40"
  using getNodeGPUVRAM_min [OF ex_dra_topology, of "\<lambda>_. Inl ''invalid''" "[]"] by (simp add: ex_dra_gpu_def)

section \<open>Counting the devices of NFD labels\<close>

lemma split_on_app: "split_on c (s @ c # t) = split_on c s @ split_on c t"
  by (induction s) (auto split: list.splits)

lemma length_split_on: "length (split_on c s) = Suc (length (filter (\<lambda>x. x = c) s))"
  by (induction s) (auto split: list.splits)

text \<open>What one label contributes to the scan.\<close>

definition label_devices :: "string gomap \<Rightarrow> string \<Rightarrow> string \<times> string \<Rightarrow> nat" where
  "label_devices labels vendorID lv =
     (case nfd_device_id vendorID lv of
        None \<Rightarrow> 0
      | Some deviceID \<Rightarrow> if vendor_vram vendorID deviceID = 0 then 0 else nat (nfd_device_count labels vendorID deviceID))"

lemma length_scan_labels:
  "length (scan_labels labels vendorID lvs ds) = length ds + sum_list (map (label_devices labels vendorID) lvs)"
proof (induction lvs arbitrary: ds)
  case (Cons lv lvs)
  show ?case by (simp only: scan_labels.simps Cons.IH) (simp add: label_devices_def Let_def split: option.splits)
qed simp

lemma nfd_device_id_of:
  assumes "CHR ''.'' \<notin> set deviceID" "suf \<in> {''present'', ''count''}" "val \<noteq> ''''"
  shows "nfd_device_id vendorID (pciPrefix vendorID @ deviceID @ ''.'' @ suf, val) = Some deviceID"
proof -
  let ?l = "pciPrefix vendorID @ deviceID @ ''.'' @ suf"
  define pre where "pre = ''feature.node.kubernetes.io/pci-'' @ vendorID @ ''.device''"
  have l: "?l = pre @ CHR ''.'' # deviceID @ CHR ''.'' # suf" by (simp add: pciPrefix_def NFDLabelPrefix_def pre_def)
  have suf: "CHR ''.'' \<notin> set suf" using assms(2) by auto
  have "split_on CHR ''.'' ?l = split_on CHR ''.'' pre @ [deviceID, suf]"
    unfolding l by (simp add: split_on_app split_on_append split_on_no_sep assms(1) suf)
  moreover have "2 \<le> length (split_on CHR ''.'' pre)" by (simp add: length_split_on pre_def)
  moreover have "has_prefix ?l (pciPrefix vendorID)" by (simp add: has_prefix_def)
  moreover have "has_suffix ?l ''.present'' \<or> has_suffix ?l ''.count''"
    using assms(2) by (auto simp: has_suffix_def suffix_def)
  ultimately show ?thesis using assms(3) by (simp add: nfd_device_id_def Let_def nth_append)
qed

lemma sum_list_two:
  fixes f :: "'a \<Rightarrow> nat"
  assumes "x \<in> set xs" "y \<in> set xs" "x \<noteq> y"
  shows "f x + f y \<le> sum_list (map f xs)"
proof -
  from assms(1) obtain as bs where xs: "xs = as @ x # bs" by (meson split_list)
  then have "y \<in> set (as @ bs)" using assms by auto
  then have "f y \<le> sum_list (map f (as @ bs))" by (intro member_le_sum_list) auto
  then show ?thesis using xs by simp
qed

text \<open>A node whose NFD labels carry both the presence and the number of a GPU model is given twice as
  many GPUs as it has: the label that ends in \<^verbatim>\<open>.present\<close> and the label that ends in
  \<^verbatim>\<open>.count\<close> each contribute the whole number.\<close>

theorem nfd_counts_twice:
  assumes "(pciPrefix v @ deviceID @ ''.present'', a) \<in> set (n_labels n)" and "a \<noteq> ''''"
    and "lookup (n_labels n) (pciPrefix v @ deviceID @ ''.count'') = Some (itoa k)" and "0 < k" and "i64 k"
    and "CHR ''.'' \<notin> set deviceID" and "vendor_vram v deviceID \<noteq> 0"
  shows "2 * k \<le> int (length (scanNFDForPCIDevices n v))"
proof -
  let ?p = "(pciPrefix v @ deviceID @ ''.present'', a)"
  let ?c = "(pciPrefix v @ deviceID @ ''.count'', itoa k)"
  have c: "?c \<in> set (n_labels n)" using assms(3) by (rule map_of_SomeD)
  have cnt: "nfd_device_count (n_labels n) v deviceID = k"
    using assms(3-5) by (simp add: nfd_device_count_def atoi_itoa)
  have "itoa k \<noteq> ''''" by (simp add: itoa_def)
  then have ids: "nfd_device_id v ?p = Some deviceID" "nfd_device_id v ?c = Some deviceID"
    using nfd_device_id_of [OF assms(6), of "''present''" a v] nfd_device_id_of [OF assms(6), of "''count''" "itoa k" v]
      assms(2) by simp_all
  have d: "label_devices (n_labels n) v ?p = nat k" "label_devices (n_labels n) v ?c = nat k"
    using assms(7) by (simp_all add: label_devices_def ids cnt)
  have "label_devices (n_labels n) v ?p + label_devices (n_labels n) v ?c \<le>
      sum_list (map (label_devices (n_labels n) v) (n_labels n))"
    by (rule sum_list_two [OF assms(1) c]) simp
  then have "2 * nat k \<le> length (scanNFDForPCIDevices n v)"
    by (simp add: scanNFDForPCIDevices_def length_scan_labels d)
  then show ?thesis using assms(4) by linarith
qed

definition ex_nfd_labels :: "string gomap" where
  "ex_nfd_labels = [(pciPrefix NVIDIAVendorID @ ''2330.present'', ''true''), (pciPrefix NVIDIAVendorID @ ''2330.count'', ''4'')]"

lemma nfd_counts_twice_witness: "8 \<le> int (length (scanNFDForPCIDevices (ex_gpu_node ex_nfd_labels) NVIDIAVendorID))"
proof -
  have i: "itoa 4 = ''4''" by code_simp
  have l: "lookup ex_nfd_labels (pciPrefix NVIDIAVendorID @ ''2330'' @ ''.count'') = Some (itoa 4)"
    by (simp add: ex_nfd_labels_def i)
  have v: "vendor_vram NVIDIAVendorID ''2330'' \<noteq> 0" by code_simp
  show ?thesis
    using nfd_counts_twice [of NVIDIAVendorID "''2330''" "''true''" "ex_gpu_node ex_nfd_labels" 4] l v
    by (simp add: ex_gpu_node_def ex_nfd_labels_def i64_def)
qed

section \<open>The guessed NUMA nodes\<close>

lemma spread_numa_nodes:
  assumes "0 < k" "k \<le> int (length gpus)"
  shows "gd_numa ` set (spread_numa k gpus) = (\<lambda>i. int i div (int (length gpus) div k)) ` {..<length gpus}"
proof -
  define q where "q = int (length gpus) div k"
  have q: "0 < q" using assms by (simp add: q_def pos_imp_zdiv_pos_iff)
  have "set (spread_numa k gpus) = (\<lambda>(i, g). g\<lparr>gd_numa := int i div q\<rparr>) ` set (enumerate 0 gpus)"
    using assms q by (simp add: spread_numa_def Let_def q_def case_prod_beta)
  also have "gd_numa ` \<dots> = (\<lambda>i. int i div q) ` fst ` set (enumerate 0 gpus)"
    by (force simp: image_iff)
  also have "fst ` set (enumerate 0 gpus) = {..<length gpus}"
    by (simp flip: set_map add: lessThan_atLeast0)
  finally show ?thesis by (simp add: q_def)
qed

text \<open>The guess which NUMA node a GPU belongs to stays within the NUMA nodes of the machine exactly
  when they share the GPUs evenly: with at least as many GPUs as NUMA nodes every GPU is given a NUMA node
  below the count if and only if the count divides the number of GPUs; otherwise some GPU is put on a
  NUMA node that does not exist.\<close>

theorem spread_numa_in_range:
  assumes "0 < k" and "k \<le> int (length gpus)"
  shows "(\<forall>g \<in> set (spread_numa k gpus). 0 \<le> gd_numa g \<and> gd_numa g < k) \<longleftrightarrow> k dvd int (length gpus)"
proof -
  define m where "m = int (length gpus)"
  define q where "q = m div k"
  have q: "0 < q" using assms by (simp add: q_def m_def pos_imp_zdiv_pos_iff)
  have "(\<forall>g \<in> set (spread_numa k gpus). 0 \<le> gd_numa g \<and> gd_numa g < k) \<longleftrightarrow>
      (\<forall>j \<in> gd_numa ` set (spread_numa k gpus). 0 \<le> j \<and> j < k)" by blast
  also have "\<dots> \<longleftrightarrow> (\<forall>i < length gpus. int i div q < k)"
    using q by (auto simp: spread_numa_nodes [OF assms] q_def m_def pos_imp_zdiv_nonneg_iff)
  also have "\<dots> \<longleftrightarrow> (m - 1) div q < k"
  proof
    assume a: "\<forall>i < length gpus. int i div q < k"
    have "nat (m - 1) < length gpus" using assms by (simp add: m_def)
    with a have "int (nat (m - 1)) div q < k" by blast
    moreover have "int (nat (m - 1)) = m - 1" using assms by (auto simp: m_def)
    ultimately show "(m - 1) div q < k" by (simp only:)
  next
    assume a: "(m - 1) div q < k"
    have "int i div q \<le> (m - 1) div q" if "i < length gpus" for i
      using that q by (intro zdiv_mono1) (simp_all add: m_def)
    with a show "\<forall>i < length gpus. int i div q < k" by fastforce
  qed
  also have "\<dots> \<longleftrightarrow> m - 1 < k * q"
  proof -
    have "(m - 1 + (- k) * q) div q = - k + (m - 1) div q" using q by (intro div_mult_self1) simp
    then show ?thesis using pos_imp_zdiv_neg_iff [OF q, of "m - 1 + (- k) * q"] by simp
  qed
  also have "\<dots> \<longleftrightarrow> k dvd m"
  proof
    assume "m - 1 < k * q"
    moreover have "k * q \<le> m"
      unfolding q_def using mult_div_mod_eq [of k m] pos_mod_sign [OF assms(1), of m] by linarith
    ultimately have "m = k * q" by linarith
    then show "k dvd m" by simp
  qed (auto simp: q_def)
  finally show ?thesis by (simp add: m_def)
qed

lemma spread_numa_in_range_witness:
  "\<not> (\<forall>g \<in> set (spread_numa 2 (map (label_gpu 80) [0, 1, 2])). 0 \<le> gd_numa g \<and> gd_numa g < 2)"
  using spread_numa_in_range [of 2 "map (label_gpu 80) [0, 1, 2]"] by simp

end
