(* ===== verification/VramClaims.thy ===== *)
theory VramClaims
  imports VramDevices
begin

text \<open>
  \<^verbatim>\<open>pkg/plugins/vramscheduler\<close>, the pod side: the memory a pod asks for, from the CEL
  expressions of its DRA claims (\<^verbatim>\<open>dra.go\<close>) or from its annotation, and the number of GPUs.

  A device request has a class and selectors; a selector is the text of its CEL expression, or
  \<^verbatim>\<open>None\<close> when it has none.  The listers of claims and templates are \<^verbatim>\<open>None\<close> when one of them
  is nil.
\<close>

section \<open>Types\<close>

record sub_request =
  sr_class :: string
  sr_selectors :: "string option list"

record device_request =
  dr_exactly :: "sub_request option"
  dr_first :: "sub_request list"

type_synonym device_claim = "device_request list"

text \<open>The results of an allocation: the driver and the device.\<close>

record resource_claim =
  rc_allocation :: "(string \<times> string) list option"

record claim_listers =
  cll_claim :: "string \<Rightarrow> string \<Rightarrow> string + resource_claim"
  cll_template :: "string \<Rightarrow> string \<Rightarrow> string + device_claim"

definition AnnotationVRAMRequest :: string where
  "AnnotationVRAMRequest = ''scheduling.kubenexus.io/vram-request''"

text \<open>The first positive value of a function along a list, or 0.\<close>

fun first_positive :: "('a \<Rightarrow> int) \<Rightarrow> 'a list \<Rightarrow> int" where
  "first_positive f [] = 0"
| "first_positive f (x # xs) = (if f x > 0 then f x else first_positive f xs)"

section \<open>CEL expressions\<close>

text \<open>The double and the single quotation mark.\<close>

definition dq :: char where "dq = CHR 0x22"
definition sq :: char where "sq = CHR 0x27"

definition memoryPatterns :: "string list" where
  "memoryPatterns =
     [''capacity['' @ [dq] @ ''memory'' @ [dq] @ '']'',
      ''capacity['' @ [sq] @ ''memory'' @ [sq] @ '']'',
      ''capacity['' @ [dq] @ ''vram'' @ [dq] @ '']'',
      ''capacity['' @ [sq] @ ''vram'' @ [sq] @ '']'',
      ''capacity['' @ [dq] @ ''gpu.memory'' @ [dq] @ '']'',
      ''attributes['' @ [dq] @ ''memory'' @ [dq] @ '']'',
      ''attributes['' @ [sq] @ ''memory'' @ [sq] @ '']'']"

definition cel_operators :: "string list" where
  "cel_operators = [''>='', ''=='', ''>'', ''<='', ''='']"

text \<open>The argument of a call of \<^verbatim>\<open>quantity\<close>, when there is one.\<close>

definition strip_call :: "string \<Rightarrow> string" where
  "strip_call s =
     (if contains s ''quantity(''
      then (case index_of (''quantity('' @ [dq]) s of
              None \<Rightarrow> s
            | Some i \<Rightarrow>
               (let rest = drop (i + length (''quantity('' @ [dq])) s
                in case index_of [dq] rest of
                     None \<Rightarrow> s
                   | Some e \<Rightarrow> if e > 0 then take e rest else s))
      else s)"

text \<open>The text handed to the quantity parser: unquoted, without trailing blanks and parentheses.\<close>

definition unquote :: "string \<Rightarrow> string" where
  "unquote s = (if s \<noteq> [] \<and> (hd s = dq \<or> hd s = sq) then trim_set [hd s] s else s)"

definition quantity_text :: "string \<Rightarrow> string" where
  "quantity_text s =
     trim_right ('' '' @ '')'') (unquote (trim_set [CHR '' '', CHR 0x09, CHR 0x0A] (strip_call (trim_space s))))"

definition extractQuantityFromString :: "quantity_parser \<Rightarrow> string \<Rightarrow> int" where
  "extractQuantityFromString parseQ s = (case parseQ (quantity_text s) of Inl _ \<Rightarrow> 0 | Inr v \<Rightarrow> v)"

text \<open>What one operator gives: the right side of the comparison when the pattern is on the left.\<close>

definition cel_operator_vram :: "quantity_parser \<Rightarrow> string \<Rightarrow> string \<Rightarrow> string \<Rightarrow> int" where
  "cel_operator_vram parseQ expr pat oper =
     (let parts = split_str oper expr
      in if length parts < 2 then 0
         else if \<not> contains (parts ! 0) pat then 0
         else extractQuantityFromString parseQ (trim_space (parts ! 1)))"

definition parseVRAMFromCEL :: "quantity_parser \<Rightarrow> string \<Rightarrow> int" where
  "parseVRAMFromCEL parseQ expr =
     first_positive
       (\<lambda>pat. if \<not> contains expr pat then 0 else first_positive (cel_operator_vram parseQ expr pat) cel_operators)
       memoryPatterns"

section \<open>Claims\<close>

text \<open>The CEL expressions of a request in the order they are read; the empty one is skipped.\<close>

definition selector_exprs :: "sub_request \<Rightarrow> string list" where
  "selector_exprs r =
     List.map_filter (\<lambda>s. case s of None \<Rightarrow> None | Some e \<Rightarrow> if e = '''' then None else Some e) (sr_selectors r)"

definition request_exprs :: "device_request \<Rightarrow> string list" where
  "request_exprs r =
     (case dr_exactly r of None \<Rightarrow> [] | Some e \<Rightarrow> selector_exprs e) @ concat (map selector_exprs (dr_first r))"

definition extractVRAMFromDeviceClaim :: "quantity_parser \<Rightarrow> device_claim option \<Rightarrow> int" where
  "extractVRAMFromDeviceClaim parseQ deviceClaim =
     (case deviceClaim of
        None \<Rightarrow> 0
      | Some requests \<Rightarrow> first_positive (parseVRAMFromCEL parseQ) (concat (map request_exprs requests)))"

text \<open>An allocation never yields an amount: the loop over its devices only logs.\<close>

definition extractVRAMFromClaimAllocation :: "resource_claim \<Rightarrow> int" where
  "extractVRAMFromClaimAllocation c = (case rc_allocation c of None \<Rightarrow> 0 | Some results \<Rightarrow> 0)"

definition gpu_name :: "string \<Rightarrow> bool" where
  "gpu_name s \<longleftrightarrow> (let l = to_lower s in contains l ''gpu'' \<or> contains l ''accelerator'' \<or> contains l ''nvidia'')"

definition isGPUClaim :: "string \<Rightarrow> device_claim option \<Rightarrow> bool" where
  "isGPUClaim claimName deviceClaim \<longleftrightarrow>
     (if gpu_name claimName then True
      else (case deviceClaim of
              None \<Rightarrow> False
            | Some requests \<Rightarrow>
                list_ex (\<lambda>r. (case dr_exactly r of None \<Rightarrow> False | Some e \<Rightarrow> gpu_name (sr_class e)) \<or>
                             list_ex (\<lambda>s. gpu_name (sr_class s)) (dr_first r)) requests))"

text \<open>
  The body of the loop for a claim whose template was read (or that names none): \<^verbatim>\<open>Some\<close> is a
  return, \<^verbatim>\<open>None\<close> goes on with the next claim.
\<close>

definition claim_vram :: "quantity_parser \<Rightarrow> pod \<Rightarrow> string \<Rightarrow> device_claim option \<Rightarrow> int option" where
  "claim_vram parseQ p claimName templateSpec =
     (let vram = extractVRAMFromDeviceClaim parseQ templateSpec
      in if vram > 0 then Some vram
         else if isGPUClaim claimName templateSpec
         then (case lookup (p_annots p) AnnotationVRAMRequest of
                 None \<Rightarrow> None
               | Some s \<Rightarrow> (case parseQ s of Inl _ \<Rightarrow> None | Inr v \<Rightarrow> Some v))
         else None)"

fun claims_vram :: "quantity_parser \<Rightarrow> claim_listers \<Rightarrow> pod \<Rightarrow> claim_ref list \<Rightarrow> int option" where
  "claims_vram parseQ ls p [] = None"
| "claims_vram parseQ ls p (c # cs) =
     (let allocated = (case cll_claim ls (p_ns p) (cr_name c) of
                         Inl _ \<Rightarrow> 0 | Inr claim \<Rightarrow> extractVRAMFromClaimAllocation claim)
      in if allocated > 0 then Some allocated
         else (case cr_template c of
                 None \<Rightarrow>
                   (case claim_vram parseQ p (cr_name c) None of
                      Some v \<Rightarrow> Some v | None \<Rightarrow> claims_vram parseQ ls p cs)
               | Some t \<Rightarrow>
                  (case cll_template ls (p_ns p) t of
                     Inl _ \<Rightarrow> claims_vram parseQ ls p cs
                   | Inr spec \<Rightarrow>
                      (case claim_vram parseQ p (cr_name c) (Some spec) of
                         Some v \<Rightarrow> Some v | None \<Rightarrow> claims_vram parseQ ls p cs))))"

text \<open>The error of this function is not told apart by its caller.\<close>

definition getVRAMFromResourceClaim :: "quantity_parser \<Rightarrow> claim_listers option \<Rightarrow> pod \<Rightarrow> int option" where
  "getVRAMFromResourceClaim parseQ listers p =
     (if p_claims p = [] then None
      else (case listers of None \<Rightarrow> None | Some ls \<Rightarrow> claims_vram parseQ ls p (p_claims p)))"

section \<open>The request of a pod\<close>

definition vram_annotation :: "quantity_parser \<Rightarrow> pod \<Rightarrow> int" where
  "vram_annotation parseQ p =
     (case lookup (p_annots p) AnnotationVRAMRequest of
        None \<Rightarrow> 0
      | Some s \<Rightarrow> (case parseQ s of Inl _ \<Rightarrow> 0 | Inr v \<Rightarrow> v))"

definition getVRAMRequest :: "quantity_parser \<Rightarrow> claim_listers option \<Rightarrow> pod \<Rightarrow> int" where
  "getVRAMRequest parseQ listers p =
     (if p_claims p \<noteq> []
      then (case getVRAMFromResourceClaim parseQ listers p of
              Some vram \<Rightarrow> if vram > 0 then vram else vram_annotation parseQ p
            | None \<Rightarrow> vram_annotation parseQ p)
      else vram_annotation parseQ p)"

definition getGPURequest :: "pod \<Rightarrow> int" where
  "getGPURequest p = sum64 (map (\<lambda>c. gpu_value (c_requests c)) (p_containers p))"

section \<open>Reading a comparison back\<close>

lemma sublist_length_filter: "sublist sub s \<Longrightarrow> length (filter P sub) \<le> length (filter P s)"
  by (auto simp: sublist_def)

lemma index_of_sublist: "index_of sub s = Some i \<Longrightarrow> sublist sub s"
proof (induction s arbitrary: i)
  case (Cons x xs)
  then show ?case by (auto split: if_splits simp: sublist_Cons_right)
qed (auto split: if_splits)

lemma index_of_None: "length (filter P s) < length (filter P sub) \<Longrightarrow> index_of sub s = None"
  using index_of_sublist sublist_length_filter [of sub s P] by (cases "index_of sub s") force+

lemma index_of_first: "hd sub \<notin> set l \<Longrightarrow> sub \<noteq> [] \<Longrightarrow> index_of sub (l @ sub @ r) = Some (length l)"
proof (induction l)
  case Nil
  obtain a list where s: "sub @ r = a # list" using Nil by (cases "sub @ r") auto
  have "prefix sub (sub @ r)" by simp
  then show ?case by (simp add: s)
next
  case (Cons x xs)
  then have "\<not> prefix sub (x # xs @ sub @ r)" by (cases sub) auto
  with Cons show ?case by simp
qed

lemma split_str_once:
  assumes "hd sep \<notin> set l" "hd sep \<notin> set r" "sep \<noteq> []"
  shows "split_str sep (l @ sep @ r) = [l, r]"
proof -
  have "index_of sep r = None"
  proof (rule index_of_None [of "\<lambda>c. c = hd sep"])
    have "filter (\<lambda>c. c = hd sep) r = []" using assms(2) by (auto simp: filter_empty_conv)
    then show "length (filter (\<lambda>c. c = hd sep) r) < length (filter (\<lambda>c. c = hd sep) sep)"
      using assms(3) by (cases sep) simp_all
  qed
  then have "split_str sep r = [r]" using assms(3) by (simp add: split_str.simps [of sep r])
  then show ?thesis
    using index_of_first [OF assms(1,3), of r] assms(3) by (simp add: split_str.simps [of sep "l @ sep @ r"])
qed

lemma split_str_none: "length (filter P s) < length (filter P sep) \<Longrightarrow> split_str sep s = [s]"
  using index_of_None [of P s sep] by (cases "sep = []") (simp_all add: split_str.simps [of sep s])

lemma first_positive_only:
  assumes "\<forall>x \<in> set xs. f x = 0 \<or> f x = v" "\<exists>x \<in> set xs. f x = v" "0 < v"
  shows "first_positive f xs = v"
  using assms by (induction xs) auto

text \<open>A quantity as it is written: no blanks, quotes, parentheses or comparison signs.\<close>

definition plain_quantity :: "string \<Rightarrow> bool" where
  "plain_quantity q \<longleftrightarrow> q \<noteq> [] \<and>
     (\<forall>c \<in> set q. c \<notin> {dq, sq, CHR ''('', CHR '')'', CHR ''<'', CHR ''>'', CHR ''=''} \<and> \<not> is_space c)"

lemma plain_ends:
  assumes "plain_quantity q"
  shows "hd q \<notin> {dq, CHR '' '', CHR '')''}" "last q \<notin> {dq, CHR '' '', CHR '')''}" "q \<noteq> []"
proof -
  have p: "c \<in> set q \<Longrightarrow> c \<noteq> dq \<and> c \<noteq> CHR '')'' \<and> \<not> is_space c" for c
    using assms unfolding plain_quantity_def by blast
  have sp: "is_space CHR '' ''" by (simp add: is_space_def)
  show q: "q \<noteq> []" using assms by (simp add: plain_quantity_def)
  show "hd q \<notin> {dq, CHR '' '', CHR '')''}"
    using p [of "hd q"] hd_in_set [OF q] sp by (metis insertE singletonD)
  show "last q \<notin> {dq, CHR '' '', CHR '')''}"
    using p [of "last q"] last_in_set [OF q] sp by (metis insertE singletonD)
qed

lemma trim_space_blank: "\<not> is_space a \<Longrightarrow> \<not> is_space b \<Longrightarrow> trim_space (CHR '' '' # a # s @ [b]) = a # s @ [b]"
  "\<not> is_space a \<Longrightarrow> \<not> is_space b \<Longrightarrow> trim_space (a # s @ [b]) = a # s @ [b]"
  by (simp_all add: trim_space_def is_space_def)

lemma quantity_text_quoted:
  assumes "plain_quantity q"
  shows "quantity_text (dq # q @ [dq]) = q"
proof -
  note e = plain_ends [OF assms]
  have d: "\<not> is_space dq" by (simp add: is_space_def dq_def)
  have "\<not> contains (dq # q @ [dq]) ''quantity(''"
  proof
    assume "contains (dq # q @ [dq]) ''quantity(''"
    then have "length (filter (\<lambda>c. c = CHR ''('') ''quantity('') \<le> length (filter (\<lambda>c. c = CHR ''('') (dq # q @ [dq]))"
      unfolding contains_def by (rule sublist_length_filter)
    moreover have "filter (\<lambda>c. c = CHR ''('') (dq # q @ [dq]) = []"
      using assms by (auto simp: plain_quantity_def dq_def filter_empty_conv)
    ultimately show False by simp
  qed
  then have s: "strip_call (trim_space (dq # q @ [dq])) = dq # q @ [dq]"
    by (simp add: trim_space_blank(2) d strip_call_def)
  have t: "trim_set [CHR '' '', CHR 0x09, CHR 0x0A] (dq # q @ [dq]) = dq # q @ [dq]"
    by (simp add: trim_set_def trim_right_def dq_def)
  have dw: "dropWhile P xs = xs" if "\<not> P (hd xs)" "xs \<noteq> []" for P and xs :: string
    using that by (cases xs) auto
  have h: "hd (rev q) = last q" using e(3) by (simp add: hd_rev)
  have "trim_set [dq] (dq # q @ [dq]) = q"
    using e h by (simp add: trim_set_def trim_right_def dropWhile_append3 dw)
  then have u: "unquote (dq # q @ [dq]) = q" by (simp add: unquote_def)
  have "trim_right ('' '' @ '')'') q = q" using e h by (simp add: trim_right_def dw)
  then show ?thesis by (simp add: quantity_text_def s t u)
qed

text \<open>The comparison of a memory pattern with a quoted quantity, as a claim states it.\<close>

definition cel_comparison :: "string \<Rightarrow> string \<Rightarrow> string \<Rightarrow> string" where
  "cel_comparison pat oper q = (''device.'' @ pat @ '' '') @ oper @ ('' '' @ [dq] @ q @ [dq])"

lemma pattern_chars: "pat \<in> set memoryPatterns \<Longrightarrow> c \<in> {CHR ''<'', CHR ''>'', CHR ''=''} \<Longrightarrow> c \<notin> set (''device.'' @ pat @ '' '')"
  by (auto simp: memoryPatterns_def dq_def sq_def)

lemma quoted_chars: "plain_quantity q \<Longrightarrow> c \<in> {CHR ''<'', CHR ''>'', CHR ''=''} \<Longrightarrow> c \<notin> set ('' '' @ [dq] @ q @ [dq])"
  by (auto simp: plain_quantity_def dq_def)

lemma comparison_count:
  assumes "pat \<in> set memoryPatterns" "plain_quantity q" "c \<in> {CHR ''<'', CHR ''>'', CHR ''=''}"
  shows "filter (\<lambda>x. x = c) (cel_comparison pat oper q) = filter (\<lambda>x. x = c) oper"
proof -
  have "filter (\<lambda>x. x = c) (''device.'' @ pat @ '' '') = []" "filter (\<lambda>x. x = c) ('' '' @ [dq] @ q @ [dq]) = []"
    using pattern_chars [OF assms(1,3)] quoted_chars [OF assms(2,3)] by (simp_all only: filter_empty_conv) metis+
  then show ?thesis by (simp only: cel_comparison_def filter_append) simp
qed

lemma split_str_first:
  "hd sep \<notin> set l \<Longrightarrow> sep \<noteq> [] \<Longrightarrow> split_str sep (l @ sep @ r) = l # split_str sep r"
  using index_of_first [of sep l r] by (simp add: split_str.simps [of sep "l @ sep @ r"])

lemma split_str_nonempty: "sep \<noteq> [] \<Longrightarrow> split_str sep s \<noteq> []"
  by (simp add: split_str.simps [of sep s] split: option.split)

lemma cel_none: "split_str oper expr = [expr] \<Longrightarrow> cel_operator_vram parseQ expr pat oper = 0"
  by (simp add: cel_operator_vram_def)

lemma cel_two:
  "split_str oper expr = [l, r] \<Longrightarrow> cel_operator_vram parseQ expr pat oper =
     (if contains l pat then extractQuantityFromString parseQ (trim_space r) else 0)"
  by (simp add: cel_operator_vram_def)

lemma cel_gate:
  "split_str oper expr = l # ps \<Longrightarrow> \<not> contains l pat \<Longrightarrow> cel_operator_vram parseQ expr pat oper = 0"
  by (simp add: cel_operator_vram_def Let_def)

text \<open>The value of one pattern on a comparison: the quantity, or nothing.\<close>

lemma cel_pattern_value:
  assumes "pat \<in> set memoryPatterns" "oper \<in> set cel_operators" "plain_quantity q" "parseQ q = Inr v" "0 < v"
  defines "expr \<equiv> cel_comparison pat oper q"
  shows "first_positive (cel_operator_vram parseQ expr pat') cel_operators \<in> {0, v}"
    "contains (''device.'' @ pat @ '' '') pat' \<Longrightarrow> first_positive (cel_operator_vram parseQ expr pat') cel_operators = v"
proof -
  define l where "l = ''device.'' @ pat @ '' ''"
  define r where "r = '' '' @ [dq] @ q @ [dq]"
  have e: "expr = l @ oper @ r" by (simp add: expr_def cel_comparison_def l_def r_def)
  have l: "c \<notin> set l" and r: "c \<notin> set r" if "c \<in> {CHR ''<'', CHR ''>'', CHR ''=''}" for c
    unfolding l_def r_def using pattern_chars [OF assms(1) that] quoted_chars [OF assms(3) that] .
  note cnt = comparison_count [OF assms(1,3), of _ oper, folded expr_def]
  have "\<not> is_space dq" by (simp add: is_space_def dq_def)
  then have "trim_space r = dq # q @ [dq]" by (simp add: r_def trim_space_blank(1))
  then have x: "extractQuantityFromString parseQ (trim_space r) = v"
    using quantity_text_quoted [OF assms(3)] assms(4) by (simp add: extractQuantityFromString_def)
  have none: "split_str op' expr = [expr]"
    if "c \<in> {CHR ''<'', CHR ''>'', CHR ''=''}" "length (filter (\<lambda>x. x = c) oper) < length (filter (\<lambda>x. x = c) op')" for c op'
    by (rule split_str_none [of "\<lambda>x. x = c"]) (simp only: cnt [OF that(1)] that(2))
  have "first_positive (cel_operator_vram parseQ expr pat') cel_operators \<in> {0, v} \<and>
      (contains l pat' \<longrightarrow> first_positive (cel_operator_vram parseQ expr pat') cel_operators = v)"
  proof -
    from assms(2) consider "oper = ''>=''" | "oper = ''==''" | "oper = ''>''" | "oper = ''<=''" | "oper = ''=''"
      by (auto simp: cel_operators_def)
    then show ?thesis
    proof cases
      case 1
      have "split_str ''>='' expr = [l, r]" using split_str_once [of "''>=''" l r] l r e 1 by simp
      moreover have "split_str ''=='' expr = [expr]" "split_str ''<='' expr = [expr]"
        using none [of "CHR ''=''" "''==''"] none [of "CHR ''<''" "''<=''"] 1 by simp_all
      moreover have "split_str ''>'' expr = l # split_str ''>'' (''='' @ r)"
        using split_str_first [of "''>''" l "''='' @ r"] l e 1 by simp
      moreover have "split_str ''='' expr = [l @ ''>'', r]" using split_str_once [of "''=''" "l @ ''>''" r] l r e 1 by simp
      ultimately show ?thesis using assms(5)
        by (cases "contains l pat'") (simp_all add: cel_operators_def cel_none cel_two cel_gate x)
    next
      case 2
      have "split_str ''=='' expr = [l, r]" using split_str_once [of "''==''" l r] l r e 2 by simp
      moreover have "split_str ''>='' expr = [expr]" "split_str ''>'' expr = [expr]" "split_str ''<='' expr = [expr]"
        using none [of "CHR ''>''" "''>=''"] none [of "CHR ''>''" "''>''"] none [of "CHR ''<''" "''<=''"] 2 by simp_all
      moreover have "split_str ''='' expr = l # split_str ''='' (''='' @ r)"
        using split_str_first [of "''=''" l "''='' @ r"] l e 2 by simp
      ultimately show ?thesis using assms(5)
        by (cases "contains l pat'") (simp_all add: cel_operators_def cel_none cel_two cel_gate x)
    next
      case 3
      have "split_str ''>'' expr = [l, r]" using split_str_once [of "''>''" l r] l r e 3 by simp
      moreover have "split_str ''>='' expr = [expr]" "split_str ''=='' expr = [expr]" "split_str ''<='' expr = [expr]"
          "split_str ''='' expr = [expr]"
        using none [of "CHR ''=''" "''>=''"] none [of "CHR ''=''" "''==''"] none [of "CHR ''<''" "''<=''"]
          none [of "CHR ''=''" "''=''"] 3 by simp_all
      ultimately show ?thesis using assms(5)
        by (cases "contains l pat'") (simp_all add: cel_operators_def cel_none cel_two x)
    next
      case 4
      have "split_str ''<='' expr = [l, r]" using split_str_once [of "''<=''" l r] l r e 4 by simp
      moreover have "split_str ''>='' expr = [expr]" "split_str ''=='' expr = [expr]" "split_str ''>'' expr = [expr]"
        using none [of "CHR ''>''" "''>=''"] none [of "CHR ''=''" "''==''"] none [of "CHR ''>''" "''>''"] 4 by simp_all
      moreover have "split_str ''='' expr = [l @ ''<'', r]" using split_str_once [of "''=''" "l @ ''<''" r] l r e 4 by simp
      ultimately show ?thesis using assms(5)
        by (cases "contains l pat'") (simp_all add: cel_operators_def cel_none cel_two cel_gate x)
    next
      case 5
      have "split_str ''='' expr = [l, r]" using split_str_once [of "''=''" l r] l r e 5 by simp
      moreover have "split_str ''>='' expr = [expr]" "split_str ''=='' expr = [expr]" "split_str ''>'' expr = [expr]"
          "split_str ''<='' expr = [expr]"
        using none [of "CHR ''>''" "''>=''"] none [of "CHR ''=''" "''==''"] none [of "CHR ''>''" "''>''"]
          none [of "CHR ''<''" "''<=''"] 5 by simp_all
      ultimately show ?thesis using assms(5)
        by (cases "contains l pat'") (simp_all add: cel_operators_def cel_none cel_two x)
    qed
  qed
  then show "first_positive (cel_operator_vram parseQ expr pat') cel_operators \<in> {0, v}"
    "contains (''device.'' @ pat @ '' '') pat' \<Longrightarrow> first_positive (cel_operator_vram parseQ expr pat') cel_operators = v"
    by (simp_all add: l_def)
qed

text \<open>A comparison a claim states is read back: for each of the seven ways to name the memory of a
  device, each of the five operators and every quantity that parses to a positive amount,
  \<^verbatim>\<open>device.capacity["memory"] >= "80Gi"\<close> and its like are a request for exactly that amount. The
  operator makes no difference: an upper bound (\<^verbatim>\<open><=\<close>) is read as a request for as much.\<close>

theorem parseVRAMFromCEL_comparison:
  assumes "pat \<in> set memoryPatterns" and "oper \<in> set cel_operators" and "plain_quantity q"
    and "parseQ q = Inr v" and "0 < v"
  shows "parseVRAMFromCEL parseQ (cel_comparison pat oper q) = v"
  unfolding parseVRAMFromCEL_def
proof (rule first_positive_only)
  let ?e = "cel_comparison pat oper q"
  let ?f = "\<lambda>pat'. if \<not> contains ?e pat' then 0 else first_positive (cel_operator_vram parseQ ?e pat') cel_operators"
  show "\<forall>pat' \<in> set memoryPatterns. ?f pat' = 0 \<or> ?f pat' = v"
    using cel_pattern_value(1) [of pat oper q parseQ v, OF assms] by auto
  have "sublist pat (''device.'' @ pat @ '' '')" by (rule sublist_appendI)
  then have "contains (''device.'' @ pat @ '' '') pat" by (simp only: contains_def)
  moreover have "sublist pat (''device.'' @ pat @ ('' '' @ oper @ '' '' @ [dq] @ q @ [dq]))" by (rule sublist_appendI)
  then have "contains ?e pat" by (simp add: contains_def cel_comparison_def)
  ultimately have "?f pat = v" using cel_pattern_value(2) [of pat oper q parseQ v, OF assms] by simp
  then show "\<exists>pat' \<in> set memoryPatterns. ?f pat' = v" using assms(1) by blast
qed (rule assms(5))

text \<open>A quantity parser for the examples: decimal numbers with the suffix \<^verbatim>\<open>Gi\<close>.\<close>

definition ex_parseQ :: quantity_parser where
  "ex_parseQ s =
     (if has_suffix s ''Gi''
      then (case atoi (take (length s - 2) s) of Inr k \<Rightarrow> Inr (k * GiB) | Inl _ \<Rightarrow> Inl ''invalid'')
      else Inl ''invalid'')"

lemma parseVRAMFromCEL_comparison_witness:
  "parseVRAMFromCEL ex_parseQ (cel_comparison (memoryPatterns ! 0) ''<='' ''80Gi'') = 80 * GiB"
proof -
  have "ex_parseQ ''80Gi'' = Inr (80 * GiB)" by code_simp
  moreover have "plain_quantity ''80Gi''" by code_simp
  ultimately show ?thesis
    by (intro parseVRAMFromCEL_comparison) (simp_all add: memoryPatterns_def cel_operators_def GiB_def)
qed

section \<open>Conjunctions\<close>

text \<open>All the texts an expression offers to the quantity parser.\<close>

definition cel_texts :: "string \<Rightarrow> string list" where
  "cel_texts expr =
     concat (map (\<lambda>pat. concat (map (\<lambda>oper.
       let parts = split_str oper expr
       in if length parts < 2 \<or> \<not> contains (parts ! 0) pat then [] else [quantity_text (trim_space (parts ! 1))])
       cel_operators)) (filter (contains expr) memoryPatterns))"

lemma first_positive_0: "\<forall>x \<in> set xs. f x = 0 \<Longrightarrow> first_positive f xs = 0"
  by (induction xs) auto

lemma parseVRAMFromCEL_0:
  assumes "\<forall>t \<in> set (cel_texts expr). \<exists>e. parseQ t = Inl e"
  shows "parseVRAMFromCEL parseQ expr = 0"
  unfolding parseVRAMFromCEL_def
proof (rule first_positive_0, intro ballI)
  fix pat assume p: "pat \<in> set memoryPatterns"
  have "cel_operator_vram parseQ expr pat oper = 0" if "contains expr pat" "oper \<in> set cel_operators" for oper
  proof (cases "length (split_str oper expr) < 2 \<or> \<not> contains (split_str oper expr ! 0) pat")
    case True
    then show ?thesis by (auto simp: cel_operator_vram_def Let_def)
  next
    case False
    then have "quantity_text (trim_space (split_str oper expr ! 1)) \<in> set (cel_texts expr)"
      using p that by (auto simp: cel_texts_def Let_def intro!: bexI [of _ pat] bexI [of _ oper])
    then show ?thesis using assms by (auto simp: cel_operator_vram_def extractQuantityFromString_def Let_def)
  qed
  then show "(if \<not> contains expr pat then 0 else first_positive (cel_operator_vram parseQ expr pat) cel_operators) = 0"
    by (auto intro: first_positive_0)
qed

definition ex_conjunction :: string where
  "ex_conjunction = cel_comparison (memoryPatterns ! 0) ''>='' ''80Gi'' @
     '' && device.attributes['' @ [dq] @ ''model'' @ [dq] @ ''] == '' @ [dq] @ ''H100'' @ [dq]"

text \<open>A second condition hides the first: the expression
  \<^verbatim>\<open>device.capacity["memory"] >= "80Gi" && device.attributes["model"] == "H100"\<close> yields no
  memory request at all, for every quantity parser that rejects texts with a quotation mark and the text
  \<^verbatim>\<open>H100\<close>; the first condition alone is a request for 80Gi.\<close>

theorem cel_conjunction_lost:
  assumes "\<forall>s. dq \<in> set s \<longrightarrow> (\<exists>e. parseQ s = Inl e)" and "parseQ ''H100'' = Inl err"
  shows "parseVRAMFromCEL parseQ ex_conjunction = 0"
proof (rule parseVRAMFromCEL_0)
  have "list_all (\<lambda>t. dq \<in> set t \<or> t = ''H100'') (cel_texts ex_conjunction)" by code_simp
  then show "\<forall>t \<in> set (cel_texts ex_conjunction). \<exists>e. parseQ t = Inl e"
    using assms by (auto simp: list_all_iff)
qed

lemma cel_conjunction_lost_witness:
  "parseVRAMFromCEL (\<lambda>s. if dq \<in> set s then Inl ''invalid'' else ex_parseQ s) ex_conjunction = 0"
proof (rule cel_conjunction_lost)
  show "(if dq \<in> set ''H100'' then Inl ''invalid'' else ex_parseQ ''H100'') = Inl ''invalid''" by code_simp
qed simp

end
