(* ===== verification/Vram.thy ===== *)
theory Vram
  imports VramClaims Interfaces ScoreArith "HOL-Library.AList"
begin

text \<open>
  \<^verbatim>\<open>pkg/plugins/vramscheduler/vramscheduler.go\<close>: the filter that keeps a pod off nodes whose GPUs
  have too little memory, and the score that prefers GPUs the request fills well, with thresholds that
  depend on the tenant's tier and a bonus for GPUs that lie close together.  Metrics and logs are left
  out.  A call that panics while it builds the GPUs of the node is \<^verbatim>\<open>None\<close>.
\<close>

section \<open>Constants\<close>

definition ScorePerfectFit :: int where "ScorePerfectFit = 100"
definition ScoreGoodFit :: int where "ScoreGoodFit = 80"
definition ScoreAcceptableFit :: int where "ScoreAcceptableFit = 60"
definition ScorePoorFit :: int where "ScorePoorFit = 30"
definition ScoreInsufficientVRAM :: int where "ScoreInsufficientVRAM = 0"

text \<open>The thresholds, rounded to a float64: perfect, good, acceptable and poor fit.\<close>

definition hundredths :: "int \<Rightarrow> float64" where
  "hundredths n = to_f64 (of_int n / 100)"

definition ThresholdGoodFit :: float64 where "ThresholdGoodFit = hundredths 70"
definition ThresholdPoorFit :: float64 where "ThresholdPoorFit = hundredths 30"

type_synonym thresholds = "float64 \<times> float64 \<times> float64 \<times> float64"

definition GoldThresholds :: thresholds where
  "GoldThresholds = (hundredths 98, hundredths 85, hundredths 70, hundredths 50)"
definition SilverThresholds :: thresholds where
  "SilverThresholds = (hundredths 95, hundredths 70, hundredths 50, hundredths 30)"
definition BronzeThresholds :: thresholds where
  "BronzeThresholds = (hundredths 90, hundredths 60, hundredths 40, hundredths 20)"

definition BonusHighEndGPU :: int where "BonusHighEndGPU = 10"
definition PenaltyStrandVRAM :: int where "PenaltyStrandVRAM = 20"
definition BonusGPUNUMALocality :: int where "BonusGPUNUMALocality = 15"
definition BonusNVLinkConnected :: int where "BonusNVLinkConnected = 25"
definition BonusPCIeLocality :: int where "BonusPCIeLocality = 10"

section \<open>Messages\<close>

text \<open>\<^verbatim>\<open>%.1f\<close>: the exact binary value rounded to one decimal, ties to even.\<close>

fun print_f1 :: "float64 \<Rightarrow> string" where
  "print_f1 (Fin x) = (let t = rne (\<bar>x\<bar> * 10)
     in (if x < 0 then ''-'' else '''') @ itoa (t div 10) @ ''.'' @ itoa (t mod 10))"
| "print_f1 (Inf s) = (if s then ''+Inf'' else ''-Inf'')"
| "print_f1 NaN = ''NaN''"

function byte_scale :: "int \<Rightarrow> int \<Rightarrow> nat \<Rightarrow> int \<times> nat" where
  "byte_scale n d e = (if n \<ge> 1024 then byte_scale (n div 1024) (wrap64 (d * 1024)) (e + 1) else (d, e))"
  by pat_completeness auto
termination by (relation "measure (\<lambda>(n, d, e). nat n)") auto

declare byte_scale.simps [simp del]

definition formatBytes :: "int \<Rightarrow> string" where
  "formatBytes b =
     (if b < 1024 then itoa b @ ''B''
      else let (d, e) = byte_scale (b div 1024) 1024 0
           in print_f1 (fdiv (f_int b) (f_int d)) @ [''KMGTPE'' ! e] @ ''iB'')"

section \<open>Utilization and topology\<close>

definition tier_thresholds :: "string \<Rightarrow> thresholds" where
  "tier_thresholds tenantTier =
     (let t = to_lower tenantTier
      in if t = ''gold'' then GoldThresholds
         else if t = ''silver'' then SilverThresholds
         else if t = ''bronze'' then BronzeThresholds
         else SilverThresholds)"

definition calculateUtilizationScore :: "float64 \<Rightarrow> string \<Rightarrow> int" where
  "calculateUtilizationScore utilizationRatio tenantTier =
     (let (perfectFit, goodFit, acceptableFit, poorFit) = tier_thresholds tenantTier
      in if fge utilizationRatio perfectFit then ScorePerfectFit
         else if fge utilizationRatio goodFit then ScoreGoodFit
         else if fge utilizationRatio acceptableFit then ScoreAcceptableFit
         else if fge utilizationRatio poorFit then ScorePoorFit
         else ScoreInsufficientVRAM)"

definition vram_getTenantTierFromProfile :: "'o cycle_state option \<Rightarrow> string" where
  "vram_getTenantTierFromProfile state =
     (case GetProfile state of
        Inr profile \<Rightarrow> to_lower (tier_string (sp_tier profile))
      | Inl _ \<Rightarrow> ''bronze'')"

definition highEndModels :: "string list" where
  "highEndModels = [''H100'', ''H200'', ''A100-80GB'', ''MI300'']"

definition isHighEndGPU :: "node \<Rightarrow> bool" where
  "isHighEndGPU n =
     (case lookup (n_labels n) vram_LabelGPUModel of
        None \<Rightarrow> False
      | Some gpuModel \<Rightarrow> list_ex (contains (to_upper gpuModel)) highEndModels)"

text \<open>Counting the devices of each group, \<^verbatim>\<open>groups[key]++\<close>, and looking for a large one.\<close>

definition tally_step :: "('k \<times> int) list \<Rightarrow> 'k \<Rightarrow> ('k \<times> int) list" where
  "tally_step m k = AList.update k ((case lookup m k of None \<Rightarrow> 0 | Some c \<Rightarrow> c) + 1) m"

definition some_group :: "'k list \<Rightarrow> int \<Rightarrow> bool" where
  "some_group keys k \<longleftrightarrow> list_ex (\<lambda>(key, cnt). cnt \<ge> k) (foldl tally_step [] keys)"

definition checkGPUNUMALocality :: "gpu_device list \<Rightarrow> int \<Rightarrow> bool" where
  "checkGPUNUMALocality gpuDevices gpusRequested \<longleftrightarrow>
     some_group (map gd_numa (filter (\<lambda>g. gd_numa g \<ge> 0) gpuDevices)) gpusRequested"

definition checkNVLinkConnectivity :: "gpu_device list \<Rightarrow> int \<Rightarrow> bool" where
  "checkNVLinkConnectivity gpuDevices gpusRequested \<longleftrightarrow>
     (if gpusRequested \<le> 1 then False
      else if some_group (map gd_domain (filter (\<lambda>g. gd_domain g \<ge> 0) gpuDevices)) gpusRequested then True
      else list_ex (\<lambda>g. int (length (gd_peers g)) \<ge> gpusRequested - 1) gpuDevices)"

definition checkPCIeLocality :: "gpu_device list \<Rightarrow> int \<Rightarrow> bool" where
  "checkPCIeLocality gpuDevices gpusRequested \<longleftrightarrow>
     some_group (map gd_pcie_switch (filter (\<lambda>g. gd_pcie_switch g \<noteq> '''') gpuDevices)) gpusRequested"

definition calculateGPUTopologyBonus :: "gpu_device list \<Rightarrow> int \<Rightarrow> int" where
  "calculateGPUTopologyBonus gpuDevices gpusRequested =
     (if int (length gpuDevices) < gpusRequested then 0
      else if gpusRequested \<le> 1 then 0
      else (if checkGPUNUMALocality gpuDevices gpusRequested then BonusGPUNUMALocality else 0) +
           (if checkNVLinkConnectivity gpuDevices gpusRequested then BonusNVLinkConnected else 0) +
           (if checkPCIeLocality gpuDevices gpusRequested then BonusPCIeLocality else 0))"

section \<open>The filter\<close>

definition vram_Filter :: "quantity_parser \<Rightarrow> slices \<Rightarrow> claim_listers option \<Rightarrow> pod \<Rightarrow> node_info \<Rightarrow> status option" where
  "vram_Filter parseQ slices listers p nodeInfo =
     (case ni_node nodeInfo of
        None \<Rightarrow> Some (mk_status Error ''node not found'')
      | Some n \<Rightarrow>
         (let vramRequest = getVRAMRequest parseQ listers p
          in if vramRequest = 0 then Some success
             else (case getNodeGPUVRAM parseQ slices n of
                     None \<Rightarrow> None
                   | Some (gpuVRAM, _) \<Rightarrow>
                       if gpuVRAM = 0
                       then Some (mk_status UnschedulableAndUnresolvable
                              (''node '' @ n_name n @ '' has no GPU VRAM information''))
                       else let gpusRequested = (if getGPURequest p = 0 then 1 else getGPURequest p);
                                totalAvailableVRAM = wrap64 (gpuVRAM * gpusRequested)
                       in if vramRequest > totalAvailableVRAM
                          then Some (mk_status Unschedulable
                                 (''insufficient VRAM: need '' @ formatBytes vramRequest @ '', available '' @
                                  formatBytes totalAvailableVRAM @ '' ('' @ itoa gpusRequested @ '' GPUs '' @
                                  [CHR 0xC3, CHR 0x97] @ '' '' @ formatBytes gpuVRAM @ '')''))
                          else Some success)))"

section \<open>The score\<close>

text \<open>The adjustments of the single-GPU case, in the order of the code, each with its cap.\<close>

definition adjust_high_end :: "node \<Rightarrow> float64 \<Rightarrow> int \<Rightarrow> int" where
  "adjust_high_end n ratio score =
     (if isHighEndGPU n \<and> fge ratio ThresholdGoodFit
      then (if score + BonusHighEndGPU > 100 then 100 else score + BonusHighEndGPU) else score)"

definition adjust_stranding :: "float64 \<Rightarrow> int \<Rightarrow> int" where
  "adjust_stranding ratio score =
     (if flt ratio ThresholdPoorFit
      then (if score - PenaltyStrandVRAM < 0 then 0 else score - PenaltyStrandVRAM) else score)"

definition adjust_topology :: "gpu_device list \<Rightarrow> int \<Rightarrow> int \<Rightarrow> int" where
  "adjust_topology gpuDevices gpusRequested score =
     (if gpusRequested > 1 \<and> int (length gpuDevices) \<ge> gpusRequested
      then (let s = score + calculateGPUTopologyBonus gpuDevices gpusRequested in if s > 100 then 100 else s)
      else score)"

definition vram_Score ::
  "quantity_parser \<Rightarrow> slices \<Rightarrow> claim_listers option \<Rightarrow> 'o cycle_state option \<Rightarrow> pod \<Rightarrow> node_info \<Rightarrow> (int \<times> status) option" where
  "vram_Score parseQ slices listers state p nodeInfo =
     (case ni_node nodeInfo of
        None \<Rightarrow> Some (0, mk_status Error ''node not found'')
      | Some n \<Rightarrow>
         (let vramRequest = getVRAMRequest parseQ listers p
          in if vramRequest = 0 then Some (ScoreAcceptableFit, success)
             else (case getNodeGPUVRAM parseQ slices n of
                     None \<Rightarrow> None
                   | Some (gpuVRAM, gpuCount) \<Rightarrow>
                      (case getNodeGPUTopology parseQ slices n of
                         None \<Rightarrow> None
                       | Some (_, gpuDevices) \<Rightarrow>
                           if gpuVRAM = 0 then Some (ScoreInsufficientVRAM, success)
                           else let gpusRequested =
                                      (if getGPURequest p = 0 \<and> vramRequest > 0 then 1 else getGPURequest p);
                                    tenantTier = vram_getTenantTierFromProfile state
                           in if vramRequest > gpuVRAM
                              then (let totalAvailableVRAM = wrap64 (gpuVRAM * gpusRequested)
                                    in if vramRequest > totalAvailableVRAM then Some (ScoreInsufficientVRAM, success)
                                       else Some (calculateUtilizationScore
                                                    (fdiv (f_int vramRequest) (f_int totalAvailableVRAM)) tenantTier,
                                                  success))
                              else (let utilizationRatio = fdiv (f_int vramRequest) (f_int gpuVRAM)
                                    in Some (adjust_topology gpuDevices gpusRequested
                                               (adjust_stranding utilizationRatio
                                                  (adjust_high_end n utilizationRatio
                                                     (calculateUtilizationScore utilizationRatio tenantTier))),
                                             success))))))"

section \<open>Messages never index past the units\<close>

lemma byte_scale_bound: "0 \<le> n \<Longrightarrow> n < 1024 ^ Suc k \<Longrightarrow> snd (byte_scale n d e) \<le> e + k"
proof (induction k arbitrary: n d e)
  case 0
  then show ?case by (simp add: byte_scale.simps [of n d e])
next
  case (Suc k)
  show ?case
  proof (cases "1024 \<le> n")
    case True
    have "n div 1024 < 1024 ^ Suc k" using Suc.prems(2) by simp
    then have "snd (byte_scale (n div 1024) (wrap64 (d * 1024)) (e + 1)) \<le> e + 1 + k"
      using Suc.IH [of "n div 1024" "wrap64 (d * 1024)" "e + 1"] Suc.prems(1) by (simp add: pos_imp_zdiv_nonneg_iff)
    then show ?thesis using True by (simp add: byte_scale.simps [of n d e])
  next
    case False
    then show ?thesis by (simp add: byte_scale.simps [of n d e])
  qed
qed

lemma formatBytes_index:
  assumes "i64 b" "1024 \<le> b"
  shows "snd (byte_scale (b div 1024) 1024 0) < length ''KMGTPE''"
proof -
  have "b div 1024 < 1024 ^ Suc 5" using i64D [OF assms(1)] by simp linarith
  then show ?thesis using byte_scale_bound [of "b div 1024" 5 1024 0] assms by (simp add: pos_imp_zdiv_nonneg_iff)
qed

section \<open>The filter\<close>

definition gpus_for :: "pod \<Rightarrow> int" where
  "gpus_for p = (if getGPURequest p = 0 then 1 else getGPURequest p)"

lemma vram_Filter_code:
  assumes "ni_node ni = Some n" "getVRAMRequest parseQ listers p = r" "r \<noteq> 0"
    "getNodeGPUVRAM parseQ slices n = Some (g, c)" "i64 (g * gpus_for p)"
  shows "\<exists>st. vram_Filter parseQ slices listers p ni = Some st \<and>
    st_code st = (if g = 0 then UnschedulableAndUnresolvable
                  else if r \<le> g * gpus_for p then Success else Unschedulable)"
  using assms by (simp add: vram_Filter_def gpus_for_def [symmetric] Let_def wrap64_id not_less)

text \<open>C28: A pod that needs GPU memory is admitted to a node exactly when the GPUs it asks for hold it: when
  the node's GPUs are known, the filter answers success if and only if the request is at most the
  number of GPUs the pod asks for (one when it asks for none) times the least memory of a GPU of the
  node, whichever of the three sources named the GPUs; otherwise it answers Unschedulable.  Each GPU has some
  memory, and the product is taken to fit into 64 bits.\<close>

theorem vram_Filter_capacity:
  assumes "ni_node ni = Some n" and "getVRAMRequest parseQ listers p \<noteq> 0"
    and "getNodeGPUTopology parseQ slices n = Some (v, ds)" and "ds \<noteq> []" and "\<forall>g \<in> set ds. 0 < gd_vram g"
    and "i64 (Min (gd_vram ` set ds) * gpus_for p)"
  shows "\<exists>st. vram_Filter parseQ slices listers p ni = Some st \<and>
    st_code st = (if getVRAMRequest parseQ listers p \<le> gpus_for p * Min (gd_vram ` set ds) then Success else Unschedulable)"
proof -
  have "Min (gd_vram ` set ds) \<in> gd_vram ` set ds" using assms(4) by (intro Min_in) auto
  then have "Min (gd_vram ` set ds) \<noteq> 0" using assms(5) by fastforce
  then show ?thesis
    using vram_Filter_code [OF assms(1) refl assms(2) node_vram_min [OF assms(3,4)] assms(6)]
    by (simp add: mult.commute)
qed

definition ex_vram_pod :: "string \<Rightarrow> int \<Rightarrow> pod" where
  "ex_vram_pod request gpus = empty_pod\<lparr>p_annots := [(AnnotationVRAMRequest, request)],
     p_containers := [\<lparr>c_image = '''', c_requests =
       [(gpu_resource, \<lparr>q_milli = 1000 * gpus, q_value = gpus, q_is_zero = False\<rparr>)], c_limits = []\<rparr>]\<rparr>"

definition ex_vram_info :: "string gomap \<Rightarrow> node_info" where
  "ex_vram_info ls = \<lparr>ni_node = Some (ex_gpu_node ls), ni_req_cpu = 0, ni_req_memory = 0, ni_req_scalar = []\<rparr>"

lemma ex_vram_info_node: "ni_node (ex_vram_info ls) = Some (ex_gpu_node ls)"
  by (simp add: ex_vram_info_def)

text \<open>Plain numbers of bytes, for the examples.\<close>

definition ex_bytes :: quantity_parser where
  "ex_bytes s = (case atoi s of Inr k \<Rightarrow> Inr k | Inl _ \<Rightarrow> Inl ''invalid'')"

lemma vram_Filter_capacity_witness:
  "(\<exists>st. vram_Filter ex_bytes ex_slices None (ex_vram_pod ''80'' 2) (ex_vram_info []) = Some st \<and> st_code st = Success) \<and>
   (\<exists>st. vram_Filter ex_bytes ex_slices None (ex_vram_pod ''81'' 2) (ex_vram_info []) = Some st \<and> st_code st = Unschedulable)"
proof -
  have r: "getVRAMRequest ex_bytes None (ex_vram_pod ''80'' 2) = 80" "gpus_for (ex_vram_pod ''80'' 2) = 2"
    "getVRAMRequest ex_bytes None (ex_vram_pod ''81'' 2) = 81" "gpus_for (ex_vram_pod ''81'' 2) = 2" by code_simp+
  show ?thesis
    using vram_Filter_capacity [OF ex_vram_info_node _ ex_dra_topology, of ex_bytes None "ex_vram_pod ''80'' 2" "[]"]
      vram_Filter_capacity [OF ex_vram_info_node _ ex_dra_topology, of ex_bytes None "ex_vram_pod ''81'' 2" "[]"]
    by (simp add: r ex_dra_gpu_def i64_def)
qed

text \<open>Filter and score agree: a node the filter rejects for its GPU memory, be it unknown or too small,
  gets the score 0, so that the score alone, on a scheduler that runs without the filter, never prefers
  a node that cannot hold the pod.\<close>

theorem vram_rejected_scores_0:
  assumes "vram_Filter parseQ slices listers p ni = Some st" and "st_code st \<noteq> Success"
    and "ni_node ni = Some n" and "getNodeGPUVRAM parseQ slices n = Some (g, c)"
    and "0 \<le> g" and "0 \<le> getGPURequest p" and "i64 (g * gpus_for p)" and "0 \<le> getVRAMRequest parseQ listers p"
  shows "vram_Score parseQ slices listers state p ni = Some (0, success)"
proof -
  let ?r = "getVRAMRequest parseQ listers p"
  have r: "?r \<noteq> 0" using assms(1-3) by (auto simp: vram_Filter_def)
  obtain ds v where t: "getNodeGPUTopology parseQ slices n = Some (v, ds)"
    using assms(4) by (auto simp: getNodeGPUVRAM_def split: option.splits)
  have k: "1 \<le> gpus_for p" using assms(6) by (simp add: gpus_for_def)
  have s: "(if getGPURequest p = 0 \<and> ?r > 0 then 1 else getGPURequest p) = gpus_for p"
    using r assms(8) by (simp add: gpus_for_def)
  have "g = 0 \<or> g * gpus_for p < ?r"
    using vram_Filter_code [OF assms(3) refl r assms(4,7)] assms(1,2) by (auto split: if_splits)
  moreover have "g \<le> g * gpus_for p" using k assms(5) by (simp add: mult_le_cancel_left1)
  ultimately have "g = 0 \<or> ?r > g \<and> ?r > wrap64 (g * gpus_for p)" using assms(7) by (auto simp: wrap64_id)
  then show ?thesis
    using r t s assms(3,4) by (auto simp: vram_Score_def Let_def ScoreInsufficientVRAM_def)
qed

lemma vram_rejected_scores_0_witness:
  "vram_Score ex_bytes ex_slices None (None :: unit cycle_state option) (ex_vram_pod ''81'' 2) (ex_vram_info []) = Some (0, success)"
proof -
  have r: "getVRAMRequest ex_bytes None (ex_vram_pod ''81'' 2) = 81" "gpus_for (ex_vram_pod ''81'' 2) = 2"
    "getGPURequest (ex_vram_pod ''81'' 2) = 2" by code_simp+
  obtain st where "vram_Filter ex_bytes ex_slices None (ex_vram_pod ''81'' 2) (ex_vram_info []) = Some st"
      "st_code st = Unschedulable"
    using vram_Filter_code [OF ex_vram_info_node refl _ node_vram_min [OF ex_dra_topology],
      of ex_bytes None "ex_vram_pod ''81'' 2" "[]"] r by (auto simp: ex_dra_gpu_def i64_def)
  then show ?thesis
    using vram_rejected_scores_0 [OF _ _ ex_vram_info_node node_vram_min [OF ex_dra_topology],
      of ex_bytes None "ex_vram_pod ''81'' 2" "[]" st "None :: unit cycle_state option"] r
    by (simp add: ex_dra_gpu_def i64_def)
qed

section \<open>Scores and tiers\<close>

lemma hundredths_Fin: "0 \<le> n \<Longrightarrow> n \<le> 100 \<Longrightarrow> hundredths n = Fin (fl (of_int n / 100))"
proof -
  assume "0 \<le> n" "n \<le> 100"
  then have "(0::rat) \<le> of_int n" "(of_int n :: rat) \<le> of_int 100" by (simp_all only: of_int_0_le_iff of_int_le_iff)
  then show ?thesis by (simp add: hundredths_def to_f64_Fin)
qed

text \<open>A ratio that reaches a threshold reaches every lower one.\<close>

lemma fge_hundredths:
  assumes "fge u (hundredths n)" "0 \<le> m" "m \<le> n" "n \<le> 100"
  shows "fge u (hundredths m)"
proof -
  have "fl (of_int m / 100) \<le> fl (of_int n / 100)" using assms(3) by (intro fl_mono divide_right_mono) simp_all
  then show ?thesis
    using assms hundredths_Fin [of m] hundredths_Fin [of n] by (cases u) (auto simp: fge_def)
qed

lemmas vram_scores = ScorePerfectFit_def ScoreGoodFit_def ScoreAcceptableFit_def ScorePoorFit_def ScoreInsufficientVRAM_def

lemma utilization_range: "calculateUtilizationScore u t \<in> {0, 30, 60, 80, 100}"
  by (simp add: calculateUtilizationScore_def vram_scores split: prod.split)

lemma utilization_gold_silver: "calculateUtilizationScore u ''gold'' \<le> calculateUtilizationScore u ''silver''"
proof -
  have t: "tier_thresholds ''gold'' = GoldThresholds" "tier_thresholds ''silver'' = SilverThresholds" by code_simp+
  show ?thesis
    using fge_hundredths [of u 98 95] fge_hundredths [of u 85 70] fge_hundredths [of u 70 50] fge_hundredths [of u 50 30]
    by (auto simp: calculateUtilizationScore_def t GoldThresholds_def SilverThresholds_def vram_scores)
qed

lemma utilization_silver_bronze: "calculateUtilizationScore u ''silver'' \<le> calculateUtilizationScore u ''bronze''"
proof -
  have t: "tier_thresholds ''silver'' = SilverThresholds" "tier_thresholds ''bronze'' = BronzeThresholds" by code_simp+
  show ?thesis
    using fge_hundredths [of u 95 90] fge_hundredths [of u 70 60] fge_hundredths [of u 50 40] fge_hundredths [of u 30 20]
    by (auto simp: calculateUtilizationScore_def t SilverThresholds_def BronzeThresholds_def vram_scores)
qed

lemma adjust_mono:
  "s \<le> s' \<Longrightarrow> adjust_high_end n u s \<le> adjust_high_end n u s'"
  "s \<le> s' \<Longrightarrow> adjust_stranding u s \<le> adjust_stranding u s'"
  "s \<le> s' \<Longrightarrow> adjust_topology ds k s \<le> adjust_topology ds k s'"
  by (auto simp: adjust_high_end_def adjust_stranding_def adjust_topology_def Let_def)

lemma vram_Score_mono:
  assumes "vram_Score parseQ slices listers (s :: 'a cycle_state option) p ni = Some (a, st)"
    "\<And>u. calculateUtilizationScore u (vram_getTenantTierFromProfile s) \<le>
        calculateUtilizationScore u (vram_getTenantTierFromProfile (s' :: 'b cycle_state option))"
  shows "\<exists>b. vram_Score parseQ slices listers s' p ni = Some (b, st) \<and> a \<le> b"
  using assms(1)
  by (auto simp: vram_Score_def Let_def split: option.splits if_splits intro!: assms(2) adjust_mono)

lemma vram_tier_of: "GetProfile state = Inr pr \<Longrightarrow> vram_getTenantTierFromProfile state = to_lower (tier_string (sp_tier pr))"
  by (simp add: vram_getTenantTierFromProfile_def)

lemma tier_names_lower: "to_lower ''gold'' = ''gold''" "to_lower ''silver'' = ''silver''" "to_lower ''bronze'' = ''bronze''"
  by code_simp+

text \<open>The lower the tier, the more a node is worth to a pod: for the same pod and node, the score of a
  tenant of a known tier is at least that of any tenant of a higher tier, so that half-filled GPUs go to
  the lower tiers first; bonuses, penalties and caps keep the order.\<close>

theorem vram_tiers_ordered:
  assumes "GetProfile s = Inr pr" and "GetProfile s' = Inr pr'"
    and "TierUnknown < sp_tier pr'" and "sp_tier pr' \<le> sp_tier pr"
    and "vram_Score parseQ slices listers s p ni = Some (a, st)"
  shows "\<exists>b. vram_Score parseQ slices listers s' p ni = Some (b, st) \<and> a \<le> b"
proof (rule vram_Score_mono [OF assms(5)])
  fix u
  show "calculateUtilizationScore u (vram_getTenantTierFromProfile s) \<le> calculateUtilizationScore u (vram_getTenantTierFromProfile s')"
    using assms(3,4) utilization_gold_silver [of u] utilization_silver_bronze [of u]
    by (cases "sp_tier pr"; cases "sp_tier pr'")
      (simp_all add: vram_tier_of [OF assms(1)] vram_tier_of [OF assms(2)] tier_names_lower tier_order)
qed

definition ex_vram_profile :: "tenant_tier \<Rightarrow> scheduling_profile" where
  "ex_vram_profile t = \<lparr>sp_tier = t, sp_tenant = ''ml'', sp_workload = WorkloadTraining,
     sp_gang = False, sp_preemptible = False, sp_priority = 0, sp_qos = ''''\<rparr>"

definition ex_vram_state :: "tenant_tier \<Rightarrow> unit cycle_state option" where
  "ex_vram_state t = Some [stateKey \<mapsto> ProfileData (ex_vram_profile t)]"

lemma ex_vram_state_profile: "GetProfile (ex_vram_state t) = Inr (ex_vram_profile t)"
  by (simp add: GetProfile_def ex_vram_state_def)

lemma ex_vram_score:
  "vram_Score ex_bytes ex_slices None (ex_vram_state TierGold) (ex_vram_pod ''20'' 1) (ex_vram_info []) =
     Some (calculateUtilizationScore (fdiv (f_int 20) (f_int 40)) ''gold'', success)"
proof -
  have r: "getVRAMRequest ex_bytes None (ex_vram_pod ''20'' 1) = 20" "getGPURequest (ex_vram_pod ''20'' 1) = 1" by code_simp+
  have h: "\<not> isHighEndGPU (ex_gpu_node [])" by (simp add: isHighEndGPU_def ex_gpu_node_def)
  have u: "\<not> flt (fdiv (f_int 20) (f_int 40)) ThresholdPoorFit" by code_simp
  have t: "vram_getTenantTierFromProfile (ex_vram_state TierGold) = ''gold''"
    using vram_tier_of [OF ex_vram_state_profile [of TierGold]] by (simp add: ex_vram_profile_def tier_names_lower)
  show ?thesis
    using ex_node_vram [of ex_bytes "[]"] ex_dra_topology [of ex_bytes "[]"]
    by (simp add: vram_Score_def ex_vram_info_node r t h u adjust_high_end_def adjust_stranding_def adjust_topology_def)
qed

lemma vram_tiers_ordered_witness:
  "\<exists>b. vram_Score ex_bytes ex_slices None (ex_vram_state TierBronze) (ex_vram_pod ''20'' 1) (ex_vram_info []) = Some (b, success) \<and>
     calculateUtilizationScore (fdiv (f_int 20) (f_int 40)) ''gold'' \<le> b"
  by (rule vram_tiers_ordered [OF ex_vram_state_profile ex_vram_state_profile _ _ ex_vram_score])
    (simp_all add: ex_vram_profile_def tier_order)

section \<open>The framework's contract\<close>

lemma topology_bonus_nonneg: "0 \<le> calculateGPUTopologyBonus ds k"
  by (simp add: calculateGPUTopologyBonus_def BonusGPUNUMALocality_def BonusNVLinkConnected_def BonusPCIeLocality_def)

lemma adjust_range:
  "0 \<le> s \<Longrightarrow> s \<le> 100 \<Longrightarrow> 0 \<le> adjust_high_end n u s \<and> adjust_high_end n u s \<le> 100"
  "0 \<le> s \<Longrightarrow> s \<le> 100 \<Longrightarrow> 0 \<le> adjust_stranding u s \<and> adjust_stranding u s \<le> 100"
  "0 \<le> s \<Longrightarrow> s \<le> 100 \<Longrightarrow> 0 \<le> adjust_topology ds k s \<and> adjust_topology ds k s \<le> 100"
  using topology_bonus_nonneg [of ds k]
  by (auto simp: adjust_high_end_def adjust_stranding_def adjust_topology_def Let_def BonusHighEndGPU_def PenaltyStrandVRAM_def)

lemma utilization_bounds: "0 \<le> calculateUtilizationScore u t \<and> calculateUtilizationScore u t \<le> 100"
  using utilization_range [of u t] by auto

lemma vram_Score_range:
  assumes "vram_Score parseQ slices listers state p ni = Some (s, st)" "ni_node ni = Some n"
  shows "st = success \<and> 0 \<le> s \<and> s \<le> 100"
proof -
  have "0 \<le> adjust_topology ds k (adjust_stranding u (adjust_high_end n u (calculateUtilizationScore u t))) \<and>
      adjust_topology ds k (adjust_stranding u (adjust_high_end n u (calculateUtilizationScore u t))) \<le> 100" for ds k u t
    using utilization_bounds [of u t] adjust_range by meson
  then show ?thesis
    using assms utilization_bounds
    by (auto simp: vram_Score_def Let_def vram_scores split: option.splits if_splits)
qed

definition vram_score_answer ::
  "quantity_parser \<times> slices \<times> claim_listers option \<times> 'o cycle_state option \<times> pod \<times> node_info \<Rightarrow> int \<times> status" where
  "vram_score_answer i =
     (case i of (parseQ, slices, listers, state, p, ni) \<Rightarrow>
        (case vram_Score parseQ slices listers state p ni of Some r \<Rightarrow> r | None \<Rightarrow> (0, mk_status Error '''')))"

definition vram_score_returns ::
  "quantity_parser \<times> slices \<times> claim_listers option \<times> 'o cycle_state option \<times> pod \<times> node_info \<Rightarrow> bool" where
  "vram_score_returns i \<longleftrightarrow>
     (case i of (parseQ, slices, listers, state, p, ni) \<Rightarrow>
        ni_node ni \<noteq> None \<and> vram_Score parseQ slices listers state p ni \<noteq> None)"

interpretation vram: score_plugin
  "vram_score_answer :: quantity_parser \<times> slices \<times> claim_listers option \<times> 'o cycle_state option \<times> pod \<times> node_info \<Rightarrow> int \<times> status"
  vram_score_returns
proof unfold_locales
  fix i :: "quantity_parser \<times> slices \<times> claim_listers option \<times> 'o cycle_state option \<times> pod \<times> node_info"
  obtain parseQ slices listers state p ni where i: "i = (parseQ, slices, listers, state, p, ni)" by (cases i)
  assume "vram_score_returns i"
  then obtain n s st where r: "ni_node ni = Some n" "vram_Score parseQ slices listers state p ni = Some (s, st)"
    by (auto simp: vram_score_returns_def i)
  with vram_Score_range [OF r(2,1)]
  show "st_code (snd (vram_score_answer i)) = Success"
    "0 \<le> fst (vram_score_answer i) \<and> fst (vram_score_answer i) \<le> MaxNodeScore"
    by (simp_all add: vram_score_answer_def i MaxNodeScore_def)
qed

section \<open>Finding GPUs that lie together\<close>

definition tally_of :: "('k \<times> int) list \<Rightarrow> 'k \<Rightarrow> int" where
  "tally_of m k = (case lookup m k of None \<Rightarrow> 0 | Some c \<Rightarrow> c)"

lemma tally_step_facts:
  "tally_of (tally_step m k) k' = tally_of m k' + (if k' = k then 1 else 0)"
  "fst ` set (tally_step m k) = insert k (fst ` set m)"
  "distinct (map fst m) \<Longrightarrow> distinct (map fst (tally_step m k))"
  by (simp_all add: tally_step_def tally_of_def update_conv' dom_update distinct_update)

lemma tally_facts:
  "tally_of (foldl tally_step m ks) k = tally_of m k + int (count_list ks k)"
  "fst ` set (foldl tally_step m ks) = fst ` set m \<union> set ks"
  "distinct (map fst m) \<Longrightarrow> distinct (map fst (foldl tally_step m ks))"
  by (induction ks arbitrary: m) (simp_all add: tally_step_facts)

lemma some_group_iff: "some_group ks k \<longleftrightarrow> (\<exists>key \<in> set ks. k \<le> int (count_list ks key))"
proof -
  define m where "m = foldl tally_step [] ks"
  have d: "distinct (map fst m)" and f: "fst ` set m = set ks"
    and t: "tally_of m key = int (count_list ks key)" for key
    using tally_facts [of "[]" ks] by (simp_all add: m_def tally_of_def)
  have e: "(key, c) \<in> set m \<Longrightarrow> c = int (count_list ks key)" for key c
    using t [of key] d by (simp add: tally_of_def)
  show ?thesis
  proof
    assume "some_group ks k"
    then obtain key c where "(key, c) \<in> set m" "k \<le> c" by (auto simp: some_group_def m_def list_ex_iff)
    moreover from this have "key \<in> set ks" using f by force
    ultimately show "\<exists>key \<in> set ks. k \<le> int (count_list ks key)" using e by blast
  next
    assume "\<exists>key \<in> set ks. k \<le> int (count_list ks key)"
    then obtain key where k: "key \<in> set ks" "k \<le> int (count_list ks key)" by blast
    then have "key \<in> fst ` set m" by (simp only: f)
    then obtain c where "(key, c) \<in> set m" by auto
    then show "some_group ks k" using e k(2) by (auto simp: some_group_def m_def list_ex_iff)
  qed
qed

lemma subseq_of_filter:
  "(\<exists>gs. subseq gs xs \<and> length gs = k \<and> (\<forall>g \<in> set gs. P g)) \<longleftrightarrow> k \<le> length (filter P xs)"
proof
  assume "\<exists>gs. subseq gs xs \<and> length gs = k \<and> (\<forall>g \<in> set gs. P g)"
  then obtain gs where gs: "subseq gs xs" "length gs = k" "\<forall>g \<in> set gs. P g" by blast
  then have "subseq (filter P gs) (filter P xs)" by (intro subseq_filter)
  moreover have "filter P gs = gs" using gs(3) by simp
  ultimately show "k \<le> length (filter P xs)" using gs(2) by (metis list_emb_length)
next
  assume k: "k \<le> length (filter P xs)"
  have "subseq (take k (filter P xs)) (filter P xs)" by (intro prefix_imp_subseq take_is_prefix)
  then have "subseq (take k (filter P xs)) xs" by (meson subseq_filter_left subseq_order.order_trans)
  moreover have "\<forall>g \<in> set (take k (filter P xs)). P g" by (auto dest: in_set_takeD)
  moreover have "length (take k (filter P xs)) = k" using k by simp
  ultimately show "\<exists>gs. subseq gs xs \<and> length gs = k \<and> (\<forall>g \<in> set gs. P g)" by blast
qed

lemma count_list_filter: "count_list (map f (filter (\<lambda>g. Q (f g)) xs)) j = (if Q j then length (filter (\<lambda>g. f g = j) xs) else 0)"
  by (induction xs) auto

lemma some_group_subseq:
  assumes "0 < k"
  shows "some_group (map f (filter (\<lambda>g. Q (f g)) xs)) k \<longleftrightarrow>
    (\<exists>gs j. subseq gs xs \<and> int (length gs) = k \<and> Q j \<and> (\<forall>g \<in> set gs. f g = j))"
proof -
  have "some_group (map f (filter (\<lambda>g. Q (f g)) xs)) k \<longleftrightarrow> (\<exists>j. Q j \<and> nat k \<le> length (filter (\<lambda>g. f g = j) xs))"
  proof
    assume "some_group (map f (filter (\<lambda>g. Q (f g)) xs)) k"
    then show "\<exists>j. Q j \<and> nat k \<le> length (filter (\<lambda>g. f g = j) xs)"
      by (auto simp: some_group_iff count_list_filter split: if_splits)
  next
    assume "\<exists>j. Q j \<and> nat k \<le> length (filter (\<lambda>g. f g = j) xs)"
    then obtain j where j: "Q j" "nat k \<le> length (filter (\<lambda>g. f g = j) xs)" by blast
    then have "filter (\<lambda>g. f g = j) xs \<noteq> []" using assms by auto
    then obtain g where "g \<in> set xs" "f g = j" by (auto simp: filter_empty_conv)
    then have "j \<in> set (map f (filter (\<lambda>g. Q (f g)) xs))" using j(1) by auto
    then show "some_group (map f (filter (\<lambda>g. Q (f g)) xs)) k"
      using j by (auto simp only: some_group_iff count_list_filter if_True intro!: bexI [of _ j])
  qed
  also have "\<dots> \<longleftrightarrow> (\<exists>j. Q j \<and> (\<exists>gs. subseq gs xs \<and> length gs = nat k \<and> (\<forall>g \<in> set gs. f g = j)))"
    by (simp only: subseq_of_filter [of xs "nat k"])
  also have "\<dots> \<longleftrightarrow> (\<exists>gs j. subseq gs xs \<and> int (length gs) = k \<and> Q j \<and> (\<forall>g \<in> set gs. f g = j))"
    using assms by (metis int_nat_eq less_imp_le nat_int)
  finally show ?thesis .
qed

text \<open>C33: The locality bonuses are given exactly when the GPUs exist: counting the GPUs of each group finds
  that the node has as many GPUs as the pod asks for, one at least, on one known NUMA node if and only if some
  selection of that many of the node's GPUs lies on one NUMA node with a non-negative number, and the
  same for a named PCIe switch.\<close>

theorem locality_checks_exact:
  assumes "0 < k"
  shows "(checkGPUNUMALocality ds k \<longleftrightarrow>
      (\<exists>gs j. subseq gs ds \<and> int (length gs) = k \<and> 0 \<le> j \<and> (\<forall>g \<in> set gs. gd_numa g = j))) \<and>
    (checkPCIeLocality ds k \<longleftrightarrow>
      (\<exists>gs sw. subseq gs ds \<and> int (length gs) = k \<and> sw \<noteq> '''' \<and> (\<forall>g \<in> set gs. gd_pcie_switch g = sw)))"
proof
  show "checkGPUNUMALocality ds k \<longleftrightarrow>
      (\<exists>gs j. subseq gs ds \<and> int (length gs) = k \<and> 0 \<le> j \<and> (\<forall>g \<in> set gs. gd_numa g = j))"
    unfolding checkGPUNUMALocality_def by (rule some_group_subseq [OF assms, where Q = "\<lambda>j. 0 \<le> j"])
  show "checkPCIeLocality ds k \<longleftrightarrow>
      (\<exists>gs sw. subseq gs ds \<and> int (length gs) = k \<and> sw \<noteq> '''' \<and> (\<forall>g \<in> set gs. gd_pcie_switch g = sw))"
    unfolding checkPCIeLocality_def by (rule some_group_subseq [OF assms, where Q = "\<lambda>sw. sw \<noteq> ''''"])
qed

lemma locality_checks_exact_witness:
  "\<exists>gs j. subseq gs (spread_numa 2 (map (label_gpu 80) [0, 1, 2, 3])) \<and> int (length gs) = 2 \<and> 0 \<le> j \<and> (\<forall>g \<in> set gs. gd_numa g = j)"
proof -
  have "checkGPUNUMALocality (spread_numa 2 (map (label_gpu 80) [0, 1, 2, 3])) 2" by code_simp
  then show ?thesis using locality_checks_exact [of 2] by simp
qed

text \<open>A model name counts as a PCIe switch: the DRA devices of a node that name no switch, and all have
  the same model, are treated as sharing one switch, so that every request for at least two of them
  earns the PCIe bonus, wherever the GPUs are plugged in.\<close>

theorem same_model_shares_switch:
  assumes "\<forall>d \<in> set devs. attr_string (dv_attrs d) ''pcie-switch'' = None"
    and "\<forall>d \<in> set devs. attr_string (dv_attrs d) ''model'' = Some m" and "m \<noteq> ''''"
    and "0 < k" and "k \<le> int (length devs)"
  shows "checkPCIeLocality (map parseGPUDeviceFromDRA devs) k"
proof -
  have s: "gd_pcie_switch (parseGPUDeviceFromDRA d) = m" if "d \<in> set devs" for d
    using assms(1,2) that by (simp add: parseGPUDeviceFromDRA_def Let_def)
  let ?gs = "take (nat k) (map parseGPUDeviceFromDRA devs)"
  have "subseq ?gs (map parseGPUDeviceFromDRA devs)" by (intro prefix_imp_subseq take_is_prefix)
  moreover have "int (length ?gs) = k" using assms(4,5) by simp
  moreover have "\<forall>g \<in> set ?gs. gd_pcie_switch g = m" using s by (auto dest!: in_set_takeD)
  ultimately show ?thesis
    unfolding checkPCIeLocality_def some_group_subseq [OF assms(4), where Q = "\<lambda>sw. sw \<noteq> ''''"] using assms(3) by blast
qed

lemma same_model_shares_switch_witness:
  "checkPCIeLocality (map parseGPUDeviceFromDRA [ex_dra_device ''gpu-0'' 80, ex_dra_device ''gpu-7'' 80]) 2"
  by (rule same_model_shares_switch [of _ "''H100''"]) (simp_all add: ex_dra_device_def attr_string_def)

section \<open>Requests larger than one GPU\<close>

text \<open>A request that needs several GPUs earns no topology bonus: when the request exceeds the memory of
  one GPU the score depends on the least memory of the node's GPUs alone, so two nodes with the same
  memory per GPU score the same however their GPUs are connected; the bonus for connected GPUs is
  given only to requests that a single GPU could hold.\<close>

theorem large_request_ignores_topology:
  assumes "ni_node i1 = Some n1" and "getNodeGPUVRAM parseQ slices1 n1 = Some (g, c1)"
    and "ni_node i2 = Some n2" and "getNodeGPUVRAM parseQ slices2 n2 = Some (g, c2)"
    and "getVRAMRequest parseQ listers p > g" and "0 < g"
  shows "vram_Score parseQ slices1 listers state p i1 = vram_Score parseQ slices2 listers state p i2 \<and>
    vram_Score parseQ slices1 listers state p i1 \<noteq> None"
proof -
  obtain t1 t2 where "getNodeGPUTopology parseQ slices1 n1 = Some t1" "getNodeGPUTopology parseQ slices2 n2 = Some t2"
    using assms(2,4) by (auto simp: getNodeGPUVRAM_def split: option.splits)
  then show ?thesis
    using assms by (simp add: vram_Score_def Let_def case_prod_beta)
qed

definition ex_linked_slices :: slices where
  "ex_linked_slices = Some (Inr [\<lparr>sl_node = Some ''n'', sl_driver = ''gpu.nvidia.com'',
     sl_devices = map (\<lambda>nm. (ex_dra_device nm 40)\<lparr>dv_attrs := [(''nvlink-domain'', \<lparr>da_int = Some 0, da_string = None\<rparr>)]\<rparr>)
       [''gpu-0'', ''gpu-1'']\<rparr>])"

lemma large_request_ignores_topology_witness:
  "vram_Score ex_bytes ex_slices None (ex_vram_state TierGold) (ex_vram_pod ''80'' 2) (ex_vram_info []) =
   vram_Score ex_bytes ex_linked_slices None (ex_vram_state TierGold) (ex_vram_pod ''80'' 2) (ex_vram_info [])"
proof -
  have g: "getVRAMRequest ex_bytes None (ex_vram_pod ''80'' 2) = 80" by code_simp
  have l: "getNodeGPUVRAM ex_bytes ex_linked_slices (ex_gpu_node []) = Some (40, 2)" by code_simp
  show ?thesis
    by (rule large_request_ignores_topology [OF ex_vram_info_node ex_node_vram ex_vram_info_node l, THEN conjunct1])
      (simp_all add: g)
qed

end
