(* ===== verification/Webhook.thy ===== *)
theory Webhook
  imports Profile "HOL-Library.AList"
begin

text \<open>
  \<^verbatim>\<open>pkg/webhook/pod_mutation.go\<close>: the admission webhook that adds a GPU class to the node selector of
  a pod.  The decoders of the request body and of the pod (\<^verbatim>\<open>encoding/json\<close> on the wire format) and
  the API client are parameters.  A JSON patch is kept as the value the code hands to the encoder, which
  cannot fail on it; the bytes on the wire are not modelled.
\<close>

section \<open>Model\<close>

definition TenantTierLabel :: string where
  "TenantTierLabel = ''tenant.kubenexus.io/tier''"

definition GPUClassLabel :: string where
  "GPUClassLabel = ''gpu.nvidia.com/class''"

definition GPUClassH100 :: string where "GPUClassH100 = ''h100''"
definition GPUClassA100 :: string where "GPUClassA100 = ''a100''"
definition GPUClassL4 :: string where "GPUClassL4 = ''l4''"

definition getTierGPUClass :: "string \<Rightarrow> string" where
  "getTierGPUClass tier =
     (let t = to_lower tier
      in if t = ''gold'' then GPUClassH100
         else if t = ''silver'' then GPUClassA100
         else if t = ''bronze'' then GPUClassL4
         else '''')"

definition gpuResourceNames :: "string list" where
  "gpuResourceNames = [''nvidia.com/gpu'', ''amd.com/gpu'', ''intel.com/gpu'']"

definition asks_for :: "resources \<Rightarrow> string \<Rightarrow> bool" where
  "asks_for rl r = (case lookup rl r of None \<Rightarrow> False | Some qty \<Rightarrow> \<not> q_is_zero qty)"

definition requestsGPUs :: "pod \<Rightarrow> bool" where
  "requestsGPUs p \<longleftrightarrow>
     list_ex (\<lambda>c. list_ex (\<lambda>r. asks_for (c_requests c) r \<or> asks_for (c_limits c) r) gpuResourceNames) (p_containers p)"

definition hasGPUClassNodeSelector :: "pod \<Rightarrow> bool" where
  "hasGPUClassNodeSelector p =
     (case p_node_selector p of None \<Rightarrow> False | Some sel \<Rightarrow> has_key sel GPUClassLabel)"

definition getNamespaceTier :: "ns_client \<Rightarrow> string \<Rightarrow> string + string" where
  "getNamespaceTier client namespace =
     (case client namespace of
        Inl err \<Rightarrow> Inl (''failed to get namespace: '' @ err)
      | Inr labels \<Rightarrow>
         (case lookup_nonempty labels TenantTierLabel of
            None \<Rightarrow> Inl (''namespace '' @ namespace @ '' does not have '' @ TenantTierLabel @ '' label'')
          | Some tier \<Rightarrow> Inr (to_lower tier)))"

text \<open>\<^verbatim>\<open>strings.ReplaceAll\<close> with a pattern of one character.\<close>

definition replace_char :: "char \<Rightarrow> string \<Rightarrow> string \<Rightarrow> string" where
  "replace_char c by s = concat (map (\<lambda>x. if x = c then by else [x]) s)"

definition escapeJSONPointer :: "string \<Rightarrow> string" where
  "escapeJSONPointer s = replace_char (CHR ''/'') ''~1'' (replace_char (CHR ''~'') ''~0'' s)"

datatype patch_value = PatchMap "string gomap" | PatchString string

record patch =
  pt_op :: string
  pt_path :: string
  pt_value :: patch_value

definition createNodeSelectorPatches :: "pod \<Rightarrow> string \<Rightarrow> patch list" where
  "createNodeSelectorPatches p gpuClass =
     (case p_node_selector p of
        None \<Rightarrow> [\<lparr>pt_op = ''add'', pt_path = ''/spec/nodeSelector'', pt_value = PatchMap [(GPUClassLabel, gpuClass)]\<rparr>]
      | Some _ \<Rightarrow> [\<lparr>pt_op = ''add'', pt_path = ''/spec/nodeSelector/'' @ escapeJSONPointer GPUClassLabel,
                   pt_value = PatchString gpuClass\<rparr>])"

text \<open>The response: whether the pod is admitted, a message, and the patch when there is one.\<close>

record response =
  ar_uid :: string
  ar_allowed :: bool
  ar_message :: "string option"
  ar_patch :: "patch list option"

definition allowed :: response where
  "allowed = \<lparr>ar_uid = '''', ar_allowed = True, ar_message = None, ar_patch = None\<rparr>"

definition denied :: "string \<Rightarrow> response" where
  "denied msg = \<lparr>ar_uid = '''', ar_allowed = False, ar_message = Some msg, ar_patch = None\<rparr>"

record 'raw request =
  rq_uid :: string
  rq_kind :: string
  rq_namespace :: string
  rq_object :: 'raw

definition mutate :: "('raw \<Rightarrow> string + pod) \<Rightarrow> ns_client \<Rightarrow> 'raw request option \<Rightarrow> response" where
  "mutate unmarshal client req =
     (case req of
        None \<Rightarrow> denied ''admission request is nil''
      | Some rq \<Rightarrow>
          if rq_kind rq \<noteq> ''Pod'' then allowed
          else (case unmarshal (rq_object rq) of
                  Inl err \<Rightarrow> denied (''could not unmarshal pod: '' @ err)
                | Inr p \<Rightarrow>
                    if \<not> requestsGPUs p then allowed
                    else if hasGPUClassNodeSelector p then allowed
                    else (case getNamespaceTier client (rq_namespace rq) of
                            Inl _ \<Rightarrow> allowed
                          | Inr tier \<Rightarrow>
                             (let gpuClass = getTierGPUClass tier
                              in if gpuClass = '''' then allowed
                                 else let patches = createNodeSelectorPatches p gpuClass
                                 in if patches = [] then allowed
                                    else allowed\<lparr>ar_patch := Some patches\<rparr>))))"

text \<open>
  The HTTP handler: a body that cannot be decoded is answered by status 400 and a message; otherwise the
  review carries the response under the identifier of its request.
\<close>

definition Handle ::
  "('b \<Rightarrow> string + 'raw request option) \<Rightarrow> ('raw \<Rightarrow> string + pod) \<Rightarrow> ns_client \<Rightarrow> 'b \<Rightarrow> (nat \<times> string) + response" where
  "Handle decode unmarshal client body =
     (case decode body of
        Inl err \<Rightarrow> Inl (400, ''could not decode body: '' @ err)
      | Inr req \<Rightarrow>
         (let r = mutate unmarshal client req
          in Inr (case req of None \<Rightarrow> r | Some rq \<Rightarrow> r\<lparr>ar_uid := rq_uid rq\<rparr>)))"

section \<open>JSON pointers\<close>

text \<open>
  What RFC 6901 says a reader of a pointer does: the reference tokens are separated by \<^verbatim>\<open>/\<close>, and in a
  token \<^verbatim>\<open>~1\<close> stands for \<^verbatim>\<open>/\<close> and \<^verbatim>\<open>~0\<close> for \<^verbatim>\<open>~\<close>.
\<close>

fun unescape_token :: "string \<Rightarrow> string" where
  "unescape_token [] = []"
| "unescape_token [c] = [c]"
| "unescape_token (c # d # cs) =
     (if c = CHR ''~'' \<and> d = CHR ''1'' then CHR ''/'' # unescape_token cs
      else if c = CHR ''~'' \<and> d = CHR ''0'' then CHR ''~'' # unescape_token cs
      else c # unescape_token (d # cs))"

definition pointer_tokens :: "string \<Rightarrow> string list" where
  "pointer_tokens ptr = map unescape_token (tl (split_on (CHR ''/'') ptr))"

lemma escape_simps:
  "escapeJSONPointer [] = []"
  "escapeJSONPointer (c # cs) =
     (if c = CHR ''~'' then ''~0'' else if c = CHR ''/'' then ''~1'' else [c]) @ escapeJSONPointer cs"
  by (simp_all add: escapeJSONPointer_def replace_char_def)

lemma unescape_Cons: "c \<noteq> CHR ''~'' \<Longrightarrow> unescape_token (c # cs) = c # unescape_token cs"
  by (cases cs) auto

lemma unescape_escape: "unescape_token (escapeJSONPointer s) = s"
  by (induction s) (auto simp: escape_simps unescape_Cons)

lemma escape_no_slash: "CHR ''/'' \<notin> set (escapeJSONPointer s)"
  by (induction s) (auto simp: escape_simps)

section \<open>The patch applied\<close>

text \<open>
  What the API server does with the patch: RFC 6902 on a document of nested objects.  A value that is
  neither an object nor a string (a number, an array) is a leaf of the document; the pointers of this
  program's patches lead through objects only.  An operation that fails makes the whole patch fail.
  \<^verbatim>\<open>move\<close> and \<^verbatim>\<open>copy\<close> read a member \<^verbatim>\<open>from\<close>, which the patches of this program do not have, so they are
  errors like an unknown operation.
\<close>

datatype json = JStr string | JOther int | JObj "(string \<times> json) list"

fun json_at :: "string list \<Rightarrow> json \<Rightarrow> json option" where
  "json_at [] d = Some d"
| "json_at (k # ks) (JObj ms) = (case map_of ms k of None \<Rightarrow> None | Some d \<Rightarrow> json_at ks d)"
| "json_at (k # ks) _ = None"

fun json_add :: "string list \<Rightarrow> json \<Rightarrow> json \<Rightarrow> json option" where
  "json_add [] v d = Some v"
| "json_add [k] v (JObj ms) = Some (JObj (AList.update k v ms))"
| "json_add (k # k' # ks) v (JObj ms) =
     (case map_of ms k of
        None \<Rightarrow> None
      | Some d \<Rightarrow> map_option (\<lambda>d'. JObj (AList.update k d' ms)) (json_add (k' # ks) v d))"
| "json_add (k # ks) v _ = None"

fun json_remove :: "string list \<Rightarrow> json \<Rightarrow> json option" where
  "json_remove [k] (JObj ms) = (case map_of ms k of None \<Rightarrow> None | Some _ \<Rightarrow> Some (JObj (AList.delete k ms)))"
| "json_remove (k # k' # ks) (JObj ms) =
     (case map_of ms k of
        None \<Rightarrow> None
      | Some d \<Rightarrow> map_option (\<lambda>d'. JObj (AList.update k d' ms)) (json_remove (k' # ks) d))"
| "json_remove _ _ = None"

definition json_of_strings :: "string gomap \<Rightarrow> json" where
  "json_of_strings m = JObj (map (apsnd JStr) m)"

definition json_of_value :: "patch_value \<Rightarrow> json" where
  "json_of_value v = (case v of PatchMap m \<Rightarrow> json_of_strings m | PatchString s \<Rightarrow> JStr s)"

definition apply_patch :: "patch \<Rightarrow> json \<Rightarrow> json option" where
  "apply_patch pt doc =
     (let ks = pointer_tokens (pt_path pt); v = json_of_value (pt_value pt)
      in if pt_op pt = ''add'' then json_add ks v doc
         else if pt_op pt = ''remove'' then json_remove ks doc
         else if pt_op pt = ''replace'' then (if json_at ks doc = None then None else json_add ks v doc)
         else if pt_op pt = ''test'' then (if json_at ks doc = Some v then Some doc else None)
         else None)"

fun apply_patches :: "patch list \<Rightarrow> json \<Rightarrow> json option" where
  "apply_patches [] doc = Some doc"
| "apply_patches (pt # pts) doc = (case apply_patch pt doc of None \<Rightarrow> None | Some doc' \<Rightarrow> apply_patches pts doc')"

definition selector_of :: "string gomap option \<Rightarrow> string \<Rightarrow> string option" where
  "selector_of sel = (case sel of None \<Rightarrow> Map.empty | Some m \<Rightarrow> lookup m)"

text \<open>
  What a document must hold for \<^verbatim>\<open>encoding/json\<close> to read a selector from it: a spec, and in the spec the
  selector as an object of strings, or no such member when the selector is nil.
\<close>

definition carries :: "json \<Rightarrow> string gomap option \<Rightarrow> bool" where
  "carries doc sel \<longleftrightarrow> (\<exists>ms. json_at [''spec''] doc = Some (JObj ms)) \<and>
     json_at [''spec'', ''nodeSelector''] doc = map_option json_of_strings sel"

lemma path_tokens:
  "pointer_tokens ''/spec/nodeSelector'' = [''spec'', ''nodeSelector'']"
  "pointer_tokens (''/spec/nodeSelector/'' @ escapeJSONPointer s) = [''spec'', ''nodeSelector'', s]"
proof -
  show "pointer_tokens ''/spec/nodeSelector'' = [''spec'', ''nodeSelector'']" by code_simp
  have "split_on (CHR ''/'') (escapeJSONPointer s) = [escapeJSONPointer s]"
    by (rule split_on_no_sep) (rule escape_no_slash)
  then show "pointer_tokens (''/spec/nodeSelector/'' @ escapeJSONPointer s) = [''spec'', ''nodeSelector'', s]"
    by (simp add: pointer_tokens_def unescape_escape)
qed

text \<open>An added member is found under its pointer, and a pointer that leads elsewhere finds what it found.\<close>

lemma json_at_add: "json_add ks v d = Some d' \<Longrightarrow> json_at ks d' = Some v"
  by (induction ks v d arbitrary: d' rule: json_add.induct) (auto simp: update_conv' split: option.splits)

lemma json_at_add_other:
  "json_add ks v d = Some d' \<Longrightarrow> \<not> prefix ks js \<Longrightarrow> \<not> prefix js ks \<Longrightarrow> json_at js d' = json_at js d"
proof (induction ks v d arbitrary: d' js rule: json_add.induct)
  case (2 k v ms) then show ?case by (cases js) (auto simp: update_conv')
next
  case (3 k k' ks v ms) then show ?case by (cases js) (auto simp: update_conv' split: option.splits)
qed auto

lemma strings_update: "map (apsnd JStr) (AList.update k v m) = AList.update k (JStr v) (map (apsnd JStr) m)"
  by (induction m) auto

lemma strings_inj [simp]: "json_of_strings m = json_of_strings m' \<longleftrightarrow> m = m'"
proof -
  have "inj (map (apsnd JStr) :: string gomap \<Rightarrow> _)"
    by (intro inj_mapI injI) (auto simp: apsnd_def map_prod_def split: prod.splits)
  then show ?thesis by (auto simp: json_of_strings_def inj_def)
qed

lemma carries_unique: "carries doc sel \<Longrightarrow> carries doc sel' \<Longrightarrow> sel = sel'"
  by (cases sel; cases sel') (auto simp: carries_def)

text \<open>The two parents of the pointers exist: the spec for a pod without a selector, the selector otherwise.\<close>

lemma carries_split:
  assumes "carries doc sel"
  obtains ds ms where "doc = JObj ds" "map_of ds ''spec'' = Some (JObj ms)"
    "map_of ms ''nodeSelector'' = map_option json_of_strings sel"
proof -
  obtain ds where d: "doc = JObj ds" using assms by (cases doc) (auto simp: carries_def)
  moreover obtain ms where "map_of ds ''spec'' = Some (JObj ms)"
    using assms d by (auto simp: carries_def split: option.splits)
  ultimately show ?thesis using that assms by (auto simp: carries_def split: option.splits)
qed

lemma patches_add:
  fixes g :: string
  assumes "carries doc (p_node_selector p)"
  defines "sel \<equiv> case p_node_selector p of None \<Rightarrow> [(GPUClassLabel, g)] | Some m \<Rightarrow> AList.update GPUClassLabel g m"
  obtains ks v doc' where "apply_patches (createNodeSelectorPatches p g) doc = Some doc'" "json_add ks v doc = Some doc'"
    "prefix [''spec'', ''nodeSelector''] ks" "carries doc' (Some sel)"
proof (cases "p_node_selector p")
  case None
  obtain ds ms where d: "doc = JObj ds" "map_of ds ''spec'' = Some (JObj ms)" using assms(1) by (rule carries_split)
  show ?thesis
    by (rule that [of "JObj (AList.update ''spec'' (JObj (AList.update ''nodeSelector'' (json_of_strings sel) ms)) ds)"
          "[''spec'', ''nodeSelector'']" "json_of_strings sel"])
       (simp_all add: None d sel_def carries_def createNodeSelectorPatches_def apply_patch_def path_tokens json_of_value_def update_conv')
next
  case (Some m)
  obtain ds ms where d: "doc = JObj ds" "map_of ds ''spec'' = Some (JObj ms)" "map_of ms ''nodeSelector'' = Some (json_of_strings m)"
    using assms(1) unfolding Some by (rule carries_split) simp
  show ?thesis
    by (rule that [of "JObj (AList.update ''spec'' (JObj (AList.update ''nodeSelector'' (json_of_strings sel) ms)) ds)"
          "[''spec'', ''nodeSelector'', GPUClassLabel]" "JStr g"])
       (simp_all add: Some d sel_def carries_def createNodeSelectorPatches_def apply_patch_def path_tokens json_of_value_def
          update_conv' json_of_strings_def strings_update del: append_Cons append_Nil)
qed

lemma patches_applied:
  assumes "carries doc (p_node_selector p)"
  obtains doc' sel where "apply_patches (createNodeSelectorPatches p g) doc = Some doc'" "carries doc' (Some sel)"
    "lookup sel = (selector_of (p_node_selector p))(GPUClassLabel \<mapsto> g)"
    "\<And>js. \<not> prefix js [''spec'', ''nodeSelector''] \<Longrightarrow> \<not> prefix [''spec'', ''nodeSelector''] js \<Longrightarrow>
       json_at js doc' = json_at js doc"
proof -
  define sel where "sel = (case p_node_selector p of None \<Rightarrow> [(GPUClassLabel, g)] | Some m \<Rightarrow> AList.update GPUClassLabel g m)"
  obtain ks v doc' where a: "apply_patches (createNodeSelectorPatches p g) doc = Some doc'" "json_add ks v doc = Some doc'"
    "prefix [''spec'', ''nodeSelector''] ks" "carries doc' (Some sel)"
    using patches_add [OF assms] unfolding sel_def by blast
  have "json_at js doc' = json_at js doc" if "\<not> prefix js [''spec'', ''nodeSelector'']" "\<not> prefix [''spec'', ''nodeSelector''] js" for js
    using json_at_add_other [OF a(2), of js] that a(3) prefix_order.trans prefix_same_cases by blast
  moreover have "lookup sel = (selector_of (p_node_selector p))(GPUClassLabel \<mapsto> g)"
    by (cases "p_node_selector p") (simp_all add: sel_def selector_of_def update_conv' fun_eq_iff)
  ultimately show ?thesis using that a(1,4) by blast
qed

lemma patches_nonempty: "createNodeSelectorPatches p g \<noteq> []"
  by (simp add: createNodeSelectorPatches_def split: option.splits)

section \<open>Properties\<close>

lemma mutate_pod:
  assumes "rq_kind rq = ''Pod''" and "unmarshal (rq_object rq) = Inr p"
  shows "mutate unmarshal client (Some rq) =
    (if requestsGPUs p \<and> \<not> hasGPUClassNodeSelector p
     then (case getNamespaceTier client (rq_namespace rq) of
             Inl _ \<Rightarrow> allowed
           | Inr t \<Rightarrow> if getTierGPUClass t = '''' then allowed
                      else allowed\<lparr>ar_patch := Some (createNodeSelectorPatches p (getTierGPUClass t))\<rparr>)
     else allowed)"
  using assms by (simp add: mutate_def patches_nonempty Let_def split: sum.splits)

lemma hasGPUClass_iff: "hasGPUClassNodeSelector p \<longleftrightarrow> GPUClassLabel \<in> dom (selector_of (p_node_selector p))"
  by (auto simp: hasGPUClassNodeSelector_def selector_of_def has_key_def split: option.splits)

text \<open>C25: A pod that decodes is always admitted, and it is patched exactly when one of its containers
  requests a GPU, its selector names no GPU class and the tier label of the namespace is a known tier.
  The patch, applied operation by operation as RFC 6902 says to the document the pod was decoded from,
  succeeds whether or not the pod has a selector: in the resulting document the selector has the class
  of that tier and every entry it had, and a pointer that leads neither to the selector nor into it finds
  what it found.  Of the document it is assumed that it carries the selector the decoder returned: a spec
  that is an object, with the selector as an object of strings, or without that member when it is nil.\<close>

theorem mutate_pins_class:
  fixes client :: ns_client
  assumes "rq_kind rq = ''Pod''" and "unmarshal (rq_object rq) = Inr p" and "carries (rq_object rq) (p_node_selector p)"
  defines "r \<equiv> mutate unmarshal client (Some rq)"
  shows "ar_allowed r \<and>
    (ar_patch r \<noteq> None \<longleftrightarrow> requestsGPUs p \<and> GPUClassLabel \<notin> dom (selector_of (p_node_selector p)) \<and>
       (\<exists>t. getNamespaceTier client (rq_namespace rq) = Inr t \<and> getTierGPUClass t \<noteq> '''')) \<and>
    (\<forall>ps. ar_patch r = Some ps \<longrightarrow> (\<exists>t doc sel. getNamespaceTier client (rq_namespace rq) = Inr t \<and>
       apply_patches ps (rq_object rq) = Some doc \<and> carries doc (Some sel) \<and>
       lookup sel = (selector_of (p_node_selector p))(GPUClassLabel \<mapsto> getTierGPUClass t) \<and>
       (\<forall>js. \<not> prefix js [''spec'', ''nodeSelector''] \<and> \<not> prefix [''spec'', ''nodeSelector''] js \<longrightarrow>
          json_at js doc = json_at js (rq_object rq))))"
proof (intro conjI allI impI)
  have m: "r = (if requestsGPUs p \<and> GPUClassLabel \<notin> dom (selector_of (p_node_selector p))
     then (case getNamespaceTier client (rq_namespace rq) of Inl _ \<Rightarrow> allowed
           | Inr t \<Rightarrow> if getTierGPUClass t = '''' then allowed
                      else allowed\<lparr>ar_patch := Some (createNodeSelectorPatches p (getTierGPUClass t))\<rparr>)
     else allowed)"
    unfolding r_def by (simp add: mutate_pod [of rq unmarshal p client, OF assms(1,2)] hasGPUClass_iff)
  show "ar_allowed r" by (simp add: m allowed_def split: sum.splits)
  show "ar_patch r \<noteq> None \<longleftrightarrow> requestsGPUs p \<and> GPUClassLabel \<notin> dom (selector_of (p_node_selector p)) \<and>
       (\<exists>t. getNamespaceTier client (rq_namespace rq) = Inr t \<and> getTierGPUClass t \<noteq> '''')"
    by (simp add: m allowed_def split: sum.splits)
  fix ps assume "ar_patch r = Some ps"
  then obtain t where t: "getNamespaceTier client (rq_namespace rq) = Inr t" "ps = createNodeSelectorPatches p (getTierGPUClass t)"
    by (auto simp: m allowed_def split: if_splits sum.splits)
  obtain doc sel where "apply_patches ps (rq_object rq) = Some doc" "carries doc (Some sel)"
    "lookup sel = (selector_of (p_node_selector p))(GPUClassLabel \<mapsto> getTierGPUClass t)"
    "\<And>js. \<not> prefix js [''spec'', ''nodeSelector''] \<Longrightarrow> \<not> prefix [''spec'', ''nodeSelector''] js \<Longrightarrow>
       json_at js doc = json_at js (rq_object rq)"
    unfolding t(2) by (rule patches_applied [OF assms(3), of "getTierGPUClass t"]) blast
  then show "\<exists>t doc sel. getNamespaceTier client (rq_namespace rq) = Inr t \<and>
       apply_patches ps (rq_object rq) = Some doc \<and> carries doc (Some sel) \<and>
       lookup sel = (selector_of (p_node_selector p))(GPUClassLabel \<mapsto> getTierGPUClass t) \<and>
       (\<forall>js. \<not> prefix js [''spec'', ''nodeSelector''] \<and> \<not> prefix [''spec'', ''nodeSelector''] js \<longrightarrow>
          json_at js doc = json_at js (rq_object rq))"
    using t(1) by blast
qed

definition ex_tier_ns :: ns_client where
  "ex_tier_ns ns = (if ns = ''ml'' then Inr [(TenantTierLabel, ''Gold'')] else Inl ''not found'')"

definition ex_wpod :: pod where
  "ex_wpod = empty_pod \<lparr>p_containers := [\<lparr>c_image = '''', c_requests = [],
      c_limits = [(''nvidia.com/gpu'', \<lparr>q_milli = 1000, q_value = 1, q_is_zero = False\<rparr>)]\<rparr>],
     p_node_selector := Some [(''zone'', ''a'')]\<rparr>"

definition ex_wdoc :: json where
  "ex_wdoc = JObj [(''kind'', JStr ''Pod''), (''spec'', JObj [(''containers'', JOther 0), (''nodeSelector'', JObj [(''zone'', JStr ''a'')])])]"

definition ex_request :: "json request" where
  "ex_request = \<lparr>rq_uid = ''u1'', rq_kind = ''Pod'', rq_namespace = ''ml'', rq_object = ex_wdoc\<rparr>"

lemma ex_request_facts:
  "rq_kind ex_request = ''Pod''" "rq_namespace ex_request = ''ml''" "rq_object ex_request = ex_wdoc"
  "carries ex_wdoc (p_node_selector ex_wpod)" "requestsGPUs ex_wpod" "\<not> hasGPUClassNodeSelector ex_wpod"
  "selector_of (p_node_selector ex_wpod) = [''zone'' \<mapsto> ''a'']"
  "getNamespaceTier ex_tier_ns ''ml'' = Inr ''gold''" "getTierGPUClass ''gold'' = ''h100''"
proof -
  show "carries ex_wdoc (p_node_selector ex_wpod)"
    by (simp add: carries_def ex_wdoc_def ex_wpod_def json_of_strings_def)
  show "requestsGPUs ex_wpod" "\<not> hasGPUClassNodeSelector ex_wpod"
    "getNamespaceTier ex_tier_ns ''ml'' = Inr ''gold''" "getTierGPUClass ''gold'' = ''h100''" by code_simp+
qed (simp_all add: ex_request_def ex_wpod_def selector_of_def)

lemma mutate_pins_class_witness:
  "\<exists>ps doc sel. ar_patch (mutate (\<lambda>_. Inr ex_wpod) ex_tier_ns (Some ex_request)) = Some ps \<and>
     apply_patches ps ex_wdoc = Some doc \<and> carries doc (Some sel) \<and>
     lookup sel = [''zone'' \<mapsto> ''a'', GPUClassLabel \<mapsto> ''h100''] \<and> json_at [''kind''] doc = Some (JStr ''Pod'')"
proof -
  note f = ex_request_facts
  have d: "GPUClassLabel \<notin> dom (selector_of (p_node_selector ex_wpod))"
    using f(6) by (simp only: hasGPUClass_iff not_False_eq_True)
  have k: "json_at [''kind''] ex_wdoc = Some (JStr ''Pod'')" "\<not> prefix [''kind''] [''spec'', ''nodeSelector'']"
    "\<not> prefix [''spec'', ''nodeSelector''] [''kind'']" by (simp_all add: ex_wdoc_def)
  have c: "carries (rq_object ex_request) (p_node_selector ex_wpod)" by (simp add: f(3,4))
  from mutate_pins_class [of ex_request "\<lambda>_. Inr ex_wpod" ex_wpod ex_tier_ns, OF f(1) refl c] d f(5) k
  show ?thesis unfolding f(2,3,7,8) sum.inject by (metis f(9) list.distinct(1) not_None_eq)
qed

text \<open>The webhook is idempotent: called again on the document its own patch produced, it admits the pod
  decoded from it without a patch.\<close>

theorem mutate_idempotent:
  assumes "rq_kind rq = ''Pod''" and "unmarshal (rq_object rq) = Inr p" and "carries (rq_object rq) (p_node_selector p)"
    and "ar_patch (mutate unmarshal client (Some rq)) = Some ps" and "apply_patches ps (rq_object rq) = Some (rq_object rq')"
    and "rq_kind rq' = ''Pod''" and "unmarshal (rq_object rq') = Inr p'" and "carries (rq_object rq') (p_node_selector p')"
  shows "mutate unmarshal client (Some rq') = allowed"
proof -
  obtain g where g: "ps = createNodeSelectorPatches p g"
    using assms(4) mutate_pod [of rq unmarshal p client, OF assms(1,2)] by (auto simp: allowed_def split: if_splits sum.splits)
  obtain sel where "carries (rq_object rq') (Some sel)" "lookup sel = (selector_of (p_node_selector p))(GPUClassLabel \<mapsto> g)"
    using patches_applied [OF assms(3), of g] assms(5) unfolding g by (metis option.inject)
  then have "GPUClassLabel \<in> dom (selector_of (p_node_selector p'))"
    using carries_unique [OF assms(8)] by (simp add: selector_of_def)
  then show ?thesis using mutate_pod [of rq' unmarshal p' client, OF assms(6,7)] by (simp add: hasGPUClass_iff)
qed

lemma mutate_idempotent_witness:
  "\<exists>ps doc p'. apply_patches ps ex_wdoc = Some doc \<and> ps \<noteq> [] \<and>
     mutate (\<lambda>d. Inr (if d = ex_wdoc then ex_wpod else p')) ex_tier_ns (Some (ex_request\<lparr>rq_object := doc\<rparr>)) = allowed"
proof -
  note f = ex_request_facts
  define ps where "ps = createNodeSelectorPatches ex_wpod ''h100''"
  obtain doc sel where d: "apply_patches ps (rq_object ex_request) = Some doc" "carries doc (Some sel)"
    "lookup sel = (selector_of (p_node_selector ex_wpod))(GPUClassLabel \<mapsto> ''h100'')"
    using patches_applied [OF f(4), of "''h100''"] unfolding ps_def f(3) by metis
  define un :: "json \<Rightarrow> string + pod" where "un d = Inr (if d = ex_wdoc then ex_wpod else ex_wpod\<lparr>p_node_selector := Some sel\<rparr>)" for d
  have "doc \<noteq> ex_wdoc" using d(2,3) f(4,7) carries_unique [of ex_wdoc]
    by (metis GPUClassLabel_def f(6) fun_upd_same hasGPUClass_iff domI option.simps(5) selector_of_def)
  then have u: "un (rq_object ex_request) = Inr ex_wpod" "un doc = Inr (ex_wpod\<lparr>p_node_selector := Some sel\<rparr>)" by (simp_all add: un_def f(3))
  have "ar_patch (mutate un ex_tier_ns (Some ex_request)) = Some ps"
    using f mutate_pod [of ex_request un ex_wpod ex_tier_ns, OF f(1) u(1)] by (simp add: ps_def)
  from mutate_idempotent [of ex_request un ex_wpod ex_tier_ns ps "ex_request\<lparr>rq_object := doc\<rparr>", OF f(1) u(1) _ this]
  have "mutate un ex_tier_ns (Some (ex_request\<lparr>rq_object := doc\<rparr>)) = allowed"
    using f(1,3,4) u(2) d(1,2) by simp
  then show ?thesis using d(1) f(3) patches_nonempty [of ex_wpod "''h100''"] unfolding un_def ps_def by metis
qed

text \<open>The pointer of the patch is well formed for every key: a reader that follows RFC 6901 splits it
  into three reference tokens and reads the key back, however many \<^verbatim>\<open>/\<close> and \<^verbatim>\<open>~\<close> it has.\<close>

theorem escapeJSONPointer_roundtrip:
  "pointer_tokens (''/spec/nodeSelector/'' @ escapeJSONPointer s) = [''spec'', ''nodeSelector'', s]"
  by (rule path_tokens(2))

end
