(* ===== verification/WebhookServer.thy ===== *)
theory WebhookServer
  imports Webhook
begin

text \<open>
  \<^verbatim>\<open>cmd/webhook/main.go\<close>: the process that serves the admission webhook.  Two goroutines run, the
  main one and the one that listens; they share the flag \<^verbatim>\<open>ready\<close> and the server.  Every call that
  leaves the program (the cluster's configuration, the clientset, the certificates, listening, shutting down) may
  succeed or fail, which is a choice of the step relation, as are the moments at which requests come in and are
  finished and seconds pass.

  \<^verbatim>\<open>Shutdown\<close> of \<^verbatim>\<open>net/http\<close> closes the listener, waits until no request is being handled and returns
  the error of closing the listener, or that of its context when the context expires first; \<^verbatim>\<open>ListenAndServeTLS\<close>
  then returns \<^verbatim>\<open>ErrServerClosed\<close>, which the listening goroutine ignores.  \<^verbatim>\<open>Close\<close> cuts the requests
  that are still handled.  A signal that comes before \<^verbatim>\<open>signal.Notify\<close> kills the process, as Go does by
  default.
\<close>

section \<open>State\<close>

text \<open>Where the main goroutine is: the call it makes next, or, when it drains, the call of \<^verbatim>\<open>Shutdown\<close> it is in.\<close>

datatype main_pc = ReadConfig | NewClientset | LoadCerts | StartServer | StoreReady | NotifySignals | AwaitSignal |
  ShutDown | Draining | ForceClose | Returned

datatype server_pc = NotStarted | Starting | Serving | Closed

datatype process_end = Exit nat | Killed

text \<open>The requests being handled, the seconds the context of the shutdown has left, and the requests cut by
  \<^verbatim>\<open>Close\<close>.\<close>

record webhook_process =
  wp_main :: main_pc
  wp_server :: server_pc
  wp_ready :: bool
  wp_end :: "process_end option"
  wp_active :: nat
  wp_deadline :: nat
  wp_cut :: nat

definition initial_process :: webhook_process where
  "initial_process = \<lparr>wp_main = ReadConfig, wp_server = NotStarted, wp_ready = False, wp_end = None,
     wp_active = 0, wp_deadline = 0, wp_cut = 0\<rparr>"

definition os_exit :: "process_end \<Rightarrow> webhook_process \<Rightarrow> webhook_process" where
  "os_exit e w = w\<lparr>wp_end := Some e\<rparr>"

section \<open>Steps\<close>

text \<open>The main goroutine; \<^verbatim>\<open>ok\<close> says whether the call it makes succeeds.\<close>

fun main_step :: "bool \<Rightarrow> webhook_process \<Rightarrow> webhook_process" where
  "main_step ok w =
     (case wp_main w of
        ReadConfig \<Rightarrow> if ok then w\<lparr>wp_main := NewClientset\<rparr> else os_exit (Exit 1) w
      | NewClientset \<Rightarrow> if ok then w\<lparr>wp_main := LoadCerts\<rparr> else os_exit (Exit 1) w
      | LoadCerts \<Rightarrow> if ok then w\<lparr>wp_main := StartServer\<rparr> else os_exit (Exit 1) w
      | StartServer \<Rightarrow> w\<lparr>wp_main := StoreReady, wp_server := Starting\<rparr>
      | StoreReady \<Rightarrow> w\<lparr>wp_main := NotifySignals, wp_ready := True\<rparr>
      | NotifySignals \<Rightarrow> w\<lparr>wp_main := AwaitSignal\<rparr>
      | AwaitSignal \<Rightarrow> w
      | ShutDown \<Rightarrow> w\<lparr>wp_main := Draining, wp_server := Closed, wp_deadline := 15\<rparr>
      | Draining \<Rightarrow> if wp_active w = 0 then w\<lparr>wp_main := (if ok then Returned else ForceClose)\<rparr>
                     else if wp_deadline w = 0 then w\<lparr>wp_main := ForceClose\<rparr>
                     else w
      | ForceClose \<Rightarrow> w\<lparr>wp_main := Returned, wp_cut := wp_cut w + wp_active w, wp_active := 0\<rparr>
      | Returned \<Rightarrow> os_exit (Exit 0) w)"

text \<open>The listening goroutine: it binds the port and serves, or fails, at first or later.\<close>

fun listen_step :: "bool \<Rightarrow> webhook_process \<Rightarrow> webhook_process" where
  "listen_step ok w =
     (case wp_server w of
        Starting \<Rightarrow> if ok then w\<lparr>wp_server := Serving\<rparr> else os_exit (Exit 1) w
      | Serving \<Rightarrow> if ok then w else os_exit (Exit 1) w
      | _ \<Rightarrow> w)"

fun signal_step :: "webhook_process \<Rightarrow> webhook_process" where
  "signal_step w =
     (case wp_main w of
        AwaitSignal \<Rightarrow> w\<lparr>wp_main := ShutDown\<rparr>
      | ShutDown \<Rightarrow> w | Draining \<Rightarrow> w | ForceClose \<Rightarrow> w | Returned \<Rightarrow> w
      | _ \<Rightarrow> os_exit Killed w)"

text \<open>A request comes in while the server serves, a handler finishes, a second passes.\<close>

fun accept_step :: "webhook_process \<Rightarrow> webhook_process" where
  "accept_step w = (if wp_server w = Serving then w\<lparr>wp_active := wp_active w + 1\<rparr> else w)"

fun finish_step :: "webhook_process \<Rightarrow> webhook_process" where
  "finish_step w = w\<lparr>wp_active := wp_active w - 1\<rparr>"

fun tick_step :: "webhook_process \<Rightarrow> webhook_process" where
  "tick_step w = w\<lparr>wp_deadline := wp_deadline w - 1\<rparr>"

datatype process_event = Main bool | Listen bool | Signal | Accept | Finish | Tick

fun handle_event :: "process_event \<Rightarrow> webhook_process \<Rightarrow> webhook_process" where
  "handle_event (Main ok) w = main_step ok w"
| "handle_event (Listen ok) w = listen_step ok w"
| "handle_event Signal w = signal_step w"
| "handle_event Accept w = accept_step w"
| "handle_event Finish w = finish_step w"
| "handle_event Tick w = tick_step w"

text \<open>A process that has ended makes no step; the events of a run happen in the order of the list, whatever it is.\<close>

definition process_steps :: "process_event list \<Rightarrow> webhook_process \<Rightarrow> webhook_process" where
  "process_steps es w = foldl (\<lambda>w e. if wp_end w = None then handle_event e w else w) w es"

inductive process_step :: "webhook_process \<Rightarrow> webhook_process \<Rightarrow> bool" where
  event: "wp_end w = None \<Longrightarrow> process_step w (handle_event e w)"

inductive_cases process_stepE: "process_step w w'"

section \<open>Requests\<close>

definition healthzHandler :: "nat \<times> string" where
  "healthzHandler = (200, ''ok'')"

definition readyzHandler :: "bool \<Rightarrow> nat \<times> string" where
  "readyzHandler ready = (if \<not> ready then (503, ''not ready'') else (200, ''ready''))"

datatype http_answer = Plain nat string | Review response

text \<open>The routes of the multiplexer, which answers 404 to any other path; only a process that serves answers.\<close>

definition serve ::
  "('b \<Rightarrow> string + 'raw request option) \<Rightarrow> ('raw \<Rightarrow> string + pod) \<Rightarrow> ns_client \<Rightarrow> webhook_process \<Rightarrow> string \<Rightarrow> 'b
     \<Rightarrow> http_answer option" where
  "serve decode unmarshal client w path body =
     (if wp_end w \<noteq> None \<or> wp_server w \<noteq> Serving then None
      else Some
        (if path = ''/mutate-pod''
         then (case Handle decode unmarshal client body of Inl (c, msg) \<Rightarrow> Plain c msg | Inr r \<Rightarrow> Review r)
         else if path = ''/healthz'' then Plain (fst healthzHandler) (snd healthzHandler)
         else if path = ''/readyz'' then Plain (fst (readyzHandler (wp_ready w))) (snd (readyzHandler (wp_ready w)))
         else Plain 404 ''404 page not found''))"

section \<open>Invariant\<close>

definition started :: "main_pc \<Rightarrow> bool" where
  "started pc \<longleftrightarrow> pc \<notin> {ReadConfig, NewClientset, LoadCerts, StartServer}"

definition process_ok :: "webhook_process \<Rightarrow> bool" where
  "process_ok w \<longleftrightarrow>
     (wp_server w \<noteq> NotStarted \<longleftrightarrow> started (wp_main w)) \<and>
     (wp_ready w \<longleftrightarrow> started (wp_main w) \<and> wp_main w \<noteq> StoreReady) \<and>
     (wp_server w = Closed \<longleftrightarrow> wp_main w \<in> {Draining, ForceClose, Returned}) \<and>
     (wp_end w = Some (Exit 0) \<longrightarrow> wp_main w = Returned) \<and>
     (wp_end w = Some Killed \<longrightarrow> wp_main w \<notin> {AwaitSignal, ShutDown, Draining, ForceClose, Returned}) \<and>
     (\<forall>n. wp_end w = Some (Exit n) \<longrightarrow> n \<le> 1) \<and>
     wp_deadline w \<le> 15 \<and> (wp_main w \<noteq> Returned \<longrightarrow> wp_cut w = 0)"

lemma initial_ok: "process_ok initial_process"
  by (simp add: process_ok_def initial_process_def started_def)

lemma event_ok: "wp_end w = None \<Longrightarrow> process_ok w \<Longrightarrow> process_ok (handle_event e w)"
  by (cases e; cases "wp_main w"; cases "wp_server w") (auto simp: process_ok_def started_def os_exit_def)

lemma step_ok: "process_step w w' \<Longrightarrow> process_ok w \<Longrightarrow> process_ok w'"
  by (erule process_stepE) (simp add: event_ok)

lemma reachable_ok: "process_step\<^sup>*\<^sup>* initial_process w \<Longrightarrow> process_ok w"
  by (induction rule: rtranclp_induct) (auto intro: initial_ok step_ok)

section \<open>Properties\<close>

text \<open>C24: every request the webhook takes is taken by a process that has its configuration, its clientset and its
  certificates and has not shut its server down; and the readiness probe is told \<^verbatim>\<open>not ready\<close> by such
  a process in one place only, between the start of the listening goroutine and the store that follows it.\<close>

theorem webhook_answers_when_started:
  assumes "process_step\<^sup>*\<^sup>* initial_process w" "serve decode unmarshal client w path body = Some a"
  shows "wp_end w = None \<and> wp_main w \<in> {StoreReady, NotifySignals, AwaitSignal, ShutDown} \<and>
    serve decode unmarshal client w ''/readyz'' body =
      Some (if wp_main w = StoreReady then Plain 503 ''not ready'' else Plain 200 ''ready'')"
  using reachable_ok [OF assms(1)] assms(2)
  by (cases "wp_main w") (auto simp: process_ok_def started_def serve_def readyzHandler_def split: if_splits)

lemma process_steps_simps [simp]:
  "process_steps [] w = w"
  "process_steps (e # es) w = process_steps es (if wp_end w = None then handle_event e w else w)"
  "process_steps (es @ es') w = process_steps es' (process_steps es w)"
  by (simp_all add: process_steps_def)

lemma process_steps_ended [simp]: "wp_end w \<noteq> None \<Longrightarrow> process_steps es w = w"
  by (induction es) auto
















text \<open>Three calls that succeed, the start of the server and the store.\<close>

definition ready_process :: webhook_process where
  "ready_process = main_step True (main_step True (main_step True (main_step True (main_step True initial_process))))"

lemma ready_process: "ready_process = \<lparr>wp_main = NotifySignals, wp_server = Starting, wp_ready = True, wp_end = None,
     wp_active = 0, wp_deadline = 0, wp_cut = 0\<rparr>"
  by (simp add: ready_process_def initial_process_def)

lemma main_reachable:
  "process_step\<^sup>*\<^sup>* initial_process w \<Longrightarrow> wp_end w = None \<Longrightarrow> process_step\<^sup>*\<^sup>* initial_process (main_step ok w)"
  using rtranclp.rtrancl_into_rtrancl [of process_step, OF _ event [of w "Main ok"]] by simp

lemma ready_reachable: "process_step\<^sup>*\<^sup>* initial_process ready_process"
  unfolding ready_process_def by (intro main_reachable rtranclp.rtrancl_refl) (simp_all add: initial_process_def)

text \<open>The flag is raised before the server is known to listen: there is a run in which the process is ready while its
  server has not bound the port, and the next step ends the process because it cannot.\<close>

theorem webhook_ready_too_early:
  "\<exists>w w'. process_step\<^sup>*\<^sup>* initial_process w \<and> wp_ready w \<and> wp_server w = Starting \<and>
     process_step w w' \<and> wp_end w' = Some (Exit 1)"
proof (intro exI conjI)
  show "process_step\<^sup>*\<^sup>* initial_process ready_process"
    by (rule ready_reachable)
  show "process_step ready_process (listen_step False ready_process)"
    using event [of ready_process "Listen False"] by (simp add: ready_process)
qed (simp_all add: ready_process os_exit_def)

definition serving_process :: webhook_process where
  "serving_process = main_step True (listen_step True ready_process)"

lemma serving_process: "serving_process = \<lparr>wp_main = AwaitSignal, wp_server = Serving, wp_ready = True, wp_end = None,
     wp_active = 0, wp_deadline = 0, wp_cut = 0\<rparr>"
  by (simp add: serving_process_def ready_process)

lemma serving_reachable: "process_step\<^sup>*\<^sup>* initial_process serving_process"
proof -
  have "process_step ready_process (listen_step True ready_process)"
    using event [of ready_process "Listen True"] by (simp add: ready_process)
  moreover have "process_step (listen_step True ready_process) serving_process"
    unfolding serving_process_def using event [of "listen_step True ready_process" "Main True"] by (simp add: ready_process)
  ultimately show ?thesis
    using ready_reachable by (meson rtranclp.rtrancl_into_rtrancl)
qed

text \<open>The liveness probe of a process that awaits signals.\<close>

theorem webhook_answers_when_started_witness:
  "serve (\<lambda>b. Inl b) (\<lambda>r. Inl r) (\<lambda>ns. Inl ns) serving_process ''/readyz'' '''' = Some (Plain 200 ''ready'')"
proof -
  have "serve (\<lambda>b. Inl b) (\<lambda>r. Inl r) (\<lambda>ns. Inl ns) serving_process ''/healthz'' '''' = Some (Plain 200 ''ok'')"
    by (simp add: serve_def serving_process healthzHandler_def)
  from webhook_answers_when_started [OF serving_reachable this] show ?thesis
    by (simp add: serving_process)
qed


end
