(* ===== verification/CacheThreads.thy ===== *)
theory CacheThreads
  imports Coscheduling
begin

text \<open>
  The cache of pod groups under its two goroutines: the scheduling queue, which looks entries up and
  inserts them while it compares pods (under the queue's lock, so one comparison at a time), and the
  cleanup.  \<^verbatim>\<open>Coscheduling\<close> takes each operation as one step; here every call on the
  \<^verbatim>\<open>sync.Map\<close> and on the atomic counter is a step of its own, with the program counter of each
  goroutine in the state.  A \<^verbatim>\<open>Range\<close> visits what the map holds when it begins, one of the
  orders of events its documentation admits.

  A run counts the calls of \<^verbatim>\<open>Delete\<close> that find nothing.  Alone, a goroutine does what the atomic
  operation does; together they lose count.
\<close>

section \<open>Steps\<close>

text \<open>
  Where the queue stands in \<^verbatim>\<open>getPodGroupInfoFromQueued\<close>: after the lookup that missed, in the
  loop of the eviction (iterations left, index, snapshot) before a \<^verbatim>\<open>Delete\<close> or before the decrement
  that follows it, before \<^verbatim>\<open>LoadOrStore\<close>, before the increment.  The cleanup stands before its next
  entry, or before the decrement for the entry it deleted.
\<close>

datatype queue_pc =
    QIdle
  | QMiss queued
  | QEvict nat nat "(string \<times> time) list" queued
  | QDecr nat nat "(string \<times> time) list" queued
  | QStore queued
  | QIncr

datatype cleaner_pc =
    CIdle
  | CSweep time "(string \<times> pg_entry) list"
  | CDecr time "(string \<times> pg_entry) list"

type_synonym conc = "pg_state \<times> queue_pc \<times> cleaner_pc"

definition map_delete :: "string \<Rightarrow> pg_state \<Rightarrow> pg_state" where
  "map_delete k st = st\<lparr>podGroupInfos := filter (\<lambda>(k', _). k' \<noteq> k) (podGroupInfos st)\<rparr>"

definition count_add :: "int \<Rightarrow> pg_state \<Rightarrow> pg_state" where
  "count_add n st = st\<lparr>podGroupCount := podGroupCount st + n\<rparr>"

definition missing :: "string \<Rightarrow> pg_state \<Rightarrow> nat" where
  "missing k st = (if has_key (podGroupInfos st) k then 0 else 1)"

definition evict_snapshot :: "pg_state \<Rightarrow> (string \<times> time) list" where
  "evict_snapshot st = map (\<lambda>(k, i). (k, pe_last_update i)) (podGroupInfos st)"

definition evict_count :: "pg_state \<Rightarrow> nat" where
  "evict_count st = (let c = length (evict_snapshot st) div 5 in if c < 1 then 1 else c)"

definition new_entry :: "time \<Rightarrow> queued \<Rightarrow> string \<Rightarrow> int \<Rightarrow> pg_entry" where
  "new_entry now q podGroupName minAvailable =
     \<lparr>pe_name = podGroupName, pe_namespace = p_ns (q_pod q), pe_min_available = minAvailable,
      pe_timestamp = q_timestamp q, pe_last_update = now\<rparr>"

text \<open>The second argument is 1 for a \<^verbatim>\<open>Delete\<close> that finds nothing and 0 for every other step.\<close>

inductive conc_step :: "conc \<Rightarrow> nat \<Rightarrow> conc \<Rightarrow> bool" where
  q_miss: "gang_key (q_pod q) = Some k \<Longrightarrow> lookup (podGroupInfos st) k = None \<Longrightarrow>
     conc_step (st, QIdle, c) 0 (st, QMiss q, c)"
| q_room: "podGroupCount st < maxPodGroupEntries \<Longrightarrow> conc_step (st, QMiss q, c) 0 (st, QStore q, c)"
| q_full: "podGroupCount st \<ge> maxPodGroupEntries \<Longrightarrow>
     conc_step (st, QMiss q, c) 0 (st, QEvict (evict_count st) 0 (evict_snapshot st) q, c)"
| q_delete: "i < length es \<Longrightarrow> es' = swap es i (oldest_idx es i) \<Longrightarrow> k = fst (es' ! i) \<Longrightarrow>
     conc_step (st, QEvict (Suc n) i es q, c) (missing k st) (map_delete k st, QDecr n (i + 1) es' q, c)"
| q_decr: "conc_step (st, QDecr n i es q, c) 0 (count_add (- 1) st, QEvict n i es q, c)"
| q_evicted: "n = 0 \<or> i \<ge> length es \<Longrightarrow> conc_step (st, QEvict n i es q, c) 0 (st, QStore q, c)"
| q_store: "pg_labels (q_pod q) = Inr (g, m) \<Longrightarrow> k = GetPodGroupKey (p_ns (q_pod q)) g \<Longrightarrow>
     lookup (podGroupInfos st) k = None \<Longrightarrow>
     conc_step (st, QStore q, c) 0 (st\<lparr>podGroupInfos := (k, new_entry now q g m) # podGroupInfos st\<rparr>, QIncr, c)"
| q_loaded: "gang_key (q_pod q) = Some k \<Longrightarrow> lookup (podGroupInfos st) k \<noteq> None \<Longrightarrow>
     conc_step (st, QStore q, c) 0 (st, QIdle, c)"
| q_incr: "conc_step (st, QIncr, c) 0 (count_add 1 st, QIdle, c)"
| c_tick: "conc_step (st, p, CIdle) 0 (st, p, CSweep now (podGroupInfos st))"
| c_fresh: "\<not> stale now e \<Longrightarrow> conc_step (st, p, CSweep now ((k, e) # todo)) 0 (st, p, CSweep now todo)"
| c_delete: "stale now e \<Longrightarrow>
     conc_step (st, p, CSweep now ((k, e) # todo)) (missing k st) (map_delete k st, p, CDecr now todo)"
| c_decr: "conc_step (st, p, CDecr now todo) 0 (count_add (- 1) st, p, CSweep now todo)"
| c_done: "conc_step (st, p, CSweep now []) 0 (st, p, CIdle)"

inductive conc_run :: "conc \<Rightarrow> nat \<Rightarrow> conc \<Rightarrow> bool" where
  run_refl: "conc_run s 0 s"
| run_step: "conc_run s d s' \<Longrightarrow> conc_step s' e s'' \<Longrightarrow> conc_run s (d + e) s''"

lemma run_trans: "conc_run s' e s'' \<Longrightarrow> conc_run s d s' \<Longrightarrow> conc_run s (d + e) s''"
proof (induction rule: conc_run.induct)
  case (run_step s' e t f u)
  then show ?case using conc_run.run_step [of s "d + e" t f u] by (simp add: add.assoc)
qed simp

lemma run_single: "conc_step s e s' \<Longrightarrow> conc_run s e s'"
  using run_step [OF run_refl] by simp

lemma run_first: "conc_step s e s' \<Longrightarrow> conc_run s' d s'' \<Longrightarrow> conc_run s (e + d) s''"
  by (rule run_trans [OF _ run_single])

lemmas run_quiet = run_first [where e = 0, simplified]

section \<open>Exact accounting\<close>

text \<open>What the goroutines still owe the counter.\<close>

definition owed :: "queue_pc \<Rightarrow> cleaner_pc \<Rightarrow> int" where
  "owed p c = (case p of QDecr n i es q \<Rightarrow> 1 | QIncr \<Rightarrow> - 1 | _ \<Rightarrow> 0) + (case c of CDecr now todo \<Rightarrow> 1 | _ \<Rightarrow> 0)"

definition accounted :: "int \<Rightarrow> conc \<Rightarrow> bool" where
  "accounted d s \<longleftrightarrow> (case s of (st, p, c) \<Rightarrow> distinct (map fst (podGroupInfos st)) \<and>
     podGroupCount st + d = int (length (podGroupInfos st)) + owed p c)"

lemma length_delete:
  "distinct (map fst xs) \<Longrightarrow> int (length (filter (\<lambda>(k', _). k' \<noteq> k) xs)) = int (length xs) - (if has_key xs k then 1 else 0)"
proof (cases "k \<in> fst ` set xs")
  case True
  then have "has_key xs k" by (metis has_key_def map_of_eq_None_iff)
  moreover assume "distinct (map fst xs)"
  ultimately show ?thesis using length_filter_keys [of xs "[k]"] True by (simp add: case_prod_beta)
next
  case False
  then have "filter (\<lambda>(k', _). k' \<noteq> k) xs = xs" by (intro filter_True) (auto simp: image_iff)
  moreover have "\<not> has_key xs k" using False by (simp add: has_key_def map_of_eq_None_iff)
  ultimately show ?thesis by simp
qed

lemma accounted_delete:
  assumes "distinct (map fst (podGroupInfos st))"
  shows "distinct (map fst (podGroupInfos (map_delete k st)))"
    and "int (length (podGroupInfos (map_delete k st))) = int (length (podGroupInfos st)) - 1 + int (missing k st)"
    and "podGroupCount (map_delete k st) = podGroupCount st"
  using assms length_delete [OF assms, of k] by (auto simp: map_delete_def missing_def distinct_map_filter)

lemma accounted_step:
  assumes "conc_step s e s'" "accounted d s"
  shows "accounted (d + int e) s'"
  using assms
proof (induction rule: conc_step.induct)
  case (q_delete i es es' k st n q c)
  then show ?case using accounted_delete [of st k] by (simp add: accounted_def owed_def)
next
  case (c_delete now e st p k todo)
  then show ?case using accounted_delete [of st k] by (simp add: accounted_def owed_def)
qed (auto simp: accounted_def owed_def count_add_def map_of_eq_None_iff)

lemma accounted_run: "conc_run s e s' \<Longrightarrow> accounted d s \<Longrightarrow> accounted (d + int e) s'"
proof (induction rule: conc_run.induct)
  case (run_step s d' t e u)
  then show ?case using accounted_step [OF run_step.hyps(2), of "d + int d'"] by (simp add: add.assoc)
qed simp

section \<open>Each goroutine alone\<close>

text \<open>
  A run all of whose states satisfy a predicate.  The queue runs alone while the program counter of the
  cleanup does not move, and the cleanup while that of the queue does not; every step moves one of the two.
\<close>

inductive run_within :: "(conc \<Rightarrow> bool) \<Rightarrow> conc \<Rightarrow> nat \<Rightarrow> conc \<Rightarrow> bool" for P where
  within_refl: "P s \<Longrightarrow> run_within P s 0 s"
| within_step: "run_within P s d s' \<Longrightarrow> conc_step s' e s'' \<Longrightarrow> P s'' \<Longrightarrow> run_within P s (d + e) s''"

definition queue_alone :: "cleaner_pc \<Rightarrow> conc \<Rightarrow> nat \<Rightarrow> conc \<Rightarrow> bool" where
  "queue_alone c = run_within (\<lambda>s. snd (snd s) = c)"

definition cleanup_alone :: "queue_pc \<Rightarrow> conc \<Rightarrow> nat \<Rightarrow> conc \<Rightarrow> bool" where
  "cleanup_alone p = run_within (\<lambda>s. fst (snd s) = p)"

lemma within_run: "run_within P s d s' \<Longrightarrow> conc_run s d s'"
  by (induction rule: run_within.induct) (auto intro: conc_run.intros)

lemma within_trans: "run_within P s' e s'' \<Longrightarrow> run_within P s d s' \<Longrightarrow> run_within P s (d + e) s''"
proof (induction rule: run_within.induct)
  case (within_step s' e t f u)
  then show ?case using run_within.within_step [where P = P and s = s and d = "d + e" and s' = t and e = f and s'' = u] by (simp add: add.assoc)
qed simp

lemma within_first: "P s \<Longrightarrow> conc_step s e s' \<Longrightarrow> P s' \<Longrightarrow> run_within P s' d s'' \<Longrightarrow> run_within P s (e + d) s''"
  using within_trans [OF _ within_step [OF within_refl]] by fastforce

lemma within_last: "run_within P s d s' \<Longrightarrow> P s'"
  by (induction rule: run_within.induct)

lemma queue_first:
  "conc_step (st, p, c) e (st', p', c) \<Longrightarrow> queue_alone c (st', p', c) d s \<Longrightarrow> queue_alone c (st, p, c) (e + d) s"
  unfolding queue_alone_def by (rule within_first) simp_all

lemma cleanup_first:
  "conc_step (st, p, c) e (st', p, c') \<Longrightarrow> cleanup_alone p (st', p, c') d s \<Longrightarrow> cleanup_alone p (st, p, c) (e + d) s"
  unfolding cleanup_alone_def by (rule within_first) simp_all

lemmas queue_quiet = queue_first [where e = 0, simplified]
lemmas cleanup_quiet = cleanup_first [where e = 0, simplified]

lemma alone_refl: "queue_alone c (st, p, c) 0 (st, p, c)" "cleanup_alone p (st, p, c) 0 (st, p, c)"
  by (simp_all add: queue_alone_def cleanup_alone_def within_refl)

lemma alone_trans:
  "queue_alone c s d s' \<Longrightarrow> queue_alone c s' e s'' \<Longrightarrow> queue_alone c s (d + e) s''"
  "cleanup_alone p s d s' \<Longrightarrow> cleanup_alone p s' e s'' \<Longrightarrow> cleanup_alone p s (d + e) s''"
  by (simp_all add: queue_alone_def cleanup_alone_def within_trans)

lemma alone_run: "queue_alone c s d s' \<Longrightarrow> conc_run s d s'" "cleanup_alone p s d s' \<Longrightarrow> conc_run s d s'"
  by (auto simp: queue_alone_def cleanup_alone_def intro: within_run)

lemma delete_entry_steps: "delete_entry k st = count_add (- 1) (map_delete k st)"
  by (simp add: delete_entry_def count_add_def map_delete_def)

lemma evict_loop_step:
  assumes "i < length es" "es' = swap es i (oldest_idx es i)" "k = fst (es' ! i)"
  shows "evict_loop (Suc n) i es st = evict_loop n (i + 1) es' (count_add (- 1) (map_delete k st))"
  using assms by (simp add: Let_def delete_entry_steps)

lemma evict_loop_end: "n = 0 \<or> i \<ge> length es \<Longrightarrow> evict_loop n i es st = st"
  by (cases n) auto

lemma evictOldest_loop: "evictOldestEntries st = evict_loop (evict_count st) 0 (evict_snapshot st) st"
  by (simp add: evictOldestEntries_def evict_count_def evict_snapshot_def Let_def)

lemma evict_alone: "\<exists>d. queue_alone c (st, QEvict n i es q, c) d (evict_loop n i es st, QStore q, c)"
proof (induction n i es st rule: evict_loop.induct)
  case (1 i es st)
  show ?case using queue_quiet [OF q_evicted [of 0 es i st q c] alone_refl(1)] by auto
next
  case (2 n i es st)
  show ?case
  proof (cases "i < length es")
    case False
    then have "conc_step (st, QEvict (Suc n) i es q, c) 0 (st, QStore q, c)" by (intro q_evicted) simp
    from queue_quiet [OF this alone_refl(1)] False show ?thesis by auto
  next
    case True
    define es' where "es' = swap es i (oldest_idx es i)"
    define k where "k = fst (es' ! i)"
    obtain d where "queue_alone c (delete_entry k st, QEvict n (i + 1) es' q, c) d
        (evict_loop n (i + 1) es' (delete_entry k st), QStore q, c)"
      using "2.IH" [OF True es'_def] by (auto simp: k_def)
    then have "queue_alone c (map_delete k st, QDecr n (i + 1) es' q, c) d (evict_loop n (i + 1) es' (delete_entry k st), QStore q, c)"
      using queue_quiet [OF q_decr] by (simp add: delete_entry_steps)
    from queue_first [OF q_delete [OF True es'_def k_def] this] show ?thesis
      using True by (auto simp: es'_def k_def Let_def)
  qed
qed

definition sweep_entry :: "time \<Rightarrow> pg_state \<Rightarrow> string \<times> pg_entry \<Rightarrow> pg_state" where
  "sweep_entry now s e = (if stale now (snd e) then delete_entry (fst e) s else s)"

lemma cleanup_tick_sweep: "cleanup_tick now st = foldl (sweep_entry now) st (podGroupInfos st)"
proof -
  have "sweep_entry now = (\<lambda>s (k, i). if time_sub now (pe_last_update i) > staleEntryTTL then delete_entry k s else s)"
    by (intro ext) (auto simp: sweep_entry_def stale_def)
  then show ?thesis by (simp only: cleanup_tick_def)
qed

lemma sweep_alone: "\<exists>d. cleanup_alone p (st, p, CSweep now xs) d (foldl (sweep_entry now) st xs, p, CIdle)"
proof (induction xs arbitrary: st)
  case Nil
  show ?case using cleanup_quiet [OF c_done [of st p now] alone_refl(2)] by auto
next
  case (Cons e xs)
  obtain k i where e: "e = (k, i)" by (cases e)
  obtain d where d: "cleanup_alone p (sweep_entry now st e, p, CSweep now xs) d (foldl (sweep_entry now) (sweep_entry now st e) xs, p, CIdle)"
    using Cons.IH by blast
  show ?case
  proof (cases "stale now i")
    case True
    then have "sweep_entry now st e = count_add (- 1) (map_delete k st)" by (simp add: sweep_entry_def e delete_entry_steps)
    with d have "cleanup_alone p (map_delete k st, p, CDecr now xs) d (foldl (sweep_entry now) st (e # xs), p, CIdle)"
      by (intro cleanup_quiet [OF c_decr]) simp
    from cleanup_first [OF c_delete [OF True] this] show ?thesis by (auto simp: e)
  next
    case False
    then have "cleanup_alone p (st, p, CSweep now (e # xs)) d (foldl (sweep_entry now) st (e # xs), p, CIdle)"
      unfolding e using d by (intro cleanup_quiet [OF c_fresh]) (simp_all add: sweep_entry_def e)
    then show ?thesis by blast
  qed
qed

lemma sweep_all_alone: "\<exists>d. cleanup_alone p (st, p, CIdle) d (cleanup_tick now st, p, CIdle)"
proof -
  obtain d where "cleanup_alone p (st, p, CSweep now (podGroupInfos st)) d (cleanup_tick now st, p, CIdle)"
    using sweep_alone [of p st now "podGroupInfos st"] by (auto simp: cleanup_tick_sweep)
  from cleanup_quiet [OF c_tick this] show ?thesis by blast
qed

text \<open>The misses of a run between two quiet states follow from the counts.\<close>

lemma missed_deletes:
  assumes "conc_run (st, p, c) d (st', p', c')" "owed p' c' = owed p c" "distinct (map fst (podGroupInfos st))"
  shows "int d = (int (length (podGroupInfos st')) - podGroupCount st') - (int (length (podGroupInfos st)) - podGroupCount st)"
proof -
  define d0 where "d0 = int (length (podGroupInfos st)) + owed p c - podGroupCount st"
  have "accounted d0 (st, p, c)" using assms(3) by (simp add: accounted_def d0_def)
  from accounted_run [OF assms(1) this] show ?thesis using assms(2) by (simp add: accounted_def d0_def)
qed

lemma run_no_miss:
  assumes "conc_run (st, p, c) d (st', p, c)" "pg_wf st" "pg_wf st'"
  shows "d = 0"
  using missed_deletes [OF assms(1) refl] assms by (auto simp: pg_wf_def)

text \<open>What a call that misses leaves: the room that is made, the entry, the increment.\<close>

definition make_room :: "pg_state \<Rightarrow> pg_state" where
  "make_room st = (if podGroupCount st \<ge> maxPodGroupEntries then evictOldestEntries st else st)"

definition misses :: "queued \<Rightarrow> pg_state \<Rightarrow> bool" where
  "misses q st \<longleftrightarrow> (\<exists>k. gang_key (q_pod q) = Some k \<and> lookup (podGroupInfos st) k = None)"

lemma make_room_none:
  "pg_wf st \<Longrightarrow> lookup (podGroupInfos st) k = None \<Longrightarrow> lookup (podGroupInfos (make_room st)) k = None"
  using evictOldestEntries_sub [of st] by (auto simp: make_room_def pg_wf_def map_of_eq_None_iff)

lemma gang_key_labels:
  assumes "gang_key p = Some k"
  obtains g m where "pg_labels p = Inr (g, m)" "g \<noteq> ''''" "m > 1" "k = GetPodGroupKey (p_ns p) g"
  using assms by (auto simp: gang_key_def split: sum.splits prod.splits if_splits)

lemma getPodGroupInfo_store:
  assumes "pg_wf st" "misses q st" "pg_labels (q_pod q) = Inr (g, m)" "k = GetPodGroupKey (p_ns (q_pod q)) g"
  shows "lookup (podGroupInfos (make_room st)) k = None"
    and "snd (getPodGroupInfoFromQueued now q st) =
      count_add 1 ((make_room st)\<lparr>podGroupInfos := (k, new_entry now q g m) # podGroupInfos (make_room st)\<rparr>)"
proof -
  obtain k' where k': "gang_key (q_pod q) = Some k'" "lookup (podGroupInfos st) k' = None" using assms(2) by (auto simp: misses_def)
  obtain g' m' where g: "pg_labels (q_pod q) = Inr (g', m')" "g' \<noteq> ''''" "m' > 1" "k' = GetPodGroupKey (p_ns (q_pod q)) g'"
    using k'(1) by (rule gang_key_labels)
  with assms(3,4) have e: "g' = g" "m' = m" "k' = k" by auto
  show n: "lookup (podGroupInfos (make_room st)) k = None" using make_room_none [OF assms(1)] k'(2) e by simp
  show "snd (getPodGroupInfoFromQueued now q st) =
      count_add 1 ((make_room st)\<lparr>podGroupInfos := (k, new_entry now q g m) # podGroupInfos (make_room st)\<rparr>)"
    using k'(2) g n e by (simp add: getPodGroupInfoFromQueued_def Let_def make_room_def [symmetric] new_entry_def count_add_def)
qed

lemma queue_call_alone:
  assumes "pg_wf st"
  shows "\<exists>d. queue_alone c (st, QIdle, c) d (snd (getPodGroupInfoFromQueued now q st), QIdle, c)"
proof (cases "misses q st")
  case False
  then have "snd (getPodGroupInfoFromQueued now q st) = st"
    by (cases "gang_key (q_pod q)") (auto simp: misses_def getPodGroupInfo_regular getPodGroupInfo_hit)
  then show ?thesis using alone_refl(1) by auto
next
  case True
  then obtain k where k: "gang_key (q_pod q) = Some k" "lookup (podGroupInfos st) k = None" by (auto simp: misses_def)
  obtain g m where g: "pg_labels (q_pod q) = Inr (g, m)" "k = GetPodGroupKey (p_ns (q_pod q)) g"
    using k(1) by (rule gang_key_labels)
  note s = getPodGroupInfo_store [OF assms True g]
  obtain d where d: "queue_alone c (st, QMiss q, c) d (make_room st, QStore q, c)"
  proof (cases "podGroupCount st \<ge> maxPodGroupEntries")
    case True
    obtain d where "queue_alone c (st, QEvict (evict_count st) 0 (evict_snapshot st) q, c) d (make_room st, QStore q, c)"
      using evict_alone [of c st "evict_count st" 0 "evict_snapshot st" q] True
      by (auto simp: make_room_def evictOldest_loop)
    from that [OF queue_quiet [OF q_full [OF True] this]] show ?thesis .
  next
    case False
    then show ?thesis using that queue_quiet [OF q_room [of st q c] alone_refl(1)] by (simp add: make_room_def)
  qed
  have "queue_alone c (make_room st, QStore q, c) 0 (snd (getPodGroupInfoFromQueued now q st), QIdle, c)"
    unfolding s(2) by (rule queue_quiet [OF q_store [OF g s(1)] queue_quiet [OF q_incr alone_refl(1)]])
  from queue_quiet [OF q_miss [OF k] alone_trans(1) [OF d this]] show ?thesis by blast
qed

text \<open>Calls and ticks one after another.\<close>

definition queue_calls :: "(time \<times> queued) list \<Rightarrow> pg_state \<Rightarrow> pg_state" where
  "queue_calls cs st = foldl (\<lambda>s (now, q). snd (getPodGroupInfoFromQueued now q s)) st cs"

definition cleanup_ticks :: "time list \<Rightarrow> pg_state \<Rightarrow> pg_state" where
  "cleanup_ticks ts st = foldl (\<lambda>s now. cleanup_tick now s) st ts"

lemma queue_calls_snoc: "queue_calls (cs @ [(now, q)]) st = snd (getPodGroupInfoFromQueued now q (queue_calls cs st))"
  by (simp add: queue_calls_def)

lemma cleanup_ticks_snoc: "cleanup_ticks (ts @ [now]) st = cleanup_tick now (cleanup_ticks ts st)"
  by (simp add: cleanup_ticks_def)

lemma queue_calls_wf: "pg_wf st \<Longrightarrow> pg_wf (queue_calls cs st)"
  by (induction cs rule: rev_induct) (auto simp: queue_calls_snoc getPodGroupInfo_wf, simp add: queue_calls_def)

lemma cleanup_ticks_wf: "pg_wf st \<Longrightarrow> pg_wf (cleanup_ticks ts st)"
  by (induction ts rule: rev_induct) (simp_all add: cleanup_ticks_snoc cleanup_tick_wf, simp add: cleanup_ticks_def)

lemma queue_calls_alone: "pg_wf st \<Longrightarrow> \<exists>d. queue_alone c (st, QIdle, c) d (queue_calls cs st, QIdle, c)"
proof (induction cs rule: rev_induct)
  case Nil
  show ?case using alone_refl(1) by (auto simp: queue_calls_def)
next
  case (snoc x cs)
  obtain now q where x: "x = (now, q)" by (cases x)
  show ?case
    using snoc queue_call_alone [OF queue_calls_wf [OF snoc.prems], where c = c and now = now and q = q] alone_trans(1)
    unfolding x queue_calls_snoc by blast
qed

lemma cleanup_ticks_alone: "\<exists>d. cleanup_alone p (st, p, CIdle) d (cleanup_ticks ts st, p, CIdle)"
proof (induction ts rule: rev_induct)
  case Nil
  show ?case using alone_refl(2) by (auto simp: cleanup_ticks_def)
next
  case (snoc now ts)
  then show ?case using sweep_all_alone [of p "cleanup_ticks ts st" now] alone_trans(2) unfolding cleanup_ticks_snoc by blast
qed

text \<open>Where a goroutine that runs alone can be: between two calls, or in a call that will end, if it goes on alone, as the
  operation taken as one step.\<close>

fun queue_within :: "pg_state \<Rightarrow> pg_state \<Rightarrow> queue_pc \<Rightarrow> bool" where
  "queue_within st0 st QIdle \<longleftrightarrow> (\<exists>cs. st = queue_calls cs st0)"
| "queue_within st0 st (QMiss q) \<longleftrightarrow> (\<exists>cs. st = queue_calls cs st0) \<and> misses q st"
| "queue_within st0 st (QEvict n i es q) \<longleftrightarrow>
     (\<exists>cs. misses q (queue_calls cs st0) \<and> evict_loop n i es st = make_room (queue_calls cs st0))"
| "queue_within st0 st (QDecr n i es q) \<longleftrightarrow>
     (\<exists>cs. misses q (queue_calls cs st0) \<and> evict_loop n i es (count_add (- 1) st) = make_room (queue_calls cs st0))"
| "queue_within st0 st (QStore q) \<longleftrightarrow> (\<exists>cs. misses q (queue_calls cs st0) \<and> st = make_room (queue_calls cs st0))"
| "queue_within st0 st QIncr \<longleftrightarrow> (\<exists>cs. count_add 1 st = queue_calls cs st0)"

fun cleanup_within :: "pg_state \<Rightarrow> pg_state \<Rightarrow> cleaner_pc \<Rightarrow> bool" where
  "cleanup_within st0 st CIdle \<longleftrightarrow> (\<exists>ts. st = cleanup_ticks ts st0)"
| "cleanup_within st0 st (CSweep now todo) \<longleftrightarrow> (\<exists>ts. foldl (sweep_entry now) st todo = cleanup_ticks ts st0)"
| "cleanup_within st0 st (CDecr now todo) \<longleftrightarrow>
     (\<exists>ts. foldl (sweep_entry now) (count_add (- 1) st) todo = cleanup_ticks ts st0)"

lemma queue_within_step:
  assumes "pg_wf st0" "conc_step (st, p, c) e (st', p', c)" "queue_within st0 st p"
  shows "queue_within st0 st' p'"
  using assms(2)
proof (cases rule: conc_step.cases)
  case (q_full q)
  then show ?thesis using assms(3) by (auto simp: make_room_def evictOldest_loop)
next
  case (q_delete i es es' k n q)
  then show ?thesis using assms(3) evict_loop_step [OF q_delete(5-7)] by simp
next
  case (q_evicted n i es q)
  then show ?thesis using assms(3) evict_loop_end by auto
next
  case (q_store q g m k now)
  then obtain cs where cs: "misses q (queue_calls cs st0)" "st = make_room (queue_calls cs st0)" using assms(3) by auto
  have "count_add 1 st' = queue_calls (cs @ [(now, q)]) st0"
    unfolding queue_calls_snoc getPodGroupInfo_store(2) [OF queue_calls_wf [OF assms(1)] cs(1) q_store(5,6)]
    using q_store cs(2) by simp
  then show ?thesis using q_store by auto
next
  case (q_loaded q k)
  then obtain cs where cs: "misses q (queue_calls cs st0)" "st = make_room (queue_calls cs st0)" using assms(3) by auto
  then show ?thesis using q_loaded make_room_none [OF queue_calls_wf [OF assms(1)]] by (auto simp: misses_def)
qed (use assms(3) in \<open>auto simp: misses_def make_room_def\<close>)

lemma cleanup_within_step:
  assumes "conc_step (st, p, c) e (st', p, c')" "cleanup_within st0 st c"
  shows "cleanup_within st0 st' c'"
  using assms(1)
proof (cases rule: conc_step.cases)
  case (c_tick now)
  then obtain ts where "st = cleanup_ticks ts st0" using assms(2) by auto
  then have "foldl (sweep_entry now) st (podGroupInfos st) = cleanup_ticks (ts @ [now]) st0"
    by (simp add: cleanup_ticks_snoc cleanup_tick_sweep)
  then show ?thesis using c_tick by auto
qed (use assms(2) in \<open>auto simp: sweep_entry_def delete_entry_steps\<close>)

lemma queue_alone_within:
  assumes "queue_alone c (st0, QIdle, c) d (st, p, c')" "pg_wf st0"
  shows "queue_within st0 st p"
  using assms(1) unfolding queue_alone_def
proof (induction "(st0, QIdle, c)" d "(st, p, c')" arbitrary: st p c' rule: run_within.induct)
  case within_refl
  have "st0 = queue_calls [] st0" by (simp add: queue_calls_def)
  then show ?case by auto
next
  case (within_step d s e)
  obtain st1 p1 c1 where s: "s = (st1, p1, c1)" by (cases s)
  have "c1 = c" using within_last [OF within_step.hyps(1)] s by simp
  then show ?case using queue_within_step [OF assms(2), of st1 p1 c e st p] within_step.hyps s by simp
qed

lemma cleanup_alone_within:
  assumes "cleanup_alone p (st0, p, CIdle) d (st, p', c)"
  shows "cleanup_within st0 st c"
  using assms(1) unfolding cleanup_alone_def
proof (induction "(st0, p, CIdle)" d "(st, p', c)" arbitrary: st p' c rule: run_within.induct)
  case within_refl
  have "st0 = cleanup_ticks [] st0" by (simp add: cleanup_ticks_def)
  then show ?case by auto
next
  case (within_step d s e)
  obtain st1 p1 c1 where s: "s = (st1, p1, c1)" by (cases s)
  have "p1 = p" using within_last [OF within_step.hyps(1)] s by simp
  then show ?case using cleanup_within_step [of st1 p c1 e st c st0] within_step.hyps s by simp
qed

section \<open>Filling the cache\<close>

definition numbered_pod :: "nat \<Rightarrow> pod" where
  "numbered_pod n = empty_pod\<lparr>p_ns := ''ml'',
     p_labels := [(PodGroupNameLabel, replicate (Suc n) (CHR ''w'')), (PodGroupMinAvailableLabel, ''3'')]\<rparr>"

definition numbered_key :: "nat \<Rightarrow> string" where
  "numbered_key n = GetPodGroupKey ''ml'' (replicate (Suc n) (CHR ''w''))"

lemma numbered_key_inj: "inj numbered_key"
  by (auto simp: inj_def numbered_key_def GetPodGroupKey_def dest: arg_cong [where f = length])

lemma numbered_pod: "gang_key (numbered_pod n) = Some (numbered_key n)" "p_ns (numbered_pod n) = ''ml''"
  "pg_labels (numbered_pod n) = Inr (replicate (Suc n) (CHR ''w''), 3)"
proof -
  have "atoi ''3'' = Inr 3" by code_simp
  moreover have "PodGroupMinAvailableLabel \<noteq> PodGroupNameLabel" by code_simp
  ultimately show l: "pg_labels (numbered_pod n) = Inr (replicate (Suc n) (CHR ''w''), 3)"
    by (simp add: GetPodGroupLabels_def numbered_pod_def first_nonempty_def lookup_nonempty_def)
  show "p_ns (numbered_pod n) = ''ml''" by (simp add: numbered_pod_def)
  with l show "gang_key (numbered_pod n) = Some (numbered_key n)" by (simp add: gang_key_def numbered_key_def)
qed

lemma fresh_key: "\<exists>n. lookup (xs :: (string \<times> pg_entry) list) (numbered_key n) = None"
proof -
  have "infinite (range numbered_key)" using numbered_key_inj finite_imageD infinite_UNIV_nat by blast
  then obtain k where "k \<in> range numbered_key" "k \<notin> fst ` set xs"
    by (meson finite_imageI finite_set finite_subset subsetI)
  then show ?thesis by (auto simp: map_of_eq_None_iff)
qed

text \<open>An entry more, as long as there is room; every new entry is made at time 0.\<close>

lemma add_one_run:
  assumes "podGroupCount st < maxPodGroupEntries"
  shows "\<exists>st' e. conc_run (st, QIdle, c) 0 (st', QIdle, c) \<and> podGroupInfos st' = e # podGroupInfos st \<and>
    pe_last_update (snd e) = 0 \<and> podGroupCount st' = podGroupCount st + 1"
proof -
  obtain n where n: "lookup (podGroupInfos st) (numbered_key n) = None" using fresh_key by blast
  define q where "q = \<lparr>q_pod = numbered_pod n, q_timestamp = 0\<rparr>"
  have k: "gang_key (q_pod q) = Some (numbered_key n)" using numbered_pod by (simp add: q_def)
  have l: "pg_labels (q_pod q) = Inr (replicate (Suc n) (CHR ''w''), 3)"
    "numbered_key n = GetPodGroupKey (p_ns (q_pod q)) (replicate (Suc n) (CHR ''w''))"
    using numbered_pod [of n] by (simp_all add: q_def numbered_key_def)
  let ?e = "(numbered_key n, new_entry 0 q (replicate (Suc n) (CHR ''w'')) 3)"
  have "conc_run (st, QIdle, c) 0 (count_add 1 (st\<lparr>podGroupInfos := ?e # podGroupInfos st\<rparr>), QIdle, c)"
    by (rule run_quiet [OF q_miss [OF k n] run_quiet [OF q_room [OF assms] run_quiet [OF q_store [OF l n] run_single [OF q_incr]]]])
  then show ?thesis by (intro exI [of _ "count_add 1 (st\<lparr>podGroupInfos := ?e # podGroupInfos st\<rparr>)"] exI [of _ ?e] conjI) (simp_all add: count_add_def new_entry_def q_def)
qed

lemma fill_run:
  assumes "podGroupCount st + int n \<le> maxPodGroupEntries"
  shows "\<exists>st' es. conc_run (st, QIdle, c) 0 (st', QIdle, c) \<and> podGroupInfos st' = es @ podGroupInfos st \<and>
    length es = n \<and> (\<forall>e \<in> set es. pe_last_update (snd e) = 0) \<and> podGroupCount st' = podGroupCount st + int n"
  using assms
proof (induction n)
  case 0
  show ?case using run_refl by (intro exI [of _ st] exI [of _ "[]"]) simp
next
  case (Suc n)
  then obtain st' es where st': "conc_run (st, QIdle, c) 0 (st', QIdle, c)" "podGroupInfos st' = es @ podGroupInfos st"
    "length es = n" "\<forall>e \<in> set es. pe_last_update (snd e) = 0" "podGroupCount st' = podGroupCount st + int n" by force
  have "podGroupCount st' < maxPodGroupEntries" using Suc.prems st'(5) by simp
  from add_one_run [OF this, of c] obtain st'' e where st'': "conc_run (st', QIdle, c) 0 (st'', QIdle, c)"
    "podGroupInfos st'' = e # podGroupInfos st'" "pe_last_update (snd e) = 0" "podGroupCount st'' = podGroupCount st' + 1" by blast
  have "conc_run (st, QIdle, c) 0 (st'', QIdle, c)" using run_trans [OF st''(1) st'(1)] by simp
  then show ?case using st' st'' by (intro exI [of _ st''] exI [of _ "e # es"]) simp
qed

section \<open>Properties of the interleaving\<close>

text \<open>C7: Each goroutine alone does what its operation taken as one step does, and nothing else.  From a well-formed cache,
  the states in which the queue can be idle again after steps of its own only, with the cleanup standing wherever it
  stands, are exactly those that some sequence of calls of \<^verbatim>\<open>getPodGroupInfoFromQueued\<close> leaves; the states in
  which the cleanup can be idle again after steps of its own only are exactly those that some sequence of
  calls of \<^verbatim>\<open>cleanup_tick\<close> leaves; and no deletion of such a run misses.\<close>

theorem goroutines_alone:
  assumes "pg_wf st"
  shows "(queue_alone c (st, QIdle, c) d (st', QIdle, c) \<longleftrightarrow> d = 0 \<and> (\<exists>cs. st' = queue_calls cs st)) \<and>
    (cleanup_alone p (st, p, CIdle) d (st', p, CIdle) \<longleftrightarrow> d = 0 \<and> (\<exists>ts. st' = cleanup_ticks ts st))"
proof (intro conjI iffI; (elim conjE exE)?)
  assume r: "queue_alone c (st, QIdle, c) d (st', QIdle, c)"
  then obtain cs where cs: "st' = queue_calls cs st" using queue_alone_within [OF r assms] by auto
  moreover have "d = 0" using run_no_miss [OF alone_run(1) [OF r] assms] queue_calls_wf [OF assms] cs by simp
  ultimately show "d = 0" "\<exists>cs. st' = queue_calls cs st" by blast+
next
  fix cs assume "d = 0" "st' = queue_calls cs st"
  moreover obtain e where "queue_alone c (st, QIdle, c) e (queue_calls cs st, QIdle, c)" using queue_calls_alone [OF assms] by blast
  moreover from run_no_miss [OF alone_run(1) [OF this] assms queue_calls_wf [OF assms]] have "e = 0" .
  ultimately show "queue_alone c (st, QIdle, c) d (st', QIdle, c)" by simp
next
  assume r: "cleanup_alone p (st, p, CIdle) d (st', p, CIdle)"
  then obtain ts where ts: "st' = cleanup_ticks ts st" using cleanup_alone_within [OF r] by auto
  moreover have "d = 0" using run_no_miss [OF alone_run(2) [OF r] assms] cleanup_ticks_wf [OF assms] ts by simp
  ultimately show "d = 0" "\<exists>ts. st' = cleanup_ticks ts st" by blast+
next
  fix ts assume "d = 0" "st' = cleanup_ticks ts st"
  moreover obtain e where "cleanup_alone p (st, p, CIdle) e (cleanup_ticks ts st, p, CIdle)" using cleanup_ticks_alone by blast
  moreover from run_no_miss [OF alone_run(2) [OF this] assms cleanup_ticks_wf [OF assms]] have "e = 0" .
  ultimately show "cleanup_alone p (st, p, CIdle) d (st', p, CIdle)" by simp
qed

lemma goroutines_alone_witness:
  "queue_alone CIdle (empty_pg_state, QIdle, CIdle) 0 (ex_cache, QIdle, CIdle) \<and>
   \<not> cleanup_alone QIdle (empty_pg_state, QIdle, CIdle) 0 (ex_cache, QIdle, CIdle)"
proof -
  have c: "ex_cache = queue_calls [(10, ex_queued)] empty_pg_state" by code_simp
  have "podGroupInfos (cleanup_ticks ts empty_pg_state) = []" for ts
    by (induction ts rule: rev_induct) (simp_all add: cleanup_ticks_snoc cleanup_tick_def cleanup_ticks_def empty_pg_state_def)
  moreover have "podGroupInfos ex_cache \<noteq> []" by (simp add: ex_cache_eq)
  ultimately have "ex_cache \<noteq> cleanup_ticks ts empty_pg_state" for ts by metis
  then show ?thesis
    using goroutines_alone [OF pg_wf_empty, of CIdle 0 ex_cache QIdle] c by blast
qed

lemma run_accounting:
  assumes "conc_run (empty_pg_state, QIdle, CIdle) d (st, p, c)"
  shows "distinct (map fst (podGroupInfos st))"
    and "podGroupCount st = int (length (podGroupInfos st)) + owed p c - int d"
proof -
  have "accounted 0 (empty_pg_state, QIdle, CIdle)" by (simp add: accounted_def owed_def empty_pg_state_def)
  from accounted_run [OF assms this] show "distinct (map fst (podGroupInfos st))"
    "podGroupCount st = int (length (podGroupInfos st)) + owed p c - int d" by (auto simp: accounted_def)
qed

text \<open>C6: The counter under any interleaving: from an empty cache, whatever the two goroutines do and
  however their steps interleave, the map keeps one entry per key, and the counter differs from the
  number of entries by what the goroutines are about to add or subtract and by the number of deletions
  so far that found their key already gone; every one of these leaves the counter one too low for
  good.\<close>

theorem counter_accounting:
  assumes "conc_run (empty_pg_state, QIdle, CIdle) d (st, p, c)"
  shows "distinct (map fst (podGroupInfos st)) \<and>
    podGroupCount st = int (length (podGroupInfos st)) + owed p c - int d \<and>
    (p = QIdle \<and> c = CIdle \<longrightarrow> (podGroupCount st = int (length (podGroupInfos st)) \<longleftrightarrow> d = 0))"
  using run_accounting [OF assms] by (auto simp: owed_def)

lemma counter_accounting_witness: "podGroupCount ex_cache = int (length (podGroupInfos ex_cache))"
proof -
  have c: "ex_cache = snd (getPodGroupInfoFromQueued 10 ex_queued empty_pg_state)" by code_simp
  obtain d where d: "conc_run (empty_pg_state, QIdle, CIdle) d (ex_cache, QIdle, CIdle)"
    using alone_run(1) queue_call_alone [OF pg_wf_empty] unfolding c by blast
  from counter_accounting [OF d] missed_deletes [OF d] show ?thesis by (simp add: ex_cache_eq empty_pg_state_def)
qed

text \<open>The hard cap can be passed: there is an interleaving after which the cache holds 60000 entries,
  a fifth more than the cap of 50000, both goroutines are idle and the counter reads exactly the cap.
  The queue takes its snapshot for the emergency eviction at the cap, a tick of the cleanup then deletes
  the same entries because they are stale, and the eviction subtracts a fifth of them a second time.\<close>

theorem cap_overrun:
  "\<exists>st. conc_run (empty_pg_state, QIdle, CIdle) 10000 (st, QIdle, CIdle) \<and>
     podGroupCount st = 50000 \<and> length (podGroupInfos st) = 60000"
proof -
  obtain st1 where st1: "conc_run (empty_pg_state, QIdle, CIdle) 0 (st1, QIdle, CIdle)"
    "length (podGroupInfos st1) = 50000" "\<forall>e \<in> set (podGroupInfos st1). pe_last_update (snd e) = 0" "podGroupCount st1 = 50000"
    using fill_run [of empty_pg_state 50000 CIdle] by (auto simp: empty_pg_state_def maxPodGroupEntries_def)
  have dist: "distinct (map fst (podGroupInfos st1))" using run_accounting(1) [OF st1(1)] .
  obtain n where n: "lookup (podGroupInfos st1) (numbered_key n) = None" using fresh_key by blast
  define q where "q = \<lparr>q_pod = numbered_pod n, q_timestamp = 0\<rparr>"
  have k: "gang_key (q_pod q) = Some (numbered_key n)" using numbered_pod by (simp add: q_def)
  have l: "pg_labels (q_pod q) = Inr (replicate (Suc n) (CHR ''w''), 3)"
    "numbered_key n = GetPodGroupKey (p_ns (q_pod q)) (replicate (Suc n) (CHR ''w''))"
    using numbered_pod [of n] by (simp_all add: q_def numbered_key_def)
  have full: "podGroupCount st1 \<ge> maxPodGroupEntries" using st1(4) by (simp add: maxPodGroupEntries_def)
  define es where "es = evict_snapshot st1"
  have es: "length es = 50000" "evict_count st1 = 10000" using st1(2) by (simp_all add: es_def evict_count_def evict_snapshot_def)
  have s1: "conc_run (st1, QIdle, CIdle) 0 (st1, QEvict 10000 0 es q, CIdle)"
    using run_quiet [OF q_miss [OF k n] run_single [OF q_full [OF full]]] es(2) by (simp add: es_def)
  define st2 where "st2 = cleanup_tick (seconds 601) st1"
  have "stale (seconds 601) i" if "(key, i) \<in> set (podGroupInfos st1)" for key i
    using st1(3) that by (auto simp: stale_iff staleEntryTTL_def seconds_def)
  then have st2: "podGroupInfos st2 = []" "podGroupCount st2 = 0"
    using st1(2,4) count_if_all [of "podGroupInfos st1" "\<lambda>(_, i). stale (seconds 601) i"]
    by (auto simp: st2_def cleanup_tick_spec [OF dist] filter_empty_conv)
  obtain d2 where s2: "conc_run (st1, QEvict 10000 0 es q, CIdle) d2 (st2, QEvict 10000 0 es q, CIdle)"
    using alone_run(2) sweep_all_alone [of _ st1 "seconds 601"] unfolding st2_def by blast
  obtain d3 where s3: "conc_run (st2, QEvict 10000 0 es q, CIdle) d3 (evict_loop 10000 0 es st2, QStore q, CIdle)"
    using alone_run(1) evict_alone by blast
  obtain D where D: "length D = 10000" "evict_loop 10000 0 es st2 =
      st2\<lparr>podGroupInfos := filter (\<lambda>(k, _). k \<notin> fst ` set (D :: (string \<times> time) list)) (podGroupInfos st2),
         podGroupCount := podGroupCount st2 - int (length D)\<rparr>"
    using evict_loop_spec [of 0 es 10000 st2] es(1) by auto
  define st3 where "st3 = evict_loop 10000 0 es st2"
  have st3: "podGroupInfos st3 = []" "podGroupCount st3 = - 10000" using D st2 by (simp_all add: st3_def)
  have none: "lookup (podGroupInfos st3) (numbered_key n) = None" using st3 by simp
  let ?st4 = "count_add 1 (st3\<lparr>podGroupInfos := (numbered_key n, new_entry 0 q (replicate (Suc n) (CHR ''w'')) 3) # podGroupInfos st3\<rparr>)"
  have s4: "conc_run (st3, QStore q, CIdle) 0 (?st4, QIdle, CIdle)"
    by (rule run_quiet [OF q_store [OF l none] run_single [OF q_incr]])
  have "podGroupCount ?st4 + int 59999 \<le> maxPodGroupEntries" using st3 by (simp add: count_add_def maxPodGroupEntries_def)
  from fill_run [OF this, of CIdle] obtain st5 where s5: "conc_run (?st4, QIdle, CIdle) 0 (st5, QIdle, CIdle)"
    "length (podGroupInfos st5) = 60000" "podGroupCount st5 = 50000"
    using st3 by (auto simp: count_add_def)
  have run: "conc_run (empty_pg_state, QIdle, CIdle) (0 + 0 + d2 + d3 + 0 + 0) (st5, QIdle, CIdle)"
    by (rule run_trans [OF s5(1) run_trans [OF s4 run_trans [OF s3 [folded st3_def] run_trans [OF s2 run_trans [OF s1 st1(1)]]]]])
  then have "0 + 0 + d2 + d3 + 0 + 0 = 10000"
    using run_accounting(2) [OF run] s5(2,3) by (simp add: owed_def)
  with run s5(2,3) show ?thesis by auto
qed

end
