(* ===== verification/GangRuns.thy ===== *)
theory GangRuns
  imports Coscheduling
begin

text \<open>
  The pods that wait for their gang.  A pod that \<^verbatim>\<open>Permit\<close> makes wait stays with the framework
  until it is allowed, rejected, or gives up (its time is over, or a later phase fails), upon which the
  framework calls \<^verbatim>\<open>Unreserve\<close> for it.  A run is any sequence of these calls, with whatever the
  lister shows each time; the state is the list of waiting pods.
\<close>

section \<open>Runs\<close>

definition after_permit :: "pod_lister \<Rightarrow> pod \<Rightarrow> pod list \<Rightarrow> pod list" where
  "after_permit lister p ws =
     (case Permit lister (Some ws) p of
        (s, _, allowed) \<Rightarrow> if st_code s = Wait then ws @ [p] else filter (\<lambda>w. w \<notin> set allowed) ws)"

definition after_unreserve :: "pod \<Rightarrow> pod list \<Rightarrow> pod list" where
  "after_unreserve p ws =
     (let others = filter (\<lambda>w. w \<noteq> p) ws in filter (\<lambda>w. w \<notin> set (cosched_Unreserve others p)) others)"

text \<open>The pods that may be scheduled are a parameter.\<close>

inductive wait_step :: "(pod \<Rightarrow> bool) \<Rightarrow> pod list \<Rightarrow> pod list \<Rightarrow> bool" for P where
  permit: "P p \<Longrightarrow> wait_step P ws (after_permit lister p ws)"
| unreserve: "wait_step P ws (after_unreserve p ws)"

inductive_cases wait_stepE: "wait_step P ws ws'"

definition members :: "string \<Rightarrow> string \<Rightarrow> pod list \<Rightarrow> pod list" where
  "members ns g ws = filter (same_gang g ns) ws"

lemma members_append [simp]: "members ns g (ws @ [p]) = (if same_gang g ns p then members ns g ws @ [p] else members ns g ws)"
  by (simp add: members_def)

text \<open>Both operations treat the members of a gang alike.\<close>

lemma after_permit_cases:
  obtains (wait) g m where "pg_labels p = Inr (g, m)" "m \<ge> 2" "after_permit lister p ws = ws @ [p]"
      "calculateRunningPodsExcluding lister g (p_ns p) (p_name p) + count_if (waits_in_gang g (p_ns p)) ws + 1 < m"
  | (release) g m where "pg_labels p = Inr (g, m)" "m \<ge> 2" "after_permit lister p ws = filter (\<lambda>w. \<not> same_gang g (p_ns p) w) ws"
      "calculateRunningPodsExcluding lister g (p_ns p) (p_name p) + count_if (waits_in_gang g (p_ns p)) ws + 1 \<ge> m"
  | (other) "\<nexists>g m. pg_labels p = Inr (g, m) \<and> m \<ge> 2" "after_permit lister p ws = ws"
proof (cases "\<exists>g m. pg_labels p = Inr (g, m) \<and> m \<ge> 2")
  case True
  then obtain g m where l: "pg_labels p = Inr (g, m)" "m \<ge> 2" by blast
  have g: "g \<noteq> ''''" using GetPodGroupLabels_Inr [OF l(1)] l(2) first_nonemptyD by fastforce
  have "filter (\<lambda>w. w \<notin> set (cosched_Unreserve ws p)) ws = filter (\<lambda>w. \<not> same_gang g (p_ns p) w) ws"
    using l g by (intro filter_cong) (auto simp: cosched_Unreserve_def)
  then show thesis
    using wait [OF l] release [OF l] Permit_decision [OF l, of lister ws]
    by (auto simp: after_permit_def split: if_splits)
next
  case False
  then have "Permit lister (Some ws) p = (success, 0, [])"
    by (cases rule: GetPodGroupLabels_cases [of p]) (auto simp: Permit_def)
  then show thesis using other False by (simp add: after_permit_def)
qed

lemma after_unreserve_eq:
  "after_unreserve p ws = filter (\<lambda>w. w \<noteq> p \<and> \<not> (pg_name p \<noteq> '''' \<and> same_gang (pg_name p) (p_ns p) w)) ws"
  by (auto simp: after_unreserve_def cosched_Unreserve_def pg_name_def Let_def split: sum.splits prod.splits intro!: filter_cong)

lemma members_filter: "members ns g (filter Q ws) = filter Q (members ns g ws)"
  by (simp add: members_def conj_commute)

lemma members_unreserve:
  assumes "g \<noteq> ''''"
  shows "members ns g (after_unreserve p ws) = (if same_gang g ns p then [] else members ns g ws)"
  using assms unfolding after_unreserve_eq members_filter
  by (auto simp: members_def same_gang_def [abs_def] filter_empty_conv intro!: filter_cong)

lemma members_release:
  "members ns g (filter (\<lambda>w. \<not> same_gang g' ns' w) ws) = (if g = g' \<and> ns = ns' then [] else members ns g ws)"
  unfolding members_filter by (auto simp: members_def same_gang_def [abs_def] filter_empty_conv intro!: filter_cong)

lemma members_counted: "g \<noteq> '''' \<Longrightarrow> int (length (members ns g ws)) \<le> count_if (waits_in_gang g ns) ws"
proof -
  assume "g \<noteq> ''''"
  then have "waits_in_gang g ns w" if "same_gang g ns w" for w
    using that pg_name_label [of w] by (auto simp: same_gang_def waits_in_gang_def)
  then have "count_if (same_gang g ns) ws \<le> count_if (waits_in_gang g ns) ws" by (intro count_if_le)
  then show ?thesis by (simp add: members_def count_if_def)
qed

lemma running_nonneg: "0 \<le> calculateRunningPodsExcluding lister g ns n"
  by (simp add: calculateRunningPodsExcluding_def split: sum.split)

section \<open>All or none\<close>

text \<open>C9: The waiting members of a gang leave together: after any call of Permit or Unreserve, for any pod
  and with any lister, the waiting pods of a gang are the same as before in the same order, or those
  with the pod that has just been made to wait at the end, or none.\<close>

theorem waiting_all_or_none:
  assumes "wait_step P ws ws'" and "g \<noteq> ''''"
  shows "members ns g ws' = members ns g ws \<or> members ns g ws' = [] \<or>
    (\<exists>p. P p \<and> p_ns p = ns \<and> pg_name p = g \<and> members ns g ws' = members ns g ws @ [p])"
  using assms(1)
proof cases
  case (permit p lister)
  show ?thesis
  proof (cases rule: after_permit_cases [of p lister ws])
    case (wait h m)
    then show ?thesis using permit by (auto simp: same_gang_def)
  next
    case (release h m)
    then show ?thesis using permit by (simp add: members_release)
  next
    case other
    then show ?thesis using permit by simp
  qed
next
  case (unreserve p)
  then show ?thesis using members_unreserve [OF assms(2)] by simp
qed

lemma ex_wait_step:
  "wait_step (\<lambda>_. True) [ex_member ''b'' False] (after_unreserve (ex_member ''a'' False) [ex_member ''b'' False])"
  by (rule unreserve)

lemma waiting_all_or_none_witness:
  "members ''ml'' ''w'' (after_unreserve (ex_member ''a'' False) [ex_member ''b'' False]) = [] \<and>
   members ''ml'' ''w'' [ex_member ''b'' False] \<noteq> []"
proof -
  let ?ws = "after_unreserve (ex_member ''a'' False) [ex_member ''b'' False]"
  have "length (members ''ml'' ''w'' ?ws) = 0" "members ''ml'' ''w'' [ex_member ''b'' False] = [ex_member ''b'' False]" by code_simp+
  then show ?thesis using waiting_all_or_none [OF ex_wait_step, of "''w''" "''ml''"] by auto
qed

section \<open>How many wait\<close>

text \<open>Pods of one gang agree on its minimum.\<close>

definition agrees :: "(string \<Rightarrow> string \<Rightarrow> int) \<Rightarrow> pod \<Rightarrow> bool" where
  "agrees need p \<longleftrightarrow> (case pg_labels p of Inl _ \<Rightarrow> True | Inr (g, m) \<Rightarrow> g = '''' \<or> m = need (p_ns p) g)"

definition few_wait :: "(string \<Rightarrow> string \<Rightarrow> int) \<Rightarrow> pod list \<Rightarrow> bool" where
  "few_wait need ws \<longleftrightarrow>
     (\<forall>w \<in> set ws. pg_name w \<noteq> '''') \<and>
     (\<forall>ns g. g \<noteq> '''' \<longrightarrow> members ns g ws = [] \<or> int (length (members ns g ws)) < need ns g)"

lemma few_wait_step:
  assumes "wait_step (agrees need) ws ws'" "few_wait need ws"
  shows "few_wait need ws'"
  using assms(1)
proof cases
  case (permit p lister)
  show ?thesis
  proof (cases rule: after_permit_cases [of p lister ws])
    case (wait h m)
    have h: "h \<noteq> ''''" using GetPodGroupLabels_Inr [OF wait(1)] wait(2) first_nonemptyD by fastforce
    then have "m = need (p_ns p) h" "pg_name p = h" using permit(2) wait(1) by (simp_all add: agrees_def pg_name_def)
    moreover have "int (length (members (p_ns p) h ws)) + 1 < m"
      using wait(4) members_counted [OF h, of "p_ns p" ws] running_nonneg [of lister h "p_ns p" "p_name p"] by linarith
    ultimately show ?thesis
      using assms(2) h permit(1) wait(3) by (auto simp: few_wait_def same_gang_def)
  next
    case (release h m)
    then show ?thesis using assms(2) permit(1) by (auto simp: few_wait_def members_release)
  next
    case other
    then show ?thesis using assms(2) permit(1) by simp
  qed
next
  case (unreserve p)
  then show ?thesis using assms(2) members_unreserve by (auto simp: few_wait_def after_unreserve_eq)
qed

lemma few_wait_run: "(wait_step (agrees need))\<^sup>*\<^sup>* [] ws \<Longrightarrow> few_wait need ws"
proof (induction rule: rtranclp_induct)
  case base
  show ?case by (simp add: few_wait_def members_def)
next
  case (step ws ws')
  then show ?case using few_wait_step by blast
qed

text \<open>C36: Fewer pods of a gang wait than the gang needs, and the one that makes up the number releases them:
  in any run from an empty waiting area, with pods that agree on the minimum of their gang and any
  listers, the waiting members of a gang are always fewer than its minimum; when all but one of the
  minimum wait, Permit of a further member never waits, allows exactly the waiting members, and leaves
  none of the gang waiting.\<close>

theorem gang_fills_and_releases:
  assumes "(wait_step (agrees need))\<^sup>*\<^sup>* [] ws" and "g \<noteq> ''''"
  shows "(members ns g ws = [] \<or> int (length (members ns g ws)) < need ns g) \<and>
    (\<forall>p lister. pg_labels p = Inr (g, need ns g) \<and> p_ns p = ns \<and> 2 \<le> need ns g \<and>
       int (length (members ns g ws)) = need ns g - 1 \<longrightarrow>
       Permit lister (Some ws) p = (success, 0, members ns g ws) \<and> members ns g (after_permit lister p ws) = [])"
proof (intro conjI allI impI)
  show "members ns g ws = [] \<or> int (length (members ns g ws)) < need ns g"
    using few_wait_run [OF assms(1)] assms(2) by (simp add: few_wait_def)
  fix p lister
  assume p: "pg_labels p = Inr (g, need ns g) \<and> p_ns p = ns \<and> 2 \<le> need ns g \<and> int (length (members ns g ws)) = need ns g - 1"
  have "\<not> calculateRunningPodsExcluding lister g ns (p_name p) + count_if (waits_in_gang g ns) ws + 1 < need ns g"
    using p members_counted [OF assms(2), of ns ws] running_nonneg [of lister g ns "p_name p"] by linarith
  with p show q: "Permit lister (Some ws) p = (success, 0, members ns g ws)"
    using Permit_decision [of p g "need ns g" lister ws] assms(2) by (simp add: cosched_Unreserve_def members_def)
  show "members ns g (after_permit lister p ws) = []"
    by (simp add: after_permit_def q members_def filter_empty_conv)
qed

lemma gang_fills_and_releases_witness:
  "Permit (cache_lister []) (Some (map (\<lambda>n. ex_member n False) [''a'', ''b'', ''c'', ''d''])) (ex_member ''e'' False) =
     (success, 0, map (\<lambda>n. ex_member n False) [''a'', ''b'', ''c'', ''d''])"
proof -
  define ws where "ws = map (\<lambda>n. ex_member n False) [''a'', ''b'', ''c'', ''d'']"
  have ag: "agrees (\<lambda>_ _. 5) (ex_member n False)" for n by (simp add: agrees_def ex_member_labels)
  have step: "(wait_step (agrees (\<lambda>_ _. 5)))\<^sup>*\<^sup>* [] (after_permit (cache_lister []) (ex_member n False) us)"
    if "(wait_step (agrees (\<lambda>_ _. 5)))\<^sup>*\<^sup>* [] us" for us n
    using that permit [of "agrees (\<lambda>_ _. 5)", OF ag] by (rule rtranclp.rtrancl_into_rtrancl)
  have e: "foldl (\<lambda>us n. after_permit (cache_lister []) (ex_member n False) us) [] [''a'', ''b'', ''c'', ''d''] = ws"
    unfolding ws_def by code_simp
  have "(wait_step (agrees (\<lambda>_ _. 5)))\<^sup>*\<^sup>* [] (foldl (\<lambda>us n. after_permit (cache_lister []) (ex_member n False) us) [] ns)" for ns
    by (induction ns rule: rev_induct) (simp_all add: step)
  then have run: "(wait_step (agrees (\<lambda>_ _. 5)))\<^sup>*\<^sup>* [] ws" unfolding e [symmetric] .
  have m: "members ''ml'' ''w'' ws = ws" "length ws = 4" "p_ns (ex_member ''e'' False) = ''ml''" unfolding ws_def by code_simp+
  have "Permit (cache_lister []) (Some ws) (ex_member ''e'' False) = (success, 0, ws)"
    using gang_fills_and_releases [OF run, of "''w''" "''ml''"] m ex_member_labels [of "''e''" False] by simp
  then show ?thesis unfolding ws_def .
qed

end
