(* ===== verification/DeepCopies.thy ===== *)
theory DeepCopies
  imports GoPrelude
begin

text \<open>
  The deep copies of the custom resource (\<^verbatim>\<open>pkg/apis/scheduling/v1alpha1/zz_generated.deepcopy.go\<close>)
  on a heap: maps, slices and the big decimals inside quantities are cells with addresses, and assigning
  a struct copies the addresses it holds.  Elsewhere in this development an object is a value; here it
  is shown which cells a copy shares with its original.

  \<^verbatim>\<open>Quantity.DeepCopy\<close> and \<^verbatim>\<open>ObjectMeta.DeepCopyInto\<close> belong to Kubernetes: they are the
  parameters of the locale \<^verbatim>\<open>go_copier\<close>, which says that they copy what they reach into new
  cells.  The type meta and the list meta hold strings only and are left out, and of the object meta the
  name and the finalizers stand for the rest.
\<close>

section \<open>Objects and the heap\<close>

type_synonym addr = nat

record gquantity =
  gq_amount :: int
  gq_dec :: "addr option"

record greservation =
  gr_node :: string
  gr_cpu :: gquantity
  gr_memory :: gquantity
  gr_gpu :: gquantity

record gspec =
  gs_reservations :: "addr option"

record gstatus =
  gt_pods :: "addr option"
  gt_conditions :: "addr option"

record gmeta =
  gm_name :: string
  gm_finalizers :: "addr option"

record gobject =
  go_meta :: gmeta
  go_spec :: gspec
  go_status :: gstatus

record glist =
  gl_items :: "addr option"

text \<open>One limit for the cells of every kind; a condition is its text.\<close>

record heap =
  h_dec :: "addr \<Rightarrow> int"
  h_reservations :: "addr \<Rightarrow> greservation gomap"
  h_pods :: "addr \<Rightarrow> string gomap"
  h_conditions :: "addr \<Rightarrow> string list"
  h_finalizers :: "addr \<Rightarrow> string list"
  h_items :: "addr \<Rightarrow> gobject list"
  h_lim :: addr

definition alloc :: "heap \<Rightarrow> addr \<times> heap" where
  "alloc h = (h_lim h, h\<lparr>h_lim := h_lim h + 1\<rparr>)"

type_synonym quantity_copy = "gquantity \<Rightarrow> heap \<Rightarrow> gquantity \<times> heap"
type_synonym meta_copy = "gmeta \<Rightarrow> heap \<Rightarrow> gmeta \<times> heap"

section \<open>The generated functions\<close>

definition Reservation_DeepCopyInto :: "quantity_copy \<Rightarrow> greservation \<Rightarrow> heap \<Rightarrow> greservation \<times> heap" where
  "Reservation_DeepCopyInto cq r h =
     (let (cpu, h1) = cq (gr_cpu r) h; (memory, h2) = cq (gr_memory r) h1
      in (r\<lparr>gr_cpu := cpu, gr_memory := memory\<rparr>, h2))"

definition Reservation_DeepCopy :: "quantity_copy \<Rightarrow> greservation option \<Rightarrow> heap \<Rightarrow> greservation option \<times> heap" where
  "Reservation_DeepCopy cq r h =
     (case r of None \<Rightarrow> (None, h) | Some r \<Rightarrow> let (out, h1) = Reservation_DeepCopyInto cq r h in (Some out, h1))"

text \<open>The loop that fills the new map.\<close>

fun copy_reservations :: "quantity_copy \<Rightarrow> greservation gomap \<Rightarrow> heap \<Rightarrow> greservation gomap \<times> heap" where
  "copy_reservations cq [] h = ([], h)"
| "copy_reservations cq ((key, val) # rest) h =
     (let (out, h1) = Reservation_DeepCopyInto cq val h; (outs, h2) = copy_reservations cq rest h1
      in ((key, out) # outs, h2))"

definition Spec_DeepCopyInto :: "quantity_copy \<Rightarrow> gspec \<Rightarrow> heap \<Rightarrow> gspec \<times> heap" where
  "Spec_DeepCopyInto cq s h =
     (case gs_reservations s of
        None \<Rightarrow> (s, h)
      | Some a \<Rightarrow>
          let (b, h1) = alloc h; (outs, h2) = copy_reservations cq (h_reservations h1 a) h1
          in (s\<lparr>gs_reservations := Some b\<rparr>, h2\<lparr>h_reservations := (h_reservations h2)(b := outs)\<rparr>))"

definition Status_DeepCopyInto :: "gstatus \<Rightarrow> heap \<Rightarrow> gstatus \<times> heap" where
  "Status_DeepCopyInto s h =
     (case gt_pods s of
        None \<Rightarrow> (s, h)
      | Some a \<Rightarrow> let (b, h1) = alloc h in (s\<lparr>gt_pods := Some b\<rparr>, h1\<lparr>h_pods := (h_pods h1)(b := h_pods h1 a)\<rparr>))"

definition Object_DeepCopyInto :: "quantity_copy \<Rightarrow> meta_copy \<Rightarrow> gobject \<Rightarrow> heap \<Rightarrow> gobject \<times> heap" where
  "Object_DeepCopyInto cq cm x h =
     (let (meta, h1) = cm (go_meta x) h; (spec, h2) = Spec_DeepCopyInto cq (go_spec x) h1;
          (status, h3) = Status_DeepCopyInto (go_status x) h2
      in (x\<lparr>go_meta := meta, go_spec := spec, go_status := status\<rparr>, h3))"

definition Object_DeepCopy :: "quantity_copy \<Rightarrow> meta_copy \<Rightarrow> gobject option \<Rightarrow> heap \<Rightarrow> gobject option \<times> heap" where
  "Object_DeepCopy cq cm x h =
     (case x of None \<Rightarrow> (None, h) | Some x \<Rightarrow> let (out, h1) = Object_DeepCopyInto cq cm x h in (Some out, h1))"

fun copy_items :: "quantity_copy \<Rightarrow> meta_copy \<Rightarrow> gobject list \<Rightarrow> heap \<Rightarrow> gobject list \<times> heap" where
  "copy_items cq cm [] h = ([], h)"
| "copy_items cq cm (x # xs) h =
     (let (out, h1) = Object_DeepCopyInto cq cm x h; (outs, h2) = copy_items cq cm xs h1 in (out # outs, h2))"

definition List_DeepCopyInto :: "quantity_copy \<Rightarrow> meta_copy \<Rightarrow> glist \<Rightarrow> heap \<Rightarrow> glist \<times> heap" where
  "List_DeepCopyInto cq cm l h =
     (case gl_items l of
        None \<Rightarrow> (l, h)
      | Some a \<Rightarrow>
          let (b, h1) = alloc h; (outs, h2) = copy_items cq cm (h_items h1 a) h1
          in (l\<lparr>gl_items := Some b\<rparr>, h2\<lparr>h_items := (h_items h2)(b := outs)\<rparr>))"

definition List_DeepCopy :: "quantity_copy \<Rightarrow> meta_copy \<Rightarrow> glist option \<Rightarrow> heap \<Rightarrow> glist option \<times> heap" where
  "List_DeepCopy cq cm l h =
     (case l of None \<Rightarrow> (None, h) | Some l \<Rightarrow> let (out, h1) = List_DeepCopyInto cq cm l h in (Some out, h1))"

definition Spec_DeepCopy :: "quantity_copy \<Rightarrow> gspec option \<Rightarrow> heap \<Rightarrow> gspec option \<times> heap" where
  "Spec_DeepCopy cq s h =
     (case s of None \<Rightarrow> (None, h) | Some s \<Rightarrow> let (out, h1) = Spec_DeepCopyInto cq s h in (Some out, h1))"

definition Status_DeepCopy :: "gstatus option \<Rightarrow> heap \<Rightarrow> gstatus option \<times> heap" where
  "Status_DeepCopy s h =
     (case s of None \<Rightarrow> (None, h) | Some s \<Rightarrow> let (out, h1) = Status_DeepCopyInto s h in (Some out, h1))"

text \<open>As a \<^verbatim>\<open>runtime.Object\<close>: a nil copy becomes the nil interface, not an interface that holds a nil.\<close>

datatype runtime_object = ResourceReservation_object gobject | ResourceReservationList_object glist

definition Object_DeepCopyObject ::
  "quantity_copy \<Rightarrow> meta_copy \<Rightarrow> gobject option \<Rightarrow> heap \<Rightarrow> runtime_object option \<times> heap" where
  "Object_DeepCopyObject cq cm x h =
     (let (c, h1) = Object_DeepCopy cq cm x h
      in case c of Some c \<Rightarrow> (Some (ResourceReservation_object c), h1) | None \<Rightarrow> (None, h1))"

definition List_DeepCopyObject ::
  "quantity_copy \<Rightarrow> meta_copy \<Rightarrow> glist option \<Rightarrow> heap \<Rightarrow> runtime_object option \<times> heap" where
  "List_DeepCopyObject cq cm l h =
     (let (c, h1) = List_DeepCopy cq cm l h
      in case c of Some c \<Rightarrow> (Some (ResourceReservationList_object c), h1) | None \<Rightarrow> (None, h1))"

section \<open>What an object says, and what it reaches\<close>

definition view_quantity :: "heap \<Rightarrow> gquantity \<Rightarrow> int \<times> int option" where
  "view_quantity h q = (gq_amount q, map_option (h_dec h) (gq_dec q))"

definition view_reservation ::
  "heap \<Rightarrow> greservation \<Rightarrow> string \<times> (int \<times> int option) \<times> (int \<times> int option) \<times> (int \<times> int option)" where
  "view_reservation h r = (gr_node r, view_quantity h (gr_cpu r), view_quantity h (gr_memory r), view_quantity h (gr_gpu r))"

definition view_reservations where
  "view_reservations h rs = map (\<lambda>(key, r). (key, view_reservation h r)) rs"

definition view_meta :: "heap \<Rightarrow> gmeta \<Rightarrow> string \<times> string list option" where
  "view_meta h m = (gm_name m, map_option (h_finalizers h) (gm_finalizers m))"

definition view_object where
  "view_object h x =
     (view_meta h (go_meta x),
      map_option (\<lambda>a. view_reservations h (h_reservations h a)) (gs_reservations (go_spec x)),
      map_option (h_pods h) (gt_pods (go_status x)), map_option (h_conditions h) (gt_conditions (go_status x)))"

definition dec_addrs :: "gquantity \<Rightarrow> addr set" where
  "dec_addrs q = set_option (gq_dec q)"

definition reservation_addrs :: "greservation \<Rightarrow> addr set" where
  "reservation_addrs r = dec_addrs (gr_cpu r) \<union> dec_addrs (gr_memory r) \<union> dec_addrs (gr_gpu r)"

definition map_addrs :: "(greservation \<Rightarrow> addr set) \<Rightarrow> greservation gomap \<Rightarrow> addr set" where
  "map_addrs f rs = (\<Union>(key, r) \<in> set rs. f r)"

definition spec_addrs :: "(greservation \<Rightarrow> addr set) \<Rightarrow> heap \<Rightarrow> gspec \<Rightarrow> addr set" where
  "spec_addrs f h s = (case gs_reservations s of None \<Rightarrow> {} | Some a \<Rightarrow> map_addrs f (h_reservations h a))"

definition object_addrs :: "heap \<Rightarrow> gobject \<Rightarrow> addr set" where
  "object_addrs h x =
     set_option (gm_finalizers (go_meta x)) \<union> set_option (gs_reservations (go_spec x)) \<union>
     spec_addrs reservation_addrs h (go_spec x) \<union> set_option (gt_pods (go_status x)) \<union> set_option (gt_conditions (go_status x))"

text \<open>The cells the generated code forgets to copy.\<close>

definition forgotten_addrs :: "heap \<Rightarrow> gobject \<Rightarrow> addr set" where
  "forgotten_addrs h x = spec_addrs (\<lambda>r. dec_addrs (gr_gpu r)) h (go_spec x) \<union> set_option (gt_conditions (go_status x))"

definition below :: "heap \<Rightarrow> addr set" where
  "below h = {a. a < h_lim h}"

text \<open>A heap that has grown: the old cells are as they were.\<close>

definition extends :: "heap \<Rightarrow> heap \<Rightarrow> bool" where
  "extends h h' \<longleftrightarrow> h_lim h \<le> h_lim h' \<and>
     (\<forall>a < h_lim h. h_dec h' a = h_dec h a \<and> h_reservations h' a = h_reservations h a \<and> h_pods h' a = h_pods h a \<and>
        h_conditions h' a = h_conditions h a \<and> h_finalizers h' a = h_finalizers h a \<and> h_items h' a = h_items h a)"

lemma extends_refl [simp]: "extends h h"
  by (simp add: extends_def)

lemma extends_trans: "extends h h1 \<Longrightarrow> extends h1 h2 \<Longrightarrow> extends h h2"
  by (simp add: extends_def)

lemma extends_below: "extends h h' \<Longrightarrow> below h \<subseteq> below h'"
  by (auto simp: extends_def below_def)

lemma extends_cells:
  assumes "extends h h'" "a < h_lim h"
  shows "h_dec h' a = h_dec h a" "h_reservations h' a = h_reservations h a" "h_pods h' a = h_pods h a"
    "h_conditions h' a = h_conditions h a" "h_finalizers h' a = h_finalizers h a" "h_items h' a = h_items h a"
  using assms by (auto simp: extends_def)

text \<open>The cells below a limit can only be changed where they are written.\<close>

definition same_on :: "addr set \<Rightarrow> heap \<Rightarrow> heap \<Rightarrow> bool" where
  "same_on A h h' \<longleftrightarrow>
     (\<forall>a \<in> A. h_dec h' a = h_dec h a \<and> h_reservations h' a = h_reservations h a \<and> h_pods h' a = h_pods h a \<and>
        h_conditions h' a = h_conditions h a \<and> h_finalizers h' a = h_finalizers h a \<and> h_items h' a = h_items h a)"

lemma extends_same_on: "extends h h' \<Longrightarrow> A \<subseteq> below h \<Longrightarrow> same_on A h h'"
  by (auto simp: extends_def same_on_def below_def)

lemma same_on_subset: "same_on A h h' \<Longrightarrow> B \<subseteq> A \<Longrightarrow> same_on B h h'"
  by (auto simp: same_on_def)

lemma view_quantity_same: "same_on (dec_addrs q) h h' \<Longrightarrow> view_quantity h' q = view_quantity h q"
  by (cases "gq_dec q") (auto simp: view_quantity_def dec_addrs_def same_on_def)

lemma view_reservation_same: "same_on (reservation_addrs r) h h' \<Longrightarrow> view_reservation h' r = view_reservation h r"
  by (auto simp: view_reservation_def reservation_addrs_def intro!: view_quantity_same elim: same_on_subset)

lemma view_reservations_same:
  "same_on (map_addrs reservation_addrs rs) h h' \<Longrightarrow> view_reservations h' rs = view_reservations h rs"
  by (auto simp: view_reservations_def map_addrs_def intro!: view_reservation_same elim: same_on_subset)

lemma map_option_same: "(\<And>a. a \<in> set_option x \<Longrightarrow> f a = g a) \<Longrightarrow> map_option f x = map_option g x"
  by (cases x) auto

lemma same_onD:
  assumes "same_on A h h'" "a \<in> A"
  shows "h_dec h' a = h_dec h a" "h_reservations h' a = h_reservations h a" "h_pods h' a = h_pods h a"
    "h_conditions h' a = h_conditions h a" "h_finalizers h' a = h_finalizers h a" "h_items h' a = h_items h a"
  using assms by (auto simp: same_on_def)

lemma view_object_same:
  assumes "same_on (object_addrs h x) h h'"
  shows "view_object h' x = view_object h x" and "object_addrs h' x = object_addrs h x"
proof -
  note eqs = same_onD [OF assms]
  have res: "h_reservations h' a = h_reservations h a" if "gs_reservations (go_spec x) = Some a" for a
    by (rule eqs) (simp add: object_addrs_def that)
  have view: "view_reservations h' (h_reservations h a) = view_reservations h (h_reservations h a)"
    if "gs_reservations (go_spec x) = Some a" for a
    by (rule view_reservations_same, rule same_on_subset [OF assms]) (auto simp: object_addrs_def spec_addrs_def that)
  have "map_option (h_finalizers h') (gm_finalizers (go_meta x)) = map_option (h_finalizers h) (gm_finalizers (go_meta x))"
    "map_option (h_pods h') (gt_pods (go_status x)) = map_option (h_pods h) (gt_pods (go_status x))"
    "map_option (h_conditions h') (gt_conditions (go_status x)) = map_option (h_conditions h) (gt_conditions (go_status x))"
    by (rule map_option_same, rule eqs, simp add: object_addrs_def)+
  then show "view_object h' x = view_object h x"
    using res view by (cases "gs_reservations (go_spec x)") (auto simp: view_object_def view_meta_def)
  show "object_addrs h' x = object_addrs h x"
    using res by (auto simp: object_addrs_def spec_addrs_def split: option.splits)
qed

lemma view_object_extends:
  assumes "extends h h'" "object_addrs h x \<subseteq> below h"
  shows "view_object h' x = view_object h x" and "object_addrs h' x = object_addrs h x"
  using view_object_same [OF extends_same_on [OF assms]] by simp_all

section \<open>Fresh cells\<close>

text \<open>Allocated between two heaps.\<close>

definition fresh :: "heap \<Rightarrow> heap \<Rightarrow> addr set \<Rightarrow> bool" where
  "fresh h h' A \<longleftrightarrow> A \<subseteq> below h' - below h"

lemma fresh_empty [simp]: "fresh h h' {}"
  by (simp add: fresh_def)

lemma fresh_Un [simp]: "fresh h h' (A \<union> B) \<longleftrightarrow> fresh h h' A \<and> fresh h h' B"
  by (auto simp: fresh_def)

lemma fresh_widen: "fresh h h' A \<Longrightarrow> extends h0 h \<Longrightarrow> extends h' h1 \<Longrightarrow> fresh h0 h1 A"
  using extends_below by (fastforce simp: fresh_def)

lemma alloc_extends: "alloc h = (b, h1) \<Longrightarrow> extends h h1 \<and> b = h_lim h \<and> h_lim h1 = h_lim h + 1"
  by (auto simp: alloc_def extends_def)

text \<open>Filling the cell that was allocated first leaves the older cells alone.\<close>

lemma extends_fill:
  assumes "alloc h = (b, h1)" "extends h1 h2"
  shows "extends h (h2\<lparr>h_reservations := (h_reservations h2)(b := rs)\<rparr>)" "extends h (h2\<lparr>h_items := (h_items h2)(b := xs)\<rparr>)"
    "fresh h (h2\<lparr>h_reservations := (h_reservations h2)(b := rs)\<rparr>) {b}" "fresh h (h2\<lparr>h_items := (h_items h2)(b := xs)\<rparr>) {b}"
  using assms by (auto simp: alloc_def extends_def fresh_def below_def)

section \<open>What the copiers of Kubernetes promise\<close>

locale go_copier =
  fixes cq :: quantity_copy and cm :: meta_copy
  assumes quantity_heap: "cq q h = (q', h') \<Longrightarrow> extends h h'"
    and quantity_fresh: "cq q h = (q', h') \<Longrightarrow> fresh h h' (dec_addrs q')"
    and quantity_view: "cq q h = (q', h') \<Longrightarrow> dec_addrs q \<subseteq> below h \<Longrightarrow> view_quantity h' q' = view_quantity h q"
    and meta_heap: "cm m h = (m', h') \<Longrightarrow> extends h h'"
    and meta_fresh: "cm m h = (m', h') \<Longrightarrow> fresh h h' (set_option (gm_finalizers m'))"
    and meta_view: "cm m h = (m', h') \<Longrightarrow> set_option (gm_finalizers m) \<subseteq> below h \<Longrightarrow> view_meta h' m' = view_meta h m"
begin

lemma reservation:
  assumes "Reservation_DeepCopyInto cq r h = (r', h')"
  shows "extends h h'" and "fresh h h' (dec_addrs (gr_cpu r') \<union> dec_addrs (gr_memory r'))" and "gr_gpu r' = gr_gpu r"
    and "reservation_addrs r \<subseteq> below h \<Longrightarrow> view_reservation h' r' = view_reservation h r"
proof -
  obtain cpu h1 memory where c: "cq (gr_cpu r) h = (cpu, h1)" "cq (gr_memory r) h1 = (memory, h')"
    and r': "r' = r\<lparr>gr_cpu := cpu, gr_memory := memory\<rparr>"
    using assms by (auto simp: Reservation_DeepCopyInto_def split: prod.splits)
  have e: "extends h h1" "extends h1 h'"
    using c quantity_heap by blast+
  show ext: "extends h h'"
    by (rule extends_trans [OF e])
  show "fresh h h' (dec_addrs (gr_cpu r') \<union> dec_addrs (gr_memory r'))"
    using fresh_widen [OF quantity_fresh [OF c(1)] extends_refl e(2)] fresh_widen [OF quantity_fresh [OF c(2)] e(1) extends_refl]
    by (simp add: r')
  show "gr_gpu r' = gr_gpu r"
    by (simp add: r')
  show "view_reservation h' r' = view_reservation h r" if sub: "reservation_addrs r \<subseteq> below h"
  proof -
    have "dec_addrs cpu \<subseteq> below h1"
      using quantity_fresh [OF c(1)] by (auto simp: fresh_def)
    then have "view_quantity h' cpu = view_quantity h (gr_cpu r)"
      using view_quantity_same [OF extends_same_on [OF e(2)]] quantity_view [OF c(1)] sub by (simp add: reservation_addrs_def)
    moreover have "view_quantity h' memory = view_quantity h (gr_memory r)"
      using quantity_view [OF c(2)] view_quantity_same [OF extends_same_on [OF e(1)]] sub extends_below [OF e(1)]
      by (auto simp: reservation_addrs_def)
    ultimately show ?thesis
      using view_quantity_same [OF extends_same_on [OF ext]] sub
      by (simp add: view_reservation_def reservation_addrs_def r')
  qed
qed

lemma reservations:
  assumes "copy_reservations cq rs h = (rs', h')"
  shows "extends h h'" and "fresh h h' (map_addrs (\<lambda>r. dec_addrs (gr_cpu r) \<union> dec_addrs (gr_memory r)) rs')"
    and "map_addrs (\<lambda>r. dec_addrs (gr_gpu r)) rs' = map_addrs (\<lambda>r. dec_addrs (gr_gpu r)) rs"
    and "map_addrs reservation_addrs rs \<subseteq> below h \<Longrightarrow> view_reservations h' rs' = view_reservations h rs"
  using assms
proof (induction rs arbitrary: h rs' h')
  case Nil
  { case 1 then show ?case by simp }
  { case 2 then show ?case by (simp add: map_addrs_def) }
  { case 3 then show ?case by (simp add: map_addrs_def) }
  { case 4 then show ?case by (simp add: view_reservations_def) }
next
  case (Cons kr rs)
  obtain key val where kr: "kr = (key, val)"
    by (cases kr)
  have split: "\<exists>out h1 outs. Reservation_DeepCopyInto cq val h = (out, h1) \<and> copy_reservations cq rs h1 = (outs, h')
      \<and> rs' = (key, out) # outs" if "copy_reservations cq (kr # rs) h = (rs', h')" for h rs' h'
    using that by (auto simp: kr split: prod.splits)
  { case 1 then show ?case using split [OF 1] reservation(1) Cons.IH(1) extends_trans by blast }
  { case 2
    then obtain out h1 outs where s: "Reservation_DeepCopyInto cq val h = (out, h1)" "copy_reservations cq rs h1 = (outs, h')"
      "rs' = (key, out) # outs" using split by blast
    show ?case
      using fresh_widen [OF reservation(2) [OF s(1)] extends_refl Cons.IH(1) [OF s(2)]]
        fresh_widen [OF Cons.IH(2) [OF s(2)] reservation(1) [OF s(1)] extends_refl]
      by (simp add: s(3) map_addrs_def) }
  { case 3
    then obtain out h1 outs where s: "Reservation_DeepCopyInto cq val h = (out, h1)" "copy_reservations cq rs h1 = (outs, h')"
      "rs' = (key, out) # outs" using split by blast
    show ?case
      using reservation(3) [OF s(1)] Cons.IH(3) [OF s(2)] by (simp add: s(3) kr map_addrs_def) }
  { case 4
    then obtain out h1 outs where s: "Reservation_DeepCopyInto cq val h = (out, h1)" "copy_reservations cq rs h1 = (outs, h')"
      "rs' = (key, out) # outs" using split by blast
    have sub: "reservation_addrs val \<subseteq> below h" "map_addrs reservation_addrs rs \<subseteq> below h"
      using 4 by (auto simp: kr map_addrs_def)
    have out: "reservation_addrs out \<subseteq> below h1"
      using reservation(2,3) [OF s(1)] sub(1) extends_below [OF reservation(1) [OF s(1)]]
      by (auto simp: reservation_addrs_def fresh_def)
    have "view_reservations h' outs = view_reservations h rs"
      using Cons.IH(4) [OF _ s(2)] sub(2) extends_below [OF reservation(1) [OF s(1)]]
        view_reservations_same [OF extends_same_on [OF reservation(1) [OF s(1)]]] by fastforce
    moreover have "view_reservation h' out = view_reservation h val"
      using view_reservation_same [OF extends_same_on [OF Cons.IH(1) [OF s(2)] out]] reservation(4) [OF s(1) sub(1)] by simp
    ultimately show ?case
      by (simp add: s(3) kr view_reservations_def) }
qed

end

lemma same_on_fill:
  "b \<notin> A \<Longrightarrow> same_on A h (h\<lparr>h_reservations := (h_reservations h)(b := rs)\<rparr>)"
  "b \<notin> A \<Longrightarrow> same_on A h (h\<lparr>h_items := (h_items h)(b := xs)\<rparr>)"
  by (auto simp: same_on_def)

lemma view_reservations_fill [simp]:
  "view_reservations (h\<lparr>h_reservations := rs\<rparr>) = view_reservations h"
  by (simp add: fun_eq_iff view_reservations_def view_reservation_def view_quantity_def)

lemma extends_reservations: "extends h h' \<Longrightarrow> a \<in> below h \<Longrightarrow> h_reservations h' a = h_reservations h a"
  by (auto simp: extends_def below_def)

lemma below_lim [simp]: "below (h\<lparr>h_reservations := rs\<rparr>) = below h" "below (h\<lparr>h_items := xs\<rparr>) = below h"
  "below (h\<lparr>h_pods := ps\<rparr>) = below h"
  by (simp_all add: below_def)

definition view_spec where
  "view_spec h s = map_option (\<lambda>a. view_reservations h (h_reservations h a)) (gs_reservations s)"

definition view_status where
  "view_status h s = (map_option (h_pods h) (gt_pods s), map_option (h_conditions h) (gt_conditions s))"

lemma view_object_parts:
  "view_object h x = (view_meta h (go_meta x), view_spec h (go_spec x), view_status h (go_status x))"
  by (simp add: view_object_def view_spec_def view_status_def)

definition spec_cells :: "heap \<Rightarrow> gspec \<Rightarrow> addr set" where
  "spec_cells h s = set_option (gs_reservations s) \<union> spec_addrs reservation_addrs h s"

definition status_cells :: "gstatus \<Rightarrow> addr set" where
  "status_cells s = set_option (gt_pods s) \<union> set_option (gt_conditions s)"

lemma object_addrs_parts:
  "object_addrs h x = set_option (gm_finalizers (go_meta x)) \<union> spec_cells h (go_spec x) \<union> status_cells (go_status x)"
  by (auto simp: object_addrs_def spec_cells_def status_cells_def)

lemma spec_same:
  assumes "same_on (spec_cells h s) h h'"
  shows "view_spec h' s = view_spec h s" and "spec_addrs f h' s = spec_addrs f h s"
proof -
  have res: "h_reservations h' a = h_reservations h a" if "gs_reservations s = Some a" for a
    by (rule same_onD [OF assms]) (simp add: spec_cells_def that)
  have "view_reservations h' (h_reservations h a) = view_reservations h (h_reservations h a)"
    if "gs_reservations s = Some a" for a
    by (rule view_reservations_same, rule same_on_subset [OF assms]) (auto simp: spec_cells_def spec_addrs_def that)
  then show "view_spec h' s = view_spec h s"
    using res by (cases "gs_reservations s") (simp_all add: view_spec_def)
  show "spec_addrs f h' s = spec_addrs f h s"
    using res by (simp add: spec_addrs_def split: option.splits)
qed

lemma status_same: "same_on (status_cells s) h h' \<Longrightarrow> view_status h' s = view_status h s"
  by (auto simp: view_status_def status_cells_def same_on_def intro!: map_option_same)

lemma Status_DeepCopyInto_copies:
  assumes "Status_DeepCopyInto s h = (s', h')"
  shows "extends h h'" and "fresh h h' (set_option (gt_pods s'))" and "gt_conditions s' = gt_conditions s"
    and "status_cells s \<subseteq> below h \<Longrightarrow> view_status h' s' = view_status h s"
  using assms
  by (auto simp: Status_DeepCopyInto_def alloc_def extends_def fresh_def below_def status_cells_def view_status_def
      split: option.splits)

context go_copier
begin

lemma spec:
  assumes "Spec_DeepCopyInto cq s h = (s', h')" and sub: "spec_cells h s \<subseteq> below h"
  shows "extends h h'"
    and "fresh h h' (set_option (gs_reservations s') \<union> spec_addrs (\<lambda>r. dec_addrs (gr_cpu r) \<union> dec_addrs (gr_memory r)) h' s')"
    and "spec_addrs (\<lambda>r. dec_addrs (gr_gpu r)) h' s' = spec_addrs (\<lambda>r. dec_addrs (gr_gpu r)) h s"
    and "view_spec h' s' = view_spec h s"
proof -
  have "extends h h' \<and>
      fresh h h' (set_option (gs_reservations s') \<union> spec_addrs (\<lambda>r. dec_addrs (gr_cpu r) \<union> dec_addrs (gr_memory r)) h' s') \<and>
      spec_addrs (\<lambda>r. dec_addrs (gr_gpu r)) h' s' = spec_addrs (\<lambda>r. dec_addrs (gr_gpu r)) h s \<and> view_spec h' s' = view_spec h s"
  proof (cases "gs_reservations s")
    case None
    then show ?thesis
      using assms by (auto simp: Spec_DeepCopyInto_def spec_addrs_def view_spec_def)
  next
    case (Some a)
    obtain b h1 outs h2 where c: "alloc h = (b, h1)" "copy_reservations cq (h_reservations h1 a) h1 = (outs, h2)"
      and r: "s' = s\<lparr>gs_reservations := Some b\<rparr>" "h' = h2\<lparr>h_reservations := (h_reservations h2)(b := outs)\<rparr>"
      using assms Some by (auto simp: Spec_DeepCopyInto_def split: prod.splits)
    have e: "extends h h1" "extends h1 h2"
      using alloc_extends [OF c(1)] reservations(1) [OF c(2)] by auto
    have a: "h_reservations h1 a = h_reservations h a" and in_h: "map_addrs reservation_addrs (h_reservations h a) \<subseteq> below h"
      using sub extends_reservations [OF e(1)] by (auto simp: Some spec_cells_def spec_addrs_def)
    have "fresh h h2 (map_addrs (\<lambda>r. dec_addrs (gr_cpu r) \<union> dec_addrs (gr_memory r)) outs)"
      by (rule fresh_widen [OF reservations(2) [OF c(2)] e(1) extends_refl])
    moreover have "view_reservations h2 outs = view_reservations h (h_reservations h a)"
      using reservations(4) [OF c(2)] in_h extends_below [OF e(1)]
        view_reservations_same [OF extends_same_on [OF e(1) in_h]] by (simp add: a subset_trans)
    ultimately show ?thesis
      using extends_fill(1,3) [OF c(1) e(2), of outs] reservations(3) [OF c(2)]
      by (simp add: r Some a spec_addrs_def view_spec_def fresh_def)
  qed
  then show "extends h h'"
    and "fresh h h' (set_option (gs_reservations s') \<union> spec_addrs (\<lambda>r. dec_addrs (gr_cpu r) \<union> dec_addrs (gr_memory r)) h' s')"
    and "spec_addrs (\<lambda>r. dec_addrs (gr_gpu r)) h' s' = spec_addrs (\<lambda>r. dec_addrs (gr_gpu r)) h s"
    and "view_spec h' s' = view_spec h s"
    by auto
qed

end

lemma spec_cells_split:
  "spec_cells h s = (set_option (gs_reservations s) \<union> spec_addrs (\<lambda>r. dec_addrs (gr_cpu r) \<union> dec_addrs (gr_memory r)) h s)
     \<union> spec_addrs (\<lambda>r. dec_addrs (gr_gpu r)) h s"
  by (cases "gs_reservations s") (auto simp: spec_cells_def spec_addrs_def map_addrs_def reservation_addrs_def)

text \<open>An old heap, a heap that has grown, and a copy: the copy lives in the grown heap, holds what the original
  holds, and the old cells it reaches are the given ones.\<close>

definition copied :: "heap \<Rightarrow> heap \<Rightarrow> (heap \<Rightarrow> 'a) \<Rightarrow> 'a \<Rightarrow> addr set \<Rightarrow> addr set \<Rightarrow> bool" where
  "copied h h' view v cells shared \<longleftrightarrow>
     extends h h' \<and> view h' = v \<and> cells \<subseteq> below h' \<and> cells \<inter> below h = shared"

context go_copier
begin

lemma object:
  assumes o: "Object_DeepCopyInto cq cm x h = (x', h')" and sub: "object_addrs h x \<subseteq> below h"
  shows "copied h h' (\<lambda>h. view_object h x') (view_object h x) (object_addrs h' x') (forgotten_addrs h x)"
proof -
  obtain meta h1 spec' h2 status where
    c: "cm (go_meta x) h = (meta, h1)" "Spec_DeepCopyInto cq (go_spec x) h1 = (spec', h2)"
      "Status_DeepCopyInto (go_status x) h2 = (status, h')"
    and x': "x' = x\<lparr>go_meta := meta, go_spec := spec', go_status := status\<rparr>"
    using o by (auto simp: Object_DeepCopyInto_def split: prod.splits)
  have parts: "set_option (gm_finalizers (go_meta x)) \<subseteq> below h" "spec_cells h (go_spec x) \<subseteq> below h"
    "status_cells (go_status x) \<subseteq> below h"
    using sub by (auto simp: object_addrs_parts)
  have e1: "extends h h1"
    by (rule meta_heap [OF c(1)])
  note spec1 = spec_same [OF extends_same_on [OF e1 parts(2)]]
  have cells1: "spec_cells h1 (go_spec x) = spec_cells h (go_spec x)"
    using spec1(2) by (simp add: spec_cells_def)
  have "spec_cells h1 (go_spec x) \<subseteq> below h1"
    using parts(2) extends_below [OF e1] cells1 by blast
  note spec2 = spec [OF c(2) this]
  have e2: "extends h1 h2" and e02: "extends h h2"
    using spec2(1) e1 extends_trans by blast+
  have "status_cells (go_status x) \<subseteq> below h2"
    using parts(3) extends_below [OF e02] by blast
  note status3 = Status_DeepCopyInto_copies(1-3) [OF c(3)] Status_DeepCopyInto_copies(4) [OF c(3) this]
  have e3: "extends h2 h'" and e13: "extends h1 h'" and e: "extends h h'"
    using status3(1) e2 e02 extends_trans by blast+
  have in2: "spec_cells h2 spec' \<subseteq> below h2"
    using spec2(2,3) parts(2) spec1(2) extends_below [OF e02] by (auto simp: spec_cells_split fresh_def)
  have cells3: "spec_cells h' spec' = spec_cells h2 spec'"
    using spec_same(2) [OF extends_same_on [OF e3 in2]] by (simp add: spec_cells_def)
  have fm: "fresh h h' (set_option (gm_finalizers meta))"
    by (rule fresh_widen [OF meta_fresh [OF c(1)] extends_refl e13])
  have fs: "fresh h h' (set_option (gs_reservations spec') \<union> spec_addrs (\<lambda>r. dec_addrs (gr_cpu r) \<union> dec_addrs (gr_memory r)) h2 spec')"
    by (rule fresh_widen [OF spec2(2) e1 e3])
  have ft: "fresh h h' (set_option (gt_pods status))"
    by (rule fresh_widen [OF status3(2) e02 extends_refl])
  have cells: "object_addrs h' x' = set_option (gm_finalizers meta) \<union> spec_cells h2 spec' \<union> status_cells status"
    by (simp add: object_addrs_parts x' cells3)
  have "object_addrs h' x' \<inter> below h = forgotten_addrs h x"
    using fm fs ft spec2(3) spec1(2) parts status3(3)
    by (auto simp: cells spec_cells_split status_cells_def forgotten_addrs_def fresh_def)
  moreover have "object_addrs h' x' \<subseteq> below h'"
    using fm ft in2 extends_below [OF e3] extends_below [OF e] parts(3) status3(3)
    by (auto simp: cells fresh_def status_cells_def)
  moreover have "view_meta h' meta = view_meta h (go_meta x)"
  proof -
    have "same_on (set_option (gm_finalizers meta)) h1 h'"
      using meta_fresh [OF c(1)] by (intro extends_same_on [OF e13]) (auto simp: fresh_def)
    then have "view_meta h' meta = view_meta h1 meta"
      by (auto simp: view_meta_def same_on_def intro!: map_option_same)
    then show ?thesis
      using meta_view [OF c(1) parts(1)] by simp
  qed
  moreover have "view_spec h' spec' = view_spec h (go_spec x)"
    using spec_same(1) [OF extends_same_on [OF e3 in2]] spec2(4) spec1(1) by simp
  moreover have "view_status h' status = view_status h (go_status x)"
    using status3(4) status_same [OF extends_same_on [OF e02 parts(3)]] by simp
  ultimately show ?thesis
    using e by (simp add: copied_def view_object_parts x')
qed

end

lemma object_fill_items [simp]:
  "view_object (h\<lparr>h_items := xs\<rparr>) = view_object h" "object_addrs (h\<lparr>h_items := xs\<rparr>) = object_addrs h"
  by (simp_all add: fun_eq_iff view_object_def view_meta_def view_reservations_def view_reservation_def view_quantity_def
      object_addrs_def spec_addrs_def split: option.split)

definition items_addrs :: "heap \<Rightarrow> gobject list \<Rightarrow> addr set" where
  "items_addrs h xs = (\<Union>x \<in> set xs. object_addrs h x)"

definition list_addrs :: "heap \<Rightarrow> glist \<Rightarrow> addr set" where
  "list_addrs h l = set_option (gl_items l) \<union> (case gl_items l of None \<Rightarrow> {} | Some a \<Rightarrow> items_addrs h (h_items h a))"

definition view_list where
  "view_list h l = map_option (\<lambda>a. map (view_object h) (h_items h a)) (gl_items l)"

definition list_forgotten :: "heap \<Rightarrow> glist \<Rightarrow> addr set" where
  "list_forgotten h l = (case gl_items l of None \<Rightarrow> {} | Some a \<Rightarrow> \<Union>x \<in> set (h_items h a). forgotten_addrs h x)"

lemma inter_smaller: "A \<inter> C = F \<Longrightarrow> B \<subseteq> C \<Longrightarrow> F \<subseteq> B \<Longrightarrow> A \<inter> B = F"
  by blast

lemma forgotten_within: "forgotten_addrs h x \<subseteq> object_addrs h x"
  by (auto simp: forgotten_addrs_def object_addrs_parts spec_cells_split status_cells_def)

lemma spec_addrs_same: "extends h h' \<Longrightarrow> object_addrs h x \<subseteq> below h \<Longrightarrow> spec_addrs f h' (go_spec x) = spec_addrs f h (go_spec x)"
  by (rule spec_same(2) [OF extends_same_on]) (auto simp: object_addrs_parts)

lemma forgotten_extends: "extends h h' \<Longrightarrow> object_addrs h x \<subseteq> below h \<Longrightarrow> forgotten_addrs h' x = forgotten_addrs h x"
  by (simp add: forgotten_addrs_def spec_addrs_same)

lemma items_extends:
  assumes "extends h h'" "items_addrs h xs \<subseteq> below h"
  shows "map (view_object h') xs = map (view_object h) xs" "items_addrs h' xs = items_addrs h xs"
    "(\<Union>x \<in> set xs. forgotten_addrs h' x) = (\<Union>x \<in> set xs. forgotten_addrs h x)"
proof -
  have each: "object_addrs h x \<subseteq> below h" if "x \<in> set xs" for x
    using assms(2) that by (auto simp: items_addrs_def)
  show "map (view_object h') xs = map (view_object h) xs"
    using view_object_extends(1) [OF assms(1) each] by simp
  show "items_addrs h' xs = items_addrs h xs"
    using view_object_extends(2) [OF assms(1) each] by (simp add: items_addrs_def)
  show "(\<Union>x \<in> set xs. forgotten_addrs h' x) = (\<Union>x \<in> set xs. forgotten_addrs h x)"
    using forgotten_extends [OF assms(1) each] by simp
qed

context go_copier
begin

lemma items:
  assumes "copy_items cq cm xs h = (ys, h')" "items_addrs h xs \<subseteq> below h"
  shows "copied h h' (\<lambda>h. map (view_object h) ys) (map (view_object h) xs) (items_addrs h' ys)
    (\<Union>x \<in> set xs. forgotten_addrs h x)"
  using assms
proof (induction xs arbitrary: h ys)
  case Nil
  then show ?case by (simp add: copied_def items_addrs_def)
next
  case (Cons x xs)
  obtain y h1 zs where c: "Object_DeepCopyInto cq cm x h = (y, h1)" "copy_items cq cm xs h1 = (zs, h')" and ys: "ys = y # zs"
    using Cons.prems(1) by (auto split: prod.splits)
  have sub: "object_addrs h x \<subseteq> below h" "items_addrs h xs \<subseteq> below h"
    using Cons.prems(2) by (auto simp: items_addrs_def)
  have one: "extends h h1" "view_object h1 y = view_object h x" "object_addrs h1 y \<subseteq> below h1"
    "object_addrs h1 y \<inter> below h = forgotten_addrs h x"
    using object [OF c(1) sub(1)] by (simp_all add: copied_def)
  note mid = items_extends [OF one(1) sub(2)]
  have "items_addrs h1 xs \<subseteq> below h1"
    using mid(2) sub(2) extends_below [OF one(1)] by blast
  then have rest: "extends h1 h'" "map (view_object h') zs = map (view_object h1) xs" "items_addrs h' zs \<subseteq> below h'"
    "items_addrs h' zs \<inter> below h1 = (\<Union>x \<in> set xs. forgotten_addrs h1 x)"
    using Cons.IH [OF c(2)] by (simp_all add: copied_def)
  have "extends h h'"
    by (rule extends_trans [OF one(1) rest(1)])
  moreover have "map (view_object h') ys = map (view_object h) (x # xs)"
    using view_object_extends(1) [OF rest(1) one(3)] one(2) rest(2) mid(1) by (simp add: ys)
  moreover have "items_addrs h' ys \<subseteq> below h'"
    using rest(3) view_object_extends(2) [OF rest(1) one(3)] one(3) extends_below [OF rest(1)]
    by (auto simp: ys items_addrs_def)
  moreover have "items_addrs h' ys \<inter> below h = (\<Union>x \<in> set (x # xs). forgotten_addrs h x)"
  proof -
    have "items_addrs h' zs \<inter> below h = (\<Union>x \<in> set xs. forgotten_addrs h x)"
    proof -
      have "(\<Union>x \<in> set xs. forgotten_addrs h x) \<subseteq> below h"
        using sub(2) forgotten_within by (fastforce simp: items_addrs_def)
      then show ?thesis
        by (rule inter_smaller [OF rest(4) [unfolded mid(3)] extends_below [OF one(1)]])
    qed
    moreover have "items_addrs h' ys = object_addrs h1 y \<union> items_addrs h' zs"
      by (simp add: ys items_addrs_def view_object_extends(2) [OF rest(1) one(3)])
    ultimately show ?thesis
      using one(4) by auto
  qed
  ultimately show ?case
    by (simp add: copied_def)
qed

lemma list_copy:
  assumes "List_DeepCopyInto cq cm l h = (l', h')" and sub: "list_addrs h l \<subseteq> below h"
  shows "copied h h' (\<lambda>h. view_list h l') (view_list h l) (list_addrs h' l') (list_forgotten h l)"
proof (cases "gl_items l")
  case None
  then show ?thesis
    using assms by (auto simp: List_DeepCopyInto_def copied_def view_list_def list_addrs_def list_forgotten_def)
next
  case (Some a)
  obtain b h1 ys h2 where c: "alloc h = (b, h1)" "copy_items cq cm (h_items h1 a) h1 = (ys, h2)"
    and r: "l' = l\<lparr>gl_items := Some b\<rparr>" "h' = h2\<lparr>h_items := (h_items h2)(b := ys)\<rparr>"
    using assms Some by (auto simp: List_DeepCopyInto_def split: prod.splits)
  have e: "extends h h1" and b: "b \<notin> below h"
    using alloc_extends [OF c(1)] by (auto simp: below_def)
  have inside: "a \<in> below h" "items_addrs h (h_items h a) \<subseteq> below h"
    using sub by (auto simp: list_addrs_def Some)
  have a: "h_items h1 a = h_items h a"
    using e inside(1) by (auto simp: extends_def below_def)
  note mid = items_extends [OF e inside(2)]
  have "copied h1 h2 (\<lambda>h. map (view_object h) ys) (map (view_object h) (h_items h a)) (items_addrs h2 ys)
      (\<Union>x \<in> set (h_items h a). forgotten_addrs h x)"
    using items [OF c(2)] mid extends_below [OF e] inside(2) by (simp add: a subset_trans)
  then have rest: "extends h1 h2" "map (view_object h2) ys = map (view_object h) (h_items h a)" "items_addrs h2 ys \<subseteq> below h2"
    "items_addrs h2 ys \<inter> below h1 = (\<Union>x \<in> set (h_items h a). forgotten_addrs h x)"
    by (simp_all add: copied_def)
  have old: "(\<Union>x \<in> set (h_items h a). forgotten_addrs h x) \<subseteq> below h"
    using inside(2) forgotten_within by (fastforce simp: items_addrs_def)
  have "b \<in> below h1"
    using alloc_extends [OF c(1)] by (simp add: below_def)
  then have "b \<in> below h2"
    using extends_below [OF rest(1)] by blast
  then have in2: "b \<in> below h2"
    using extends_below [OF rest(1)] by blast
  have cells: "list_addrs h' l' = insert b (items_addrs h2 ys)"
    by (simp add: list_addrs_def r items_addrs_def)
  have "items_addrs h2 ys \<inter> below h = list_forgotten h l"
    unfolding list_forgotten_def Some option.case by (rule inter_smaller [OF rest(4) extends_below [OF e] old])
  then have "list_addrs h' l' \<inter> below h = list_forgotten h l"
    using b by (simp add: cells)
  moreover have "list_addrs h' l' \<subseteq> below h'"
    using rest(3) in2 unfolding cells by (simp add: r(2))
  moreover have "view_list h' l' = view_list h l"
    using rest(2) by (simp add: view_list_def r Some)
  moreover have "extends h h'"
    using extends_fill(2) [OF c(1) rest(1)] by (simp add: r(2))
  ultimately show ?thesis
    by (simp add: copied_def)
qed

text \<open>What is done to the cells of a copy reaches the original only through the cells that were not copied.\<close>

lemma writes_stay:
  assumes o: "Object_DeepCopyInto cq cm x h = (x', h')" and sub: "object_addrs h x \<subseteq> below h"
    and "forgotten_addrs h x = {}" and "same_on (- object_addrs h' x') h' h''"
  shows "view_object h'' x = view_object h x"
proof -
  have c: "extends h h'" "object_addrs h' x' \<inter> below h = {}"
    using object [OF o sub] assms(3) by (simp_all add: copied_def)
  have "same_on (object_addrs h' x) h' h''"
    using same_on_subset [OF assms(4)] c(2) view_object_extends(2) [OF c(1) sub] sub by blast
  then show ?thesis
    using view_object_same(1) view_object_extends(1) [OF c(1) sub] by simp
qed

end

section \<open>A copier of the kind Kubernetes has\<close>

definition fresh_quantity :: quantity_copy where
  "fresh_quantity q h =
     (case gq_dec q of
        None \<Rightarrow> (q, h)
      | Some a \<Rightarrow> let (b, h1) = alloc h in (q\<lparr>gq_dec := Some b\<rparr>, h1\<lparr>h_dec := (h_dec h1)(b := h_dec h1 a)\<rparr>))"

definition fresh_meta :: meta_copy where
  "fresh_meta m h =
     (case gm_finalizers m of
        None \<Rightarrow> (m, h)
      | Some a \<Rightarrow>
          let (b, h1) = alloc h in (m\<lparr>gm_finalizers := Some b\<rparr>, h1\<lparr>h_finalizers := (h_finalizers h1)(b := h_finalizers h1 a)\<rparr>))"

interpretation copying: go_copier fresh_quantity fresh_meta
  by unfold_locales
    (auto simp: fresh_quantity_def fresh_meta_def alloc_def extends_def fresh_def below_def dec_addrs_def view_quantity_def
      view_meta_def split: option.splits)

section \<open>Properties\<close>

text \<open>C27: a copy of a reservation object says what the original says, the original still says it, and the cells the
  two share are those the generated code forgets: the big decimals of the GPU quantities and the slice of
  conditions.  A nil object is copied to the nil interface.\<close>

theorem deep_copy_shares_forgotten:
  assumes "go_copier cq cm" "Object_DeepCopyObject cq cm (Some x) h = (y, h')" "object_addrs h x \<subseteq> below h"
  shows "\<exists>x'. y = Some (ResourceReservation_object x') \<and> view_object h' x' = view_object h x \<and>
      view_object h' x = view_object h x \<and> object_addrs h' x' \<inter> object_addrs h' x = forgotten_addrs h x \<and>
      Object_DeepCopyObject cq cm None h = (None, h)"
proof -
  obtain x' where o: "Object_DeepCopyInto cq cm x h = (x', h')" and y: "y = Some (ResourceReservation_object x')"
    using assms(2) by (auto simp: Object_DeepCopyObject_def Object_DeepCopy_def split: prod.splits)
  note c = go_copier.object [OF assms(1) o assms(3), unfolded copied_def]
  then show ?thesis
    using view_object_extends [OF _ assms(3), of h'] assms(3) forgotten_within [of h x]
    by (auto simp: y Object_DeepCopyObject_def Object_DeepCopy_def)
qed

text \<open>Nothing that is done to the cells of a copy shows in an original that has no condition and no big GPU
  quantity, whatever is written.\<close>

theorem deep_copy_writes_stay:
  assumes "go_copier cq cm" "Object_DeepCopyInto cq cm x h = (x', h')" "object_addrs h x \<subseteq> below h"
    and "gt_conditions (go_status x) = None" "spec_addrs (\<lambda>r. dec_addrs (gr_gpu r)) h (go_spec x) = {}"
    and "same_on (- object_addrs h' x') h' h''"
  shows "view_object h'' x = view_object h x"
  by (rule go_copier.writes_stay [OF assms(1-3) _ assms(6)]) (simp add: forgotten_addrs_def assms(4,5))

section \<open>Samples\<close>

text \<open>A quantity written as a big decimal, in the GPU field and elsewhere.\<close>

definition sample_heap :: heap where
  "sample_heap = \<lparr>h_dec = (\<lambda>a. 7), h_reservations = (\<lambda>a. [(''p'', \<lparr>gr_node = ''n'', gr_cpu = \<lparr>gq_amount = 4, gq_dec = Some 1\<rparr>,
       gr_memory = \<lparr>gq_amount = 8, gq_dec = None\<rparr>, gr_gpu = \<lparr>gq_amount = 0, gq_dec = Some 0\<rparr>\<rparr>)]),
     h_pods = (\<lambda>a. [(''p'', ''bound'')]), h_conditions = (\<lambda>a. [''Active'']), h_finalizers = (\<lambda>a. []), h_items = (\<lambda>a. []), h_lim = 5\<rparr>"

definition sample_object :: gobject where
  "sample_object = \<lparr>go_meta = \<lparr>gm_name = ''r'', gm_finalizers = None\<rparr>, go_spec = \<lparr>gs_reservations = Some 2\<rparr>,
     go_status = \<lparr>gt_pods = Some 3, gt_conditions = Some 4\<rparr>\<rparr>"

definition sample_plain :: gobject where
  "sample_plain = sample_object\<lparr>go_spec := \<lparr>gs_reservations = None\<rparr>, go_status := \<lparr>gt_pods = Some 3, gt_conditions = None\<rparr>\<rparr>"

lemma sample_within: "object_addrs sample_heap sample_object \<subseteq> below sample_heap" "object_addrs sample_heap sample_plain \<subseteq> below sample_heap"
  by (auto simp: object_addrs_def spec_addrs_def map_addrs_def reservation_addrs_def dec_addrs_def below_def sample_heap_def
      sample_object_def sample_plain_def)

theorem deep_copy_shares_forgotten_witness:
  "let (y, h') = Object_DeepCopyObject fresh_quantity fresh_meta (Some sample_object) sample_heap
   in \<exists>x'. y = Some (ResourceReservation_object x') \<and> view_object h' x' = view_object sample_heap sample_object \<and>
        object_addrs h' x' \<inter> object_addrs h' sample_object = {0, 4}"
proof -
  obtain y h' where o: "Object_DeepCopyObject fresh_quantity fresh_meta (Some sample_object) sample_heap = (y, h')"
    by (cases "Object_DeepCopyObject fresh_quantity fresh_meta (Some sample_object) sample_heap")
  have "forgotten_addrs sample_heap sample_object = {0, 4}"
    by (auto simp: forgotten_addrs_def spec_addrs_def map_addrs_def dec_addrs_def sample_heap_def sample_object_def)
  then show ?thesis
    using deep_copy_shares_forgotten [OF copying.go_copier_axioms o sample_within(1)] by (auto simp: o)
qed

text \<open>The copied map of pods is emptied; the original still has its pod.\<close>

theorem deep_copy_writes_stay_witness:
  "let (x', h') = Object_DeepCopyInto fresh_quantity fresh_meta sample_plain sample_heap
   in gt_pods (go_status x') = Some 5 \<and>
        view_object (h'\<lparr>h_pods := (h_pods h')(5 := [])\<rparr>) sample_plain = view_object sample_heap sample_plain"
proof -
  obtain x' h' where o: "Object_DeepCopyInto fresh_quantity fresh_meta sample_plain sample_heap = (x', h')"
    by (cases "Object_DeepCopyInto fresh_quantity fresh_meta sample_plain sample_heap")
  have p: "gt_pods (go_status x') = Some 5"
    using o by (auto simp: Object_DeepCopyInto_def fresh_meta_def Spec_DeepCopyInto_def Status_DeepCopyInto_def alloc_def
        sample_plain_def sample_object_def sample_heap_def)
  then have "5 \<in> object_addrs h' x'"
    by (simp add: object_addrs_def)
  then have w: "same_on (- object_addrs h' x') h' (h'\<lparr>h_pods := (h_pods h')(5 := [])\<rparr>)"
    by (auto simp: same_on_def)
  have plain: "gt_conditions (go_status sample_plain) = None"
    "spec_addrs (\<lambda>r. dec_addrs (gr_gpu r)) sample_heap (go_spec sample_plain) = {}"
    by (simp_all add: sample_plain_def spec_addrs_def)
  show ?thesis
    using deep_copy_writes_stay [OF copying.go_copier_axioms o sample_within(2) plain w] p by (simp add: o)
qed

end
