(* ===== verification/Metrics.thy ===== *)
theory Metrics
  imports GoFloat GoStrings
begin

text \<open>
  \<^verbatim>\<open>pkg/scheduler/metrics.go\<close>: the Prometheus vectors of the scheduler, one definition each, and
  what it takes for a use of one to be accepted.

  \<^verbatim>\<open>WithLabelValues\<close> of the Prometheus client panics when it is not given one value for each declared
  label, and registration panics on a name taken twice, a malformed name, a reserved label or buckets out of
  order.  The client's default buckets are a parameter.  A bucket bound is the number written in the code.
\<close>

section \<open>The vectors\<close>

datatype metric_kind = Counter | Gauge | Histogram

record metric =
  m_kind :: metric_kind
  m_name :: string
  m_help :: string
  m_buckets :: "rat list"
  m_labels :: "string list"

definition SchedulingAttempts :: "metric" where
  "SchedulingAttempts =
     \<lparr>m_kind = Counter, m_name = ''kubenexus_scheduling_attempts_total'',
      m_help = ''Total number of scheduling attempts'',
      m_buckets = [], m_labels = [''result'', ''plugin'']\<rparr>"

definition SchedulingDuration :: "rat list \<Rightarrow> metric" where
  "SchedulingDuration DefBuckets =
     \<lparr>m_kind = Histogram, m_name = ''kubenexus_scheduling_duration_seconds'',
      m_help = ''Duration of scheduling operations in seconds'',
      m_buckets = DefBuckets, m_labels = [''operation'', ''plugin'']\<rparr>"

definition PodGroupSize :: "metric" where
  "PodGroupSize =
     \<lparr>m_kind = Histogram, m_name = ''kubenexus_pod_group_size'',
      m_help = ''Size of pod groups being scheduled'',
      m_buckets = [1, 2, 5, 10, 20, 50, 100, 200, 500], m_labels = [''namespace'']\<rparr>"

definition WaitingPodsCount :: "metric" where
  "WaitingPodsCount =
     \<lparr>m_kind = Gauge, m_name = ''kubenexus_waiting_pods'',
      m_help = ''Number of pods waiting in permit stage'',
      m_buckets = [], m_labels = [''namespace'', ''pod_group'']\<rparr>"

definition ResourceReservations :: "metric" where
  "ResourceReservations =
     \<lparr>m_kind = Gauge, m_name = ''kubenexus_resource_reservations'',
      m_help = ''Number of active resource reservations'',
      m_buckets = [], m_labels = [''namespace'']\<rparr>"

definition VRAMPlacementDecisions :: "metric" where
  "VRAMPlacementDecisions =
     \<lparr>m_kind = Counter, m_name = ''kubenexus_vram_placement_decisions_total'',
      m_help = ''Total number of VRAM placement decisions by outcome'',
      m_buckets = [], m_labels = [''outcome'', ''workload_type'', ''data_source'']\<rparr>"

definition VRAMNodeUtilization :: "metric" where
  "VRAMNodeUtilization =
     \<lparr>m_kind = Gauge, m_name = ''kubenexus_vram_node_utilization_percent'',
      m_help = ''VRAM utilization percentage per node'',
      m_buckets = [], m_labels = [''node'', ''gpu_model'']\<rparr>"

definition VRAMRequestedBytes :: "metric" where
  "VRAMRequestedBytes =
     \<lparr>m_kind = Histogram, m_name = ''kubenexus_vram_requested_bytes'',
      m_help = ''VRAM requested by pods in bytes'',
      m_buckets = [8000000000, 16000000000, 24000000000, 40000000000, 48000000000, 80000000000, 160000000000, 320000000000], m_labels = [''namespace'', ''workload_type'']\<rparr>"

definition TopologyDecisions :: "metric" where
  "TopologyDecisions =
     \<lparr>m_kind = Counter, m_name = ''kubenexus_topology_decisions_total'',
      m_help = ''Total GPU topology placement decisions'',
      m_buckets = [], m_labels = [''topology_type'', ''success'', ''constraint_type'']\<rparr>"

definition TopologyQualityScore :: "metric" where
  "TopologyQualityScore =
     \<lparr>m_kind = Histogram, m_name = ''kubenexus_topology_quality_score'',
      m_help = ''Quality score of GPU topology placements (0-100)'',
      m_buckets = [0, 25, 50, 75, 90, 95, 100], m_labels = [''topology_type'']\<rparr>"

definition FragmentationEvents :: "metric" where
  "FragmentationEvents =
     \<lparr>m_kind = Counter, m_name = ''kubenexus_fragmentation_events_total'',
      m_help = ''Fragmentation prevention events'',
      m_buckets = [], m_labels = [''event_type'', ''prevented'']\<rparr>"

definition DataSourceUsage :: "metric" where
  "DataSourceUsage =
     \<lparr>m_kind = Counter, m_name = ''kubenexus_gpu_data_source_usage_total'',
      m_help = ''GPU topology data source usage (DRA, NFD, manual labels)'',
      m_buckets = [], m_labels = [''source'']\<rparr>"

definition SchedulingLatency :: "metric" where
  "SchedulingLatency =
     \<lparr>m_kind = Histogram, m_name = ''kubenexus_plugin_latency_seconds'',
      m_help = ''Plugin execution latency in seconds'',
      m_buckets = [1 / 1000, 5 / 1000, 1 / 100, 25 / 1000, 5 / 100, 1 / 10, 25 / 100, 5 / 10, 1], m_labels = [''plugin'', ''operation'']\<rparr>"

definition GPUAllocationSuccess :: "metric" where
  "GPUAllocationSuccess =
     \<lparr>m_kind = Counter, m_name = ''kubenexus_gpu_allocation_success_total'',
      m_help = ''Successful GPU allocations by workload type'',
      m_buckets = [], m_labels = [''workload_type'', ''gpu_count'', ''topology_aware'']\<rparr>"

definition GPUAllocationFailures :: "metric" where
  "GPUAllocationFailures =
     \<lparr>m_kind = Counter, m_name = ''kubenexus_gpu_allocation_failures_total'',
      m_help = ''GPU allocation failures by reason'',
      m_buckets = [], m_labels = [''reason'', ''workload_type'']\<rparr>"

definition GangSchedulingDecisions :: "metric" where
  "GangSchedulingDecisions =
     \<lparr>m_kind = Counter, m_name = ''kubenexus_gang_scheduling_decisions_total'',
      m_help = ''Gang scheduling decisions by outcome'',
      m_buckets = [], m_labels = [''outcome'', ''namespace'']\<rparr>"

definition GangWaitingTime :: "metric" where
  "GangWaitingTime =
     \<lparr>m_kind = Histogram, m_name = ''kubenexus_gang_waiting_time_seconds'',
      m_help = ''Time gang members wait for full gang formation'',
      m_buckets = [1, 5, 10, 30, 60, 120, 300, 600], m_labels = [''namespace'', ''pod_group'']\<rparr>"

definition GangStarvationPreventions :: "metric" where
  "GangStarvationPreventions =
     \<lparr>m_kind = Counter, m_name = ''kubenexus_gang_starvation_preventions_total'',
      m_help = ''Number of times starvation prevention boosted gang priority'',
      m_buckets = [], m_labels = [''namespace'', ''pod_group'']\<rparr>"

definition GangCompletionLatency :: "metric" where
  "GangCompletionLatency =
     \<lparr>m_kind = Histogram, m_name = ''kubenexus_gang_completion_latency_seconds'',
      m_help = ''Time from first pod to complete gang formation'',
      m_buckets = [5, 15, 30, 60, 120, 300, 600, 1200], m_labels = [''namespace'', ''pod_group'', ''gang_size'']\<rparr>"

definition NumaPlacementDecisions :: "metric" where
  "NumaPlacementDecisions =
     \<lparr>m_kind = Counter, m_name = ''kubenexus_numa_placement_decisions_total'',
      m_help = ''NUMA placement decisions by policy and outcome'',
      m_buckets = [], m_labels = [''policy'', ''outcome'', ''workload_type'']\<rparr>"

definition NumaFitQuality :: "metric" where
  "NumaFitQuality =
     \<lparr>m_kind = Histogram, m_name = ''kubenexus_numa_fit_quality_score'',
      m_help = ''NUMA fit quality score (0-100)'',
      m_buckets = [0, 25, 50, 75, 90, 95, 100], m_labels = [''policy'']\<rparr>"

definition NumaMemoryBandwidthPressure :: "metric" where
  "NumaMemoryBandwidthPressure =
     \<lparr>m_kind = Gauge, m_name = ''kubenexus_numa_memory_bandwidth_pressure_percent'',
      m_help = ''NUMA memory bandwidth pressure percentage'',
      m_buckets = [], m_labels = [''pressure_level'']\<rparr>"

definition NumaDistancePenalty :: "metric" where
  "NumaDistancePenalty =
     \<lparr>m_kind = Counter, m_name = ''kubenexus_numa_distance_penalty_total'',
      m_help = ''Cross-NUMA distance penalties applied'',
      m_buckets = [], m_labels = [''distance_level'']\<rparr>"

definition NumaGangAffinitySuccess :: "metric" where
  "NumaGangAffinitySuccess =
     \<lparr>m_kind = Counter, m_name = ''kubenexus_numa_gang_affinity_success_total'',
      m_help = ''Successful gang NUMA co-location events'',
      m_buckets = [], m_labels = [''gang_policy'', ''numa_id'']\<rparr>"

definition IslandProtectionEvents :: "metric" where
  "IslandProtectionEvents =
     \<lparr>m_kind = Counter, m_name = ''kubenexus_island_protection_events_total'',
      m_help = ''Island fragmentation protection actions taken'',
      m_buckets = [], m_labels = [''protection_type'', ''prevented'']\<rparr>"

definition PerfectFitPlacements :: "metric" where
  "PerfectFitPlacements =
     \<lparr>m_kind = Counter, m_name = ''kubenexus_perfect_fit_placements_total'',
      m_help = ''GPU island perfect fit placements'',
      m_buckets = [], m_labels = [''island_size'', ''topology_type'']\<rparr>"

definition IslandCompletions :: "metric" where
  "IslandCompletions =
     \<lparr>m_kind = Counter, m_name = ''kubenexus_island_completions_total'',
      m_help = ''GPU island completion events (fully utilized islands)'',
      m_buckets = [], m_labels = [''island_size'', ''topology_quality'']\<rparr>"

definition FragmentationScoreDistribution :: "metric" where
  "FragmentationScoreDistribution =
     \<lparr>m_kind = Histogram, m_name = ''kubenexus_fragmentation_score'',
      m_help = ''Resource fragmentation score distribution'',
      m_buckets = [0, 10, 20, 30, 50, 75, 90, 100], m_labels = [''resource_type'']\<rparr>"

definition IslandQualityDistribution :: "metric" where
  "IslandQualityDistribution =
     \<lparr>m_kind = Histogram, m_name = ''kubenexus_island_quality_score'',
      m_help = ''GPU island topology quality score distribution'',
      m_buckets = [30, 50, 80, 100], m_labels = [''topology_type'']\<rparr>"

definition registered :: "rat list \<Rightarrow> metric list" where
  "registered DefBuckets =
     [SchedulingAttempts, SchedulingDuration DefBuckets, PodGroupSize,
      WaitingPodsCount, ResourceReservations, VRAMPlacementDecisions,
      VRAMNodeUtilization, VRAMRequestedBytes, TopologyDecisions,
      TopologyQualityScore, FragmentationEvents, DataSourceUsage,
      SchedulingLatency, GPUAllocationSuccess, GPUAllocationFailures,
      GangSchedulingDecisions, GangWaitingTime, GangStarvationPreventions,
      GangCompletionLatency, NumaPlacementDecisions, NumaFitQuality,
      NumaMemoryBandwidthPressure, NumaDistancePenalty, NumaGangAffinitySuccess,
      IslandProtectionEvents, PerfectFitPlacements, IslandCompletions,
      FragmentationScoreDistribution, IslandQualityDistribution]"

lemmas metric_defs = SchedulingAttempts_def SchedulingDuration_def PodGroupSize_def
  WaitingPodsCount_def ResourceReservations_def VRAMPlacementDecisions_def
  VRAMNodeUtilization_def VRAMRequestedBytes_def TopologyDecisions_def
  TopologyQualityScore_def FragmentationEvents_def DataSourceUsage_def
  SchedulingLatency_def GPUAllocationSuccess_def GPUAllocationFailures_def
  GangSchedulingDecisions_def GangWaitingTime_def GangStarvationPreventions_def
  GangCompletionLatency_def NumaPlacementDecisions_def NumaFitQuality_def
  NumaMemoryBandwidthPressure_def NumaDistancePenalty_def NumaGangAffinitySuccess_def
  IslandProtectionEvents_def PerfectFitPlacements_def IslandCompletions_def
  FragmentationScoreDistribution_def IslandQualityDistribution_def

section \<open>What Prometheus asks of a vector\<close>

definition name_char :: "char \<Rightarrow> bool" where
  "name_char c \<longleftrightarrow> c \<in> set ''_abcdefghijklmnopqrstuvwxyzABCDEFGHIJKLMNOPQRSTUVWXYZ''"

definition name_ok :: "string \<Rightarrow> bool" where
  "name_ok s \<longleftrightarrow> s \<noteq> [] \<and> list_all name_char s"

definition label_ok :: "string \<Rightarrow> bool" where
  "label_ok l \<longleftrightarrow> name_ok l \<and> take 2 l \<noteq> ''__'' \<and> l \<noteq> ''le''"

definition metric_ok :: "metric \<Rightarrow> bool" where
  "metric_ok m \<longleftrightarrow> name_ok (m_name m) \<and> m_help m \<noteq> [] \<and> list_all label_ok (m_labels m) \<and> distinct (m_labels m) \<and>
     sorted_wrt (<) (m_buckets m) \<and> (m_kind m = Histogram \<longleftrightarrow> m_buckets m \<noteq> [])"

lemma registered_split: "registered B = SchedulingAttempts # SchedulingDuration B # drop 2 (registered [])"
  by (simp add: registered_def)

lemma registered_fixed: "list_all metric_ok (SchedulingAttempts # drop 2 (registered []))" "distinct (map m_name (registered []))"
  by code_simp+

lemma duration_names: "name_ok ''kubenexus_scheduling_duration_seconds''" "label_ok ''operation''" "label_ok ''plugin''"
  by code_simp+

text \<open>Registration cannot panic: no two vectors have the same name, every name and label is well formed and
  no label is a reserved one, labels of a vector differ, and the buckets of every histogram are in increasing
  order, given that the client's default buckets are.\<close>

theorem metrics_register:
  assumes "B \<noteq> []" "sorted_wrt (<) B"
  shows "list_all metric_ok (registered B) \<and> distinct (map m_name (registered B))"
proof -
  have "metric_ok (SchedulingDuration B)"
    using assms duration_names by (simp add: metric_ok_def SchedulingDuration_def)
  moreover have "map m_name (registered B) = map m_name (registered [])"
    by (simp add: registered_def SchedulingDuration_def)
  ultimately show ?thesis
    using registered_fixed registered_split [of B] by simp
qed

theorem metrics_register_witness: "list_all metric_ok (registered [1 / 200, 1 / 100, 10]) \<and> length (registered [1 / 200, 1 / 100, 10]) = 29"
  using metrics_register [of "[1 / 200, 1 / 100, 10]"] by (simp add: registered_def)

section \<open>Uses\<close>

text \<open>\<^verbatim>\<open>WithLabelValues(...)\<close> followed by \<^verbatim>\<open>Inc\<close>, \<^verbatim>\<open>Observe\<close> or \<^verbatim>\<open>Set\<close>.\<close>

datatype observation =
    Inc metric "string list"
  | Observe metric "string list" float64
  | SetTo metric "string list" float64

fun obs_metric :: "observation \<Rightarrow> metric" where
  "obs_metric (Inc m ls) = m"
| "obs_metric (Observe m ls x) = m"
| "obs_metric (SetTo m ls x) = m"

fun obs_labels :: "observation \<Rightarrow> string list" where
  "obs_labels (Inc m ls) = ls"
| "obs_labels (Observe m ls x) = ls"
| "obs_labels (SetTo m ls x) = ls"

fun obs_kind :: "observation \<Rightarrow> metric_kind" where
  "obs_kind (Inc m ls) = Counter"
| "obs_kind (Observe m ls x) = Histogram"
| "obs_kind (SetTo m ls x) = Gauge"

definition accepted :: "observation \<Rightarrow> bool" where
  "accepted ob \<longleftrightarrow> m_kind (obs_metric ob) = obs_kind ob \<and> length (obs_labels ob) = length (m_labels (obs_metric ob))"

text \<open>How often a counter is increased, and with which labels.\<close>

definition increments :: "metric \<Rightarrow> observation list \<Rightarrow> string list list" where
  "increments m obs = map obs_labels (filter (\<lambda>ob. obs_kind ob = Counter \<and> obs_metric ob = m) obs)"

lemma increments_simps [simp]:
  "increments m [] = []"
  "increments m (Inc m' ls # obs) = (if m' = m then [ls] else []) @ increments m obs"
  "increments m (Observe m' ls x # obs) = increments m obs"
  "increments m (SetTo m' ls x # obs) = increments m obs"
  "increments m (obs @ obs') = increments m obs @ increments m obs'"
  by (simp_all add: increments_def)

section \<open>Operations that report\<close>

text \<open>A result, absent when the operation panics, with the uses made until it ended.\<close>

type_synonym 'a reporting = "'a option \<times> observation list"

definition reports :: "observation list \<Rightarrow> 'a \<Rightarrow> 'a reporting" where
  "reports obs x = (Some x, obs)"

definition and_then :: "'a reporting \<Rightarrow> ('a \<Rightarrow> 'b reporting) \<Rightarrow> 'b reporting" where
  "and_then m f = (case m of (None, obs) \<Rightarrow> (None, obs) | (Some x, obs) \<Rightarrow> let (y, obs') = f x in (y, obs @ obs'))"

text \<open>A deferred use happens when the operation returns and also when it panics.\<close>

definition deferring :: "observation \<Rightarrow> 'a reporting \<Rightarrow> 'a reporting" where
  "deferring ob m = (fst m, snd m @ [ob])"

lemma fst_and_then [simp]: "fst (and_then m f) = Option.bind (fst m) (\<lambda>x. fst (f x))"
  by (cases m; cases "fst m") (auto simp: and_then_def split: prod.splits)

lemma snd_and_then: "snd (and_then m f) = snd m @ (case fst m of None \<Rightarrow> [] | Some x \<Rightarrow> snd (f x))"
  by (cases m; cases "fst m") (auto simp: and_then_def split: prod.splits)

lemma reports_simps [simp]: "fst (reports obs x) = Some x" "snd (reports obs x) = obs"
  by (simp_all add: reports_def)

lemma deferring_simps [simp]: "fst (deferring ob m) = fst m" "snd (deferring ob m) = snd m @ [ob]"
  by (simp_all add: deferring_def)

text \<open>
  The contract of an operation that reports: without its reports it is the operation modelled elsewhere, and
  every use it makes of a vector is one the client accepts.
\<close>

locale reporter =
  fixes plain :: "'i \<Rightarrow> 'a option" and reported :: "'i \<Rightarrow> 'a reporting"
  assumes forgets: "fst (reported i) = plain i"
    and accepts: "list_all accepted (snd (reported i))"
begin

text \<open>A sequence of calls, until one panics.\<close>

fun calls :: "'i list \<Rightarrow> 'a list reporting" where
  "calls [] = reports [] []"
| "calls (i # is) = and_then (reported i) (\<lambda>x. and_then (calls is) (\<lambda>xs. reports [] (x # xs)))"

lemma calls_accepted: "list_all accepted (snd (calls is))"
  by (induction "is") (auto simp: snd_and_then accepts split: option.splits)

lemma calls_return: "\<forall>i \<in> set is. plain i \<noteq> None \<Longrightarrow> fst (calls is) = Some (map (\<lambda>i. the (plain i)) is)"
  by (induction "is") (auto simp: forgets)

end

end
