(* ===== verification/Reporting.thy ===== *)
theory Reporting
  imports Metrics Vram Numa Fragmentation GangRuns
begin

text \<open>
  What the plugins report: the operations of the other theories together with the uses they make of the
  vectors of \<^verbatim>\<open>pkg/scheduler/metrics.go\<close>, in the order of the code.  Each is shown to be the
  operation modelled elsewhere once its reports are forgotten, and to make only uses the Prometheus client
  accepts.  A latency read from the clock is an argument.
\<close>

section \<open>VRAM scheduler\<close>

definition getNodeGPUTopology_reported :: "quantity_parser \<Rightarrow> slices \<Rightarrow> node \<Rightarrow> (int \<times> gpu_device list) reporting" where
  "getNodeGPUTopology_reported parseQ slices n =
     (case getGPUTopologyFromDRA slices n of
        Inr t \<Rightarrow> reports [Inc DataSourceUsage [''DRA'']] t
      | Inl _ \<Rightarrow>
         (case getTopologyFromNFD n of
            Some t \<Rightarrow> reports [Inc DataSourceUsage [''NFD'']] t
          | None \<Rightarrow> (topology_from_labels parseQ n, [Inc DataSourceUsage [''manual_labels'']])))"

definition getNodeGPUVRAM_reported :: "quantity_parser \<Rightarrow> slices \<Rightarrow> node \<Rightarrow> (int \<times> int) reporting" where
  "getNodeGPUVRAM_reported parseQ slices n =
     and_then (getNodeGPUTopology_reported parseQ slices n) (\<lambda>(_, gpuDevices).
       if gpuDevices = [] then reports [] (getNodeGPUVRAMFromLabels parseQ n)
       else reports [] (foldl min_step 0 (map gd_vram gpuDevices), int (length gpuDevices)))"

definition truth :: "bool \<Rightarrow> string" where
  "truth b = (if b then ''true'' else ''false'')"

definition calculateGPUTopologyBonus_reported :: "gpu_device list \<Rightarrow> int \<Rightarrow> int reporting" where
  "calculateGPUTopologyBonus_reported gpuDevices gpusRequested =
     (if int (length gpuDevices) < gpusRequested then reports [] 0
      else if gpusRequested \<le> 1 then reports [] 0
      else let numaLocality = checkGPUNUMALocality gpuDevices gpusRequested;
               nvlinkConnectivity = checkNVLinkConnectivity gpuDevices gpusRequested;
               pcieLocality = checkPCIeLocality gpuDevices gpusRequested
      in reports
           [Inc TopologyDecisions [''NUMA'', truth numaLocality, ''multi_gpu''],
            Inc TopologyDecisions [''NVLink'', truth nvlinkConnectivity, ''multi_gpu''],
            Inc TopologyDecisions [''PCIe'', truth pcieLocality, ''multi_gpu'']]
           ((if numaLocality then BonusGPUNUMALocality else 0) + (if nvlinkConnectivity then BonusNVLinkConnected else 0) +
            (if pcieLocality then BonusPCIeLocality else 0)))"

definition adjust_topology_reported :: "gpu_device list \<Rightarrow> int \<Rightarrow> int \<Rightarrow> int reporting" where
  "adjust_topology_reported gpuDevices gpusRequested score =
     (if gpusRequested > 1 \<and> int (length gpuDevices) \<ge> gpusRequested
      then and_then (calculateGPUTopologyBonus_reported gpuDevices gpusRequested) (\<lambda>topologyBonus.
             let s = (if score + topologyBonus > 100 then 100 else score + topologyBonus)
             in reports (if topologyBonus > 0 then [Observe TopologyQualityScore [''multi_gpu''] (f_int s)] else []) s)
      else reports [] score)"

text \<open>
  The workload type of the reports is the one of the profile, or \<^verbatim>\<open>unknown\<close>, as
  \<^verbatim>\<open>getPodWorkloadType\<close> of the fragmentation plugin reads it.
\<close>

text \<open>The outcome of the single-GPU case, with what is reported beside it.\<close>

definition vram_outcome :: "int \<Rightarrow> int \<Rightarrow> string \<Rightarrow> string \<times> observation list" where
  "vram_outcome score gpusRequested workloadType =
     (if score \<ge> ScoreGoodFit
      then (''good_fit'', [Inc GPUAllocationSuccess [workloadType, itoa gpusRequested, ''true'']])
      else if score \<ge> ScoreAcceptableFit
      then (''acceptable_fit'', [Inc GPUAllocationSuccess [workloadType, itoa gpusRequested, ''false'']])
      else if score = ScorePoorFit then (''poor_fit'', [Inc FragmentationEvents [''poor_utilization'', ''false'']])
      else (''success'', []))"

definition gpu_model_label :: "node \<Rightarrow> string" where
  "gpu_model_label n = (case lookup (n_labels n) vram_LabelGPUModel of None \<Rightarrow> ''unknown'' | Some m \<Rightarrow> if m = '''' then ''unknown'' else m)"

definition vram_Filter_reported :: "quantity_parser \<Rightarrow> slices \<Rightarrow> claim_listers option \<Rightarrow> pod \<Rightarrow> node_info \<Rightarrow> status reporting" where
  "vram_Filter_reported parseQ slices listers p nodeInfo =
     (case ni_node nodeInfo of
        None \<Rightarrow> reports [] (mk_status Error ''node not found'')
      | Some n \<Rightarrow>
          if getVRAMRequest parseQ listers p = 0 then reports [] success
          else and_then (getNodeGPUVRAM_reported parseQ slices n)
                 (\<lambda>_. (vram_Filter parseQ slices listers p nodeInfo, [])))"

definition vram_Score_body_reported ::
  "quantity_parser \<Rightarrow> slices \<Rightarrow> claim_listers option \<Rightarrow> 'o cycle_state option \<Rightarrow> pod \<Rightarrow> node_info \<Rightarrow> (int \<times> status) reporting" where
  "vram_Score_body_reported parseQ slices listers state p nodeInfo =
     (case ni_node nodeInfo of
        None \<Rightarrow> reports [] (0, mk_status Error ''node not found'')
      | Some n \<Rightarrow>
         (let workloadType = getPodWorkloadType state p;
              vramRequest = getVRAMRequest parseQ listers p
          in if vramRequest = 0
             then reports [Inc VRAMPlacementDecisions [''no_vram_request'', workloadType, ''none'']] (ScoreAcceptableFit, success)
             else and_then (reports [Observe VRAMRequestedBytes [p_ns p, workloadType] (f_int vramRequest)] ()) (\<lambda>_.
               and_then (getNodeGPUVRAM_reported parseQ slices n) (\<lambda>(gpuVRAM, gpuCount).
               and_then (getNodeGPUTopology_reported parseQ slices n) (\<lambda>(_, gpuDevices).
                 if gpuVRAM = 0
                 then reports [Inc VRAMPlacementDecisions [''no_gpu_on_node'', workloadType, ''unknown''],
                               Inc GPUAllocationFailures [''no_gpu_info'', workloadType]]
                        (ScoreInsufficientVRAM, success)
                 else let gpusRequested = (if getGPURequest p = 0 \<and> vramRequest > 0 then 1 else getGPURequest p);
                          tenantTier = vram_getTenantTierFromProfile state
                 in if vramRequest > gpuVRAM
                    then (let totalAvailableVRAM = wrap64 (gpuVRAM * gpusRequested)
                          in if vramRequest > totalAvailableVRAM
                             then reports [Inc VRAMPlacementDecisions [''insufficient_vram'', workloadType, ''unknown''],
                                           Inc GPUAllocationFailures [''insufficient_vram'', workloadType]]
                                    (ScoreInsufficientVRAM, success)
                             else reports [] (calculateUtilizationScore (fdiv (f_int vramRequest) (f_int totalAvailableVRAM))
                                                tenantTier, success))
                    else (let utilizationRatio = fdiv (f_int vramRequest) (f_int gpuVRAM)
                          in and_then (adjust_topology_reported gpuDevices gpusRequested
                                         (adjust_stranding utilizationRatio
                                           (adjust_high_end n utilizationRatio
                                             (calculateUtilizationScore utilizationRatio tenantTier)))) (\<lambda>score.
                               let (outcome, obs) = vram_outcome score gpusRequested workloadType
                               in reports (obs @
                                    [Inc VRAMPlacementDecisions [outcome, workloadType, ''legacy''],
                                     SetTo VRAMNodeUtilization [n_name n, gpu_model_label n] (fmul utilizationRatio (Fin 100))])
                                    (score, success))))))))"

definition vram_Score_reported ::
  "float64 \<Rightarrow> quantity_parser \<Rightarrow> slices \<Rightarrow> claim_listers option \<Rightarrow> 'o cycle_state option \<Rightarrow> pod \<Rightarrow> node_info \<Rightarrow>
   (int \<times> status) reporting" where
  "vram_Score_reported elapsed parseQ slices listers state p nodeInfo =
     deferring (Observe SchedulingLatency [''VRAMScheduler'', ''Score''] elapsed)
       (vram_Score_body_reported parseQ slices listers state p nodeInfo)"

lemma topology_forgets [simp]: "fst (getNodeGPUTopology_reported parseQ slices n) = getNodeGPUTopology parseQ slices n"
  by (simp add: getNodeGPUTopology_reported_def getNodeGPUTopology_def split: sum.split option.split)

lemma vram_forgets [simp]: "fst (getNodeGPUVRAM_reported parseQ slices n) = getNodeGPUVRAM parseQ slices n"
  by (auto simp: getNodeGPUVRAM_reported_def getNodeGPUVRAM_def split: option.split)

lemma bonus_forgets [simp]:
  "fst (calculateGPUTopologyBonus_reported ds g) = Some (calculateGPUTopologyBonus ds g)"
  by (simp add: calculateGPUTopologyBonus_reported_def calculateGPUTopologyBonus_def Let_def)

lemma adjust_topology_forgets [simp]: "fst (adjust_topology_reported ds g s) = Some (adjust_topology ds g s)"
  by (simp add: adjust_topology_reported_def adjust_topology_def Let_def)

lemma vram_Filter_forgets: "fst (vram_Filter_reported parseQ slices listers p ni) = vram_Filter parseQ slices listers p ni"
  by (cases "getNodeGPUVRAM parseQ slices (the (ni_node ni))")
    (auto simp: vram_Filter_reported_def vram_Filter_def Let_def split: option.split)

lemma vram_Score_forgets: "fst (vram_Score_reported t parseQ slices listers state p ni) = vram_Score parseQ slices listers state p ni"
  by (auto simp: vram_Score_reported_def vram_Score_body_reported_def vram_Score_def Let_def split: option.split prod.split)

lemma accepted_simps:
  "accepted (Inc m ls) \<longleftrightarrow> m_kind m = Counter \<and> length ls = length (m_labels m)"
  "accepted (Observe m ls x) \<longleftrightarrow> m_kind m = Histogram \<and> length ls = length (m_labels m)"
  "accepted (SetTo m ls x) \<longleftrightarrow> m_kind m = Gauge \<and> length ls = length (m_labels m)"
  by (auto simp: accepted_def)

text \<open>The vectors in use have different names, so they are different.\<close>

lemma vector_names [simp]:
  "DataSourceUsage \<noteq> VRAMPlacementDecisions" "VRAMPlacementDecisions \<noteq> DataSourceUsage"
  "TopologyDecisions \<noteq> VRAMPlacementDecisions" "GPUAllocationSuccess \<noteq> VRAMPlacementDecisions"
  "GPUAllocationFailures \<noteq> VRAMPlacementDecisions" "FragmentationEvents \<noteq> VRAMPlacementDecisions"
  "TopologyDecisions \<noteq> DataSourceUsage" "GPUAllocationSuccess \<noteq> DataSourceUsage"
  "GPUAllocationFailures \<noteq> DataSourceUsage" "FragmentationEvents \<noteq> DataSourceUsage"
  by (simp_all add: metric_defs)

lemma topology_accepts [simp]: "list_all accepted (snd (getNodeGPUTopology_reported parseQ slices n))"
  by (simp add: getNodeGPUTopology_reported_def accepted_simps DataSourceUsage_def split: sum.split option.split)

lemma vram_accepts [simp]: "list_all accepted (snd (getNodeGPUVRAM_reported parseQ slices n))"
  by (auto simp: getNodeGPUVRAM_reported_def snd_and_then split: option.split)

lemma adjust_accepts [simp]: "list_all accepted (snd (adjust_topology_reported ds g s))"
  by (simp add: adjust_topology_reported_def calculateGPUTopologyBonus_reported_def snd_and_then Let_def accepted_simps
      TopologyDecisions_def TopologyQualityScore_def)

lemma outcome_reports:
  "vram_outcome s g w = (x, obs) \<Longrightarrow> list_all accepted obs \<and> increments VRAMPlacementDecisions obs = [] \<and>
     increments DataSourceUsage obs = []"
  by (auto simp: vram_outcome_def accepted_simps GPUAllocationSuccess_def FragmentationEvents_def VRAMPlacementDecisions_def
      DataSourceUsage_def split: if_splits)

lemma vram_Filter_accepts: "list_all accepted (snd (vram_Filter_reported parseQ slices listers p ni))"
  by (auto simp: vram_Filter_reported_def snd_and_then split: option.split)

lemma vram_Score_accepts: "list_all accepted (snd (vram_Score_reported t parseQ slices listers state p ni))"
  by (auto simp: vram_Score_reported_def vram_Score_body_reported_def snd_and_then Let_def accepted_simps
      VRAMPlacementDecisions_def VRAMRequestedBytes_def GPUAllocationFailures_def VRAMNodeUtilization_def SchedulingLatency_def
      dest: outcome_reports split: option.split prod.split)

lemma source_once: "length (increments DataSourceUsage (snd (getNodeGPUTopology_reported parseQ slices n))) = 1"
  and topology_no_decision [simp]: "increments VRAMPlacementDecisions (snd (getNodeGPUTopology_reported parseQ slices n)) = []"
  by (simp_all add: getNodeGPUTopology_reported_def split: sum.split option.split)

lemma vram_source_once: "length (increments DataSourceUsage (snd (getNodeGPUVRAM_reported parseQ slices n))) = 1"
  and vram_no_decision [simp]: "increments VRAMPlacementDecisions (snd (getNodeGPUVRAM_reported parseQ slices n)) = []"
  using source_once [of parseQ slices n]
  by (auto simp: getNodeGPUVRAM_reported_def snd_and_then split: option.split)

lemma adjust_counts [simp]:
  "increments VRAMPlacementDecisions (snd (adjust_topology_reported ds g s)) = []"
  "increments DataSourceUsage (snd (adjust_topology_reported ds g s)) = []"
  by (simp_all add: adjust_topology_reported_def calculateGPUTopologyBonus_reported_def snd_and_then Let_def)

text \<open>The pods for which the multi-GPU case answers: more than one GPU's memory, no more than all of them have.\<close>

definition spread_over_gpus :: "quantity_parser \<Rightarrow> slices \<Rightarrow> claim_listers option \<Rightarrow> pod \<Rightarrow> node \<Rightarrow> bool" where
  "spread_over_gpus parseQ slices listers p n \<longleftrightarrow>
     (\<exists>g c. getNodeGPUVRAM parseQ slices n = Some (g, c) \<and> g \<noteq> 0 \<and> getVRAMRequest parseQ listers p > g \<and>
        getVRAMRequest parseQ listers p \<noteq> 0 \<and>
        getVRAMRequest parseQ listers p \<le> wrap64 (g * (if getGPURequest p = 0 \<and> getVRAMRequest parseQ listers p > 0 then 1 else getGPURequest p)))"

text \<open>The counts of the VRAM scheduler are off in two ways.  A call of the score that returns for a node
  increases the placement decisions once, but not at all when the pod spreads over several GPUs: the branch
  that scores exactly those pods reports no decision.  And the source of the GPU data is counted twice for every
  pod that asks for memory, because the score walks the fallback chain twice.\<close>

theorem vram_decisions_counted:
  assumes "ni_node ni = Some n" "vram_Score parseQ slices listers state p ni = Some r"
  shows "length (increments VRAMPlacementDecisions (snd (vram_Score_reported t parseQ slices listers state p ni))) =
      (if spread_over_gpus parseQ slices listers p n then 0 else 1) \<and>
    length (increments DataSourceUsage (snd (vram_Score_reported t parseQ slices listers state p ni))) =
      (if getVRAMRequest parseQ listers p = 0 then 0 else 2)"
  using assms source_once [of parseQ slices n] vram_source_once [of parseQ slices n]
  by (auto simp: vram_Score_reported_def vram_Score_body_reported_def vram_Score_def snd_and_then Let_def
      spread_over_gpus_def not_le dest: outcome_reports split: option.splits prod.splits if_splits)

theorem vram_decisions_counted_witness:
  "increments VRAMPlacementDecisions (snd (vram_Score_reported (Fin 0) ex_bytes ex_slices None (None :: unit cycle_state option)
     (ex_vram_pod ''80'' 2) (ex_vram_info []))) = []"
proof -
  have r: "getVRAMRequest ex_bytes None (ex_vram_pod ''80'' 2) = 80" "getGPURequest (ex_vram_pod ''80'' 2) = 2" by code_simp+
  have "spread_over_gpus ex_bytes ex_slices None (ex_vram_pod ''80'' 2) (VramDevices.ex_gpu_node [])"
    by (simp add: spread_over_gpus_def ex_node_vram r wrap64_id i64_def)
  moreover have "\<exists>r. vram_Score ex_bytes ex_slices None (None :: unit cycle_state option) (ex_vram_pod ''80'' 2) (ex_vram_info []) = Some r"
    by (simp add: vram_Score_def ex_vram_info_node ex_node_vram ex_dra_topology r wrap64_id i64_def)
  ultimately show ?thesis
    using vram_decisions_counted [OF ex_vram_info_node, of ex_bytes ex_slices None "None :: unit cycle_state option"
        "ex_vram_pod ''80'' 2" "[]" _ "Fin 0"] by auto
qed

text \<open>The two entry points as one operation of the framework.\<close>

datatype 'o vram_entry =
    VramFilter slices "claim_listers option" pod node_info
  | VramScore float64 slices "claim_listers option" "'o cycle_state option" pod node_info

fun vram_call :: "quantity_parser \<Rightarrow> 'o vram_entry \<Rightarrow> (int \<times> status) option" where
  "vram_call parseQ (VramFilter slices listers p ni) = map_option (Pair 0) (vram_Filter parseQ slices listers p ni)"
| "vram_call parseQ (VramScore t slices listers state p ni) = vram_Score parseQ slices listers state p ni"

fun vram_call_reported :: "quantity_parser \<Rightarrow> 'o vram_entry \<Rightarrow> (int \<times> status) reporting" where
  "vram_call_reported parseQ (VramFilter slices listers p ni) =
     and_then (vram_Filter_reported parseQ slices listers p ni) (\<lambda>s. reports [] (0, s))"
| "vram_call_reported parseQ (VramScore t slices listers state p ni) = vram_Score_reported t parseQ slices listers state p ni"

interpretation vram_reports: reporter "vram_call parseQ" "vram_call_reported parseQ" for parseQ
proof unfold_locales
  fix i :: "'o vram_entry"
  show "fst (vram_call_reported parseQ i) = vram_call parseQ i"
    by (cases i) (auto simp: vram_Filter_forgets vram_Score_forgets split: option.split bind_split)
  show "list_all accepted (snd (vram_call_reported parseQ i))"
    using vram_Filter_accepts vram_Score_accepts by (cases i) (auto simp: snd_and_then split: option.split)
qed

section \<open>NUMA topology\<close>

definition categorizePressure :: "float64 \<Rightarrow> string" where
  "categorizePressure utilization =
     (if fge utilization (Fin 80) then ''high'' else if fge utilization (Fin 50) then ''medium'' else ''low'')"

definition bandwidth_pressure :: "pod \<Rightarrow> numa_node \<Rightarrow> observation list" where
  "bandwidth_pressure p numa =
     (if isMemoryIntensive p \<and> nn_bandwidth numa > 0
      then let u = fmul (fdiv (f_int (snd (numa_getPodResourceRequests p))) (f_int (nn_total_memory numa))) (Fin 100)
           in [SetTo NumaMemoryBandwidthPressure [categorizePressure u] u]
      else [])"

text \<open>The loop over the NUMA nodes: the fit of a node is observed when it becomes the best so far.\<close>

fun best_numa_reported ::
  "gang_states \<Rightarrow> pod \<Rightarrow> node \<Rightarrow> numa_node list \<Rightarrow> float64 \<Rightarrow> int \<Rightarrow> (float64 \<times> int) reporting" where
  "best_numa_reported gangs p n [] bestScore bestNUMAID = reports [] (bestScore, bestNUMAID)"
| "best_numa_reported gangs p n (numa # numas) bestScore bestNUMAID =
     (case numa_total_score gangs p n numa of
        None \<Rightarrow> best_numa_reported gangs p n numas bestScore bestNUMAID
      | Some totalScore \<Rightarrow>
          and_then (reports (bandwidth_pressure p numa) ()) (\<lambda>_.
            if flt bestScore totalScore
            then and_then (reports [Observe NumaFitQuality [getNUMAPolicy p]
                     (numa_fit_score (fst (numa_getPodResourceRequests p)) (snd (numa_getPodResourceRequests p))
                        (fst (getNUMAAffinityPreferences p)) numa)] ())
                   (\<lambda>_. best_numa_reported gangs p n numas totalScore (nn_id numa))
            else best_numa_reported gangs p n numas bestScore bestNUMAID))"

definition numa_decision :: "pod \<Rightarrow> string \<Rightarrow> observation" where
  "numa_decision p outcome =
     Inc NumaPlacementDecisions [getNUMAPolicy p, outcome, workload_type_String (ClassifyPod (Some p))]"

definition numa_Score_reported :: "gang_states \<Rightarrow> pod \<Rightarrow> node_info \<Rightarrow> ((int \<times> status) \<times> gang_states) reporting" where
  "numa_Score_reported gangs p nodeInfo =
     (case ni_node nodeInfo of
        None \<Rightarrow> reports [] ((0, mk_status Error ''node is nil''), gangs)
      | Some n \<Rightarrow>
          if getNUMAPolicy p = NUMAPolicyNone
          then reports [numa_decision p ''none''] ((quot MaxNodeScore 2, success), gangs)
          else (case parseNUMATopology n of
                  None \<Rightarrow> (None, [])
                | Some (Inl _) \<Rightarrow> reports [numa_decision p ''no_numa_info''] ((quot MaxNodeScore 2, success), gangs)
                | Some (Inr numaNodes) \<Rightarrow>
                    if length numaNodes \<le> 1
                    then reports [numa_decision p ''no_numa_info''] ((quot MaxNodeScore 2, success), gangs)
                    else and_then (best_numa_reported gangs p n numaNodes (Fin 0) (- 1)) (\<lambda>(bestScore, bestNUMAID).
                      if bestNUMAID = - 1
                      then reports [numa_decision p ''cross_numa''] ((quot MaxNodeScore 4, success), gangs)
                      else reports [numa_decision p ''single_numa'']
                             ((f_to_int bestScore, success), recordGangPlacement p bestNUMAID gangs))))"

lemma best_numa_reported:
  "fst (best_numa_reported gangs p n numas b i) = Some (best_numa (numa_total_score gangs p n) numas b i)"
  "list_all accepted (snd (best_numa_reported gangs p n numas b i))"
  "increments NumaPlacementDecisions (snd (best_numa_reported gangs p n numas b i)) = []"
  by (induction numas arbitrary: b i)
    (simp_all add: snd_and_then bandwidth_pressure_def accepted_simps NumaMemoryBandwidthPressure_def NumaFitQuality_def Let_def
      split: option.split)

lemma numa_Score_forgets: "fst (numa_Score_reported gangs p ni) = numa_Score gangs p ni"
  by (auto simp: numa_Score_reported_def numa_Score_def best_numa_reported split: option.split sum.split prod.split)

lemma numa_Score_accepts: "list_all accepted (snd (numa_Score_reported gangs p ni))"
  by (auto simp: numa_Score_reported_def snd_and_then best_numa_reported numa_decision_def accepted_simps
      NumaPlacementDecisions_def split: option.split sum.split prod.split)

interpretation numa_reports: reporter "\<lambda>(gangs, p, ni). numa_Score gangs p ni" "\<lambda>(gangs, p, ni). numa_Score_reported gangs p ni"
  by unfold_locales (auto simp: numa_Score_forgets numa_Score_accepts)

text \<open>Every score of a node by the NUMA plugin counts exactly one placement decision, under the pod's policy and
  workload type, and the outcome it is counted under tells the answer: half the range without NUMA awareness or
  without NUMA nodes to choose from, a quarter when no NUMA node was chosen; only the outcome
  \<^verbatim>\<open>single_numa\<close> may come with a change of the gang placements.\<close>

theorem numa_decision_once:
  assumes "ni_node ni = Some n" "numa_Score gangs p ni = Some ((score, st), gangs')"
  shows "\<exists>outcome \<in> {''none'', ''no_numa_info'', ''cross_numa'', ''single_numa''}.
    increments NumaPlacementDecisions (snd (numa_Score_reported gangs p ni)) =
      [[getNUMAPolicy p, outcome, workload_type_String (ClassifyPod (Some p))]] \<and>
    (outcome = ''none'' \<longleftrightarrow> getNUMAPolicy p = NUMAPolicyNone) \<and>
    (outcome \<in> {''none'', ''no_numa_info''} \<longrightarrow> score = 50) \<and> (outcome = ''cross_numa'' \<longrightarrow> score = 25) \<and>
    (outcome \<noteq> ''single_numa'' \<longrightarrow> gangs' = gangs)"
  using assms
  by (auto simp: numa_Score_reported_def numa_Score_def numa_decision_def snd_and_then best_numa_reported MaxNodeScore_def
      split: option.splits sum.splits prod.splits if_splits)

theorem numa_decision_once_witness:
  "\<exists>outcome. increments NumaPlacementDecisions (snd (numa_Score_reported [] (ex_numa_pod NUMAPolicyNone 3 30000) ex_numa_info)) =
     [[NUMAPolicyNone, outcome, ''service'']] \<and> outcome = ''none''"
proof -
  have p: "getNUMAPolicy (ex_numa_pod NUMAPolicyNone 3 30000) = NUMAPolicyNone"
    "workload_type_String (ClassifyPod (Some (ex_numa_pod NUMAPolicyNone 3 30000))) = ''service''" by code_simp+
  have "numa_Score [] (ex_numa_pod NUMAPolicyNone 3 30000) ex_numa_info = Some ((50, success), [])"
    by (simp add: numa_Score_def ex_numa_info_node p(1) MaxNodeScore_def)
  from numa_decision_once [OF ex_numa_info_node this] show ?thesis
    unfolding p by blast
qed

section \<open>Fragmentation\<close>

definition frag_Score_reported :: "pod_lister option \<Rightarrow> 'o cycle_state option \<Rightarrow> pod \<Rightarrow> node_info \<Rightarrow> (int \<times> status) reporting" where
  "frag_Score_reported podLister state p nodeInfo =
     (case detectGPUIsland podLister nodeInfo of
        None \<Rightarrow> reports [] (scoreCPUMemoryFragmentation podLister p nodeInfo, success)
      | Some island \<Rightarrow>
         (let requestedGPUs = frag_getGPURequest p
          in if requestedGPUs = 0 then reports [] (scoreCPUMemoryFragmentation podLister p nodeInfo, success)
             else let podTenantTier = getPodTenantTier state p;
                      podWorkloadType = getPodWorkloadType state p
             in if gi_tier island \<noteq> '''' \<and> gi_tier island \<noteq> ''none'' \<and> \<not> isTenantAllowed podTenantTier (gi_tier island)
                then reports [Inc IslandProtectionEvents [''tenant_mismatch'', ''true'']] (PenaltyTenantMismatch, success)
                else let workloadPenalty = calculateWorkloadFragmentationPenalty p island podWorkloadType
                in if workloadPenalty > 0
                   then reports [Inc IslandProtectionEvents [''workload_mismatch'', ''true'']] (workloadPenalty, success)
                   else if gi_pristine island \<and> gi_total island \<ge> LargeIslandThreshold \<and> requestedGPUs \<le> SmallRequestThreshold
                   then reports [Inc IslandProtectionEvents [''pristine_island'', ''true'']] (PenaltyFragmentPristineIsland, success)
                   else if gi_available island = requestedGPUs
                   then reports [Inc PerfectFitPlacements [itoa (gi_total island), gi_topology island],
                                 Inc IslandCompletions [itoa (gi_total island), itoa (gi_quality island)],
                                 Observe IslandQualityDistribution [gi_topology island] (f_int (gi_quality island))]
                          (BonusPerfectFit, success)
                   else if \<not> gi_pristine island \<and> gi_available island \<ge> requestedGPUs
                   then reports [] (wrap64 (BonusCompleteIsland - wrap64 (gi_available island - requestedGPUs)), success)
                   else if gi_total island \<ge> LargeIslandThreshold \<and> requestedGPUs < quot (gi_total island) 2
                   then reports [Inc IslandProtectionEvents [''large_island'', ''true'']]
                          (PenaltyFragmentLargeIsland + quot (gi_quality island) 10, success)
                   else let utilizationScore = quot (wrap64 (gi_allocated island * 100)) (gi_total island)
                        in reports [Observe FragmentationScoreDistribution [''gpu''] (f_int utilizationScore),
                                    Observe IslandQualityDistribution [gi_topology island] (f_int (gi_quality island))]
                             (utilizationScore, success)))"

lemma frag_Score_forgets: "fst (frag_Score_reported l state p ni) = Some (frag_Score l state p ni)"
  by (simp only: frag_Score_reported_def frag_Score_def Let_def if_distrib [where f = fst] if_distrib [where f = Some]
      option.case_distrib [where h = fst] option.case_distrib [where h = Some] reports_simps)

lemma frag_Score_accepts: "list_all accepted (snd (frag_Score_reported l state p ni))"
  by (simp add: frag_Score_reported_def Let_def accepted_simps IslandProtectionEvents_def PerfectFitPlacements_def
      IslandCompletions_def IslandQualityDistribution_def FragmentationScoreDistribution_def split: option.split)

interpretation frag_reports: reporter "\<lambda>(l, state, p, ni). Some (frag_Score l state p ni)"
  "\<lambda>(l, state, p, ni). frag_Score_reported l state p ni"
  by unfold_locales (auto simp: frag_Score_forgets frag_Score_accepts)

lemma island_vectors [simp]:
  "IslandProtectionEvents \<noteq> PerfectFitPlacements" "PerfectFitPlacements \<noteq> IslandProtectionEvents"
  "IslandProtectionEvents \<noteq> IslandCompletions" "IslandCompletions \<noteq> IslandProtectionEvents"
  "PerfectFitPlacements \<noteq> IslandCompletions" "IslandCompletions \<noteq> PerfectFitPlacements"
  by (simp_all add: metric_defs)

text \<open>What a score of the fragmentation plugin counts tells which branch answered: a protected island counts
  exactly one protection, the answer of a perfect fit counts one placement and one completed island under the
  island's size, and no call counts both.\<close>

theorem frag_counts_branch:
  "length (increments IslandProtectionEvents (snd (frag_Score_reported l state p ni))) \<le> 1 \<and>
   length (increments PerfectFitPlacements (snd (frag_Score_reported l state p ni))) =
     length (increments IslandCompletions (snd (frag_Score_reported l state p ni))) \<and>
   (increments PerfectFitPlacements (snd (frag_Score_reported l state p ni)) \<noteq> [] \<longrightarrow>
      frag_Score l state p ni = (90, success) \<and> increments IslandProtectionEvents (snd (frag_Score_reported l state p ni)) = [])"
  by (simp add: frag_Score_reported_def frag_Score_def Let_def BonusPerfectFit_def split: option.split)

section \<open>Coscheduling\<close>

text \<open>\<^verbatim>\<open>d.Seconds()\<close> of a duration in nanoseconds.\<close>

definition duration_seconds :: "duration \<Rightarrow> float64" where
  "duration_seconds d = fadd (f_int (quot d (seconds 1))) (fdiv (f_int (d - seconds 1 * quot d (seconds 1))) (f_int (seconds 1)))"

definition Less_reported :: "time \<Rightarrow> time \<Rightarrow> time \<Rightarrow> queued \<Rightarrow> queued \<Rightarrow> pg_state \<Rightarrow> (bool \<times> pg_state) reporting" where
  "Less_reported t1 t2 now podInfo1 podInfo2 st =
     (let pod1 = q_pod podInfo1; pod2 = q_pod podInfo2;
          (pgInfo1, st1) = getPodGroupInfoFromQueued t1 podInfo1 st;
          (pgInfo2, st2) = getPodGroupInfoFromQueued t2 podInfo2 st1;
          starving1 = (time_sub now (pe_timestamp pgInfo1) > StarvationThreshold);
          starving2 = (time_sub now (pe_timestamp pgInfo2) > StarvationThreshold)
      in if starving1 \<and> \<not> starving2 then reports [Inc GangStarvationPreventions [p_ns pod1, pe_name pgInfo1]] (True, st2)
         else if \<not> starving1 \<and> starving2 then reports [Inc GangStarvationPreventions [p_ns pod2, pe_name pgInfo2]] (False, st2)
         else reports [] (queue_less now (pod1, pgInfo1) (pod2, pgInfo2), st2))"

definition PreFilter_reported :: "pod_lister \<Rightarrow> 'o cycle_state option \<Rightarrow> pod \<Rightarrow> (bool \<times> status) reporting" where
  "PreFilter_reported lister state p =
     (let check_labels = (\<lambda>isGang.
        case pg_labels p of
          Inl e \<Rightarrow> reports [] (False, mk_status Error (label_err_text e))
        | Inr (podGroupName, minAvailable) \<Rightarrow>
            if \<not> isGang \<and> (podGroupName = '''' \<or> minAvailable \<le> 1) then reports [] (False, success)
            else let total = calculateTotalPods lister podGroupName (p_ns p)
            in if total < minAvailable
               then reports [Inc GangSchedulingDecisions [''insufficient_pods'', p_ns p]]
                      (False, mk_status Unschedulable
                         (''pod group has '' @ itoa total @ '' pods, needs at least '' @ itoa minAvailable))
               else reports [] (True, success))
      in (case GetProfile state of
            Inr profile \<Rightarrow> if \<not> sp_gang profile then reports [] (False, success) else check_labels (sp_gang profile)
          | Inl _ \<Rightarrow> check_labels False))"

text \<open>The latency of a complete gang, when the cache knows since when it waits.\<close>

definition completion_report :: "time \<Rightarrow> pg_state \<Rightarrow> string \<Rightarrow> string \<Rightarrow> int \<Rightarrow> observation list" where
  "completion_report now st namespace podGroupName minAvailable =
     (case lookup (podGroupInfos st) (GetPodGroupKey namespace podGroupName) of
        None \<Rightarrow> []
      | Some pgInfo \<Rightarrow>
          if pe_timestamp pgInfo div seconds 1 > 0
          then [Observe GangCompletionLatency [namespace, podGroupName, itoa minAvailable]
                  (duration_seconds (time_sub now (pe_timestamp pgInfo)))]
          else [])"

definition Permit_reported ::
  "time \<Rightarrow> pg_state \<Rightarrow> pod_lister \<Rightarrow> waiting_pods \<Rightarrow> pod \<Rightarrow> (status \<times> duration \<times> pod list) reporting" where
  "Permit_reported now st lister handle p =
     (case pg_labels p of
        Inl _ \<Rightarrow> reports [] (success, 0, [])
      | Inr (podGroupName, minAvailable) \<Rightarrow>
          if podGroupName = '''' \<or> minAvailable \<le> 1 then reports [] (success, 0, [])
          else let namespace = p_ns p;
                   running = calculateRunningPodsExcluding lister podGroupName namespace (p_name p);
                   waiting = calculateWaitingPods handle podGroupName namespace;
                   current = running + waiting + 1
          in if current < minAvailable
             then reports [Observe GangWaitingTime [namespace, podGroupName] (duration_seconds PermitWaitingTime)]
                    (mk_status Wait '''', PermitWaitingTime, [])
             else reports (Inc GangSchedulingDecisions [''success'', namespace] #
                           completion_report now st namespace podGroupName minAvailable)
                    (success, 0, case handle of None \<Rightarrow> [] | Some ws \<Rightarrow> filter (same_gang podGroupName namespace) ws))"

definition Unreserve_reported :: "pod list \<Rightarrow> pod \<Rightarrow> pod list reporting" where
  "Unreserve_reported ws p =
     (case pg_labels p of
        Inl _ \<Rightarrow> reports [] []
      | Inr (podGroupName, _) \<Rightarrow>
          if podGroupName = '''' then reports [] []
          else reports [Inc GangSchedulingDecisions [''timeout'', p_ns p]] (filter (same_gang podGroupName (p_ns p)) ws))"

lemma cosched_forgets:
  "fst (Less_reported t1 t2 now q1 q2 st) = Some (Less t1 t2 now q1 q2 st)"
  "fst (PreFilter_reported lister state p) = Some (cosched_PreFilter lister state p)"
  "fst (Permit_reported now st lister handle p) = Some (Permit lister handle p)"
  "fst (Unreserve_reported ws p) = Some (cosched_Unreserve ws p)"
  by (auto simp: Less_reported_def Less_def queue_less_def Let_def split: prod.split)
    (auto simp: PreFilter_reported_def cosched_PreFilter_def Permit_reported_def Permit_def Unreserve_reported_def
      cosched_Unreserve_def Let_def split: prod.split sum.split option.split)

lemma cosched_accepts:
  "list_all accepted (snd (Less_reported t1 t2 now q1 q2 st))"
  "list_all accepted (snd (PreFilter_reported lister state p))"
  "list_all accepted (snd (Permit_reported now st lister handle p))"
  "list_all accepted (snd (Unreserve_reported ws p))"
  by (auto simp: Less_reported_def PreFilter_reported_def Permit_reported_def Unreserve_reported_def completion_report_def
      accepted_simps GangStarvationPreventions_def GangSchedulingDecisions_def GangWaitingTime_def GangCompletionLatency_def
      Let_def split: prod.split sum.split option.split)

interpretation less_reports: reporter "\<lambda>(t1, t2, now, q1, q2, st). Some (Less t1 t2 now q1 q2 st)"
  "\<lambda>(t1, t2, now, q1, q2, st). Less_reported t1 t2 now q1 q2 st"
  by unfold_locales (auto simp: cosched_forgets cosched_accepts)

interpretation prefilter_reports: reporter "\<lambda>(lister, state, p). Some (cosched_PreFilter lister state p)"
  "\<lambda>(lister, state, p). PreFilter_reported lister state p"
  by unfold_locales (auto simp: cosched_forgets cosched_accepts)

interpretation permit_reports: reporter "\<lambda>(now, st, lister, handle, p). Some (Permit lister handle p)"
  "\<lambda>(now, st, lister, handle, p). Permit_reported now st lister handle p"
  by unfold_locales (auto simp: cosched_forgets cosched_accepts)

interpretation unreserve_reports: reporter "\<lambda>(ws, p). Some (cosched_Unreserve ws p)" "\<lambda>(ws, p). Unreserve_reported ws p"
  by unfold_locales (auto simp: cosched_forgets cosched_accepts)

section \<open>Properties of the reports\<close>

text \<open>A perfect fit of eight GPUs.\<close>

theorem frag_counts_branch_witness:
  "frag_Score None (None :: unit cycle_state option) (ex_gpu_pod 8) (Fragmentation.ex_gpu_node ''bronze'') = (90, success)"
proof -
  have "increments PerfectFitPlacements
      (snd (frag_Score_reported None (None :: unit cycle_state option) (ex_gpu_pod 8) (Fragmentation.ex_gpu_node ''bronze''))) =
      [[''8'', ''nvswitch'']]"
    by code_simp
  then show ?thesis
    using frag_counts_branch [of None "None :: unit cycle_state option" "ex_gpu_pod 8" "Fragmentation.ex_gpu_node ''bronze''"]
    by simp
qed

text \<open>C18: reporting changes no decision and cannot panic: for every plugin that uses the vectors, the operation with
  its reports forgotten is the one modelled without them, and each vector is given one value per declared label
  in a use that fits its kind.\<close>

theorem reports_change_nothing:
  "fst (vram_Filter_reported parseQ slices listers p ni) = vram_Filter parseQ slices listers p ni \<and>
   fst (vram_Score_reported t parseQ slices listers state p ni) = vram_Score parseQ slices listers state p ni \<and>
   fst (numa_Score_reported gangs p ni) = numa_Score gangs p ni \<and>
   fst (frag_Score_reported l state p ni) = Some (frag_Score l state p ni) \<and>
   fst (Less_reported t1 t2 now q1 q2 st) = Some (Less t1 t2 now q1 q2 st) \<and>
   fst (PreFilter_reported l' state p) = Some (cosched_PreFilter l' state p) \<and>
   fst (Permit_reported now st l' handle p) = Some (Permit l' handle p) \<and>
   fst (Unreserve_reported ws p) = Some (cosched_Unreserve ws p) \<and>
   list_all accepted
     (snd (vram_Filter_reported parseQ slices listers p ni) @ snd (vram_Score_reported t parseQ slices listers state p ni) @
      snd (numa_Score_reported gangs p ni) @ snd (frag_Score_reported l state p ni) @ snd (Less_reported t1 t2 now q1 q2 st) @
      snd (PreFilter_reported l' state p) @ snd (Permit_reported now st l' handle p) @ snd (Unreserve_reported ws p))"
  using vram_reports.forgets [of parseQ "VramScore t slices listers state p ni"]
    vram_reports.accepts [of parseQ "VramScore t slices listers state p ni"]
    numa_reports.forgets [of "(gangs, p, ni)"] numa_reports.accepts [of "(gangs, p, ni)"]
    frag_reports.forgets [of "(l, state, p, ni)"] frag_reports.accepts [of "(l, state, p, ni)"]
    less_reports.forgets [of "(t1, t2, now, q1, q2, st)"] less_reports.accepts [of "(t1, t2, now, q1, q2, st)"]
    prefilter_reports.forgets [of "(l', state, p)"] prefilter_reports.accepts [of "(l', state, p)"]
    permit_reports.forgets [of "(now, st, l', handle, p)"] permit_reports.accepts [of "(now, st, l', handle, p)"]
    unreserve_reports.forgets [of "(ws, p)"] unreserve_reports.accepts [of "(ws, p)"]
  by (simp add: vram_Filter_forgets vram_Filter_accepts)

lemma permit_seconds: "duration_seconds PermitWaitingTime = Fin 10"
  by code_simp

text \<open>What Permit reports of a gang's member is not what the vectors say.  A member that must wait observes the
  ten seconds it is allowed to wait, however long it does wait, and a member that need not counts one successful
  decision, so that a gang counts one for every member from the one that completes it on.\<close>

theorem permit_reports_per_member:
  assumes "pg_labels p = Inr (g, m)" "g \<noteq> ''''" "1 < m"
  shows "(st_code (fst (Permit lister handle p)) = Wait \<longrightarrow>
      snd (Permit_reported now st lister handle p) = [Observe GangWaitingTime [p_ns p, g] (Fin 10)]) \<and>
    (st_code (fst (Permit lister handle p)) \<noteq> Wait \<longrightarrow>
      increments GangSchedulingDecisions (snd (Permit_reported now st lister handle p)) = [[''success'', p_ns p]])"
  using assms
  by (auto simp: Permit_reported_def Permit_def completion_report_def permit_seconds Let_def mk_status_def
      split: option.split)

text \<open>The first of five members, on an empty cluster.\<close>

theorem permit_reports_per_member_witness:
  "snd (Permit_reported 0 empty_pg_state (cache_lister []) (Some []) (ex_member ''a'' False)) = [Observe GangWaitingTime [''ml'', ''w''] (Fin 10)]"
proof -
  have c: "p_ns (ex_member ''a'' False) = ''ml''" "st_code (fst (Permit (cache_lister []) (Some []) (ex_member ''a'' False))) = Wait"
    by code_simp+
  show ?thesis
    using permit_reports_per_member [OF ex_member_labels [of "''a''" False], where lister = "cache_lister []"
        and handle = "Some []" and now = 0 and st = empty_pg_state] c by simp
qed

end
