(* ===== verification/Deployment.thy ===== *)
theory Deployment
  imports Coscheduling Reservation Backfill WorkloadAware
begin

text \<open>
  How the parts are put together: the plugins that \<^verbatim>\<open>cmd/scheduler/main.go\<close> registers, with the
  extension points their interface assertions name, the scheduler configurations shipped in the repository, and
  the PreFilter phase a configuration gives.

  The framework refuses a configuration that has an unknown field, enables a name that is not registered, or
  enables a plugin at a point it does not implement; it enables its own plugins beside those of a profile, and runs the
  PreFilter plugins in order until one answers with a code that ends the phase.  The registry of Kubernetes' own plugins is the
  parameter \<^verbatim>\<open>in_tree\<close>, and their PreFilter \<^verbatim>\<open>it_prefilter\<close>.
\<close>

section \<open>The registry\<close>

datatype extension_point =
  QueueSortPoint | PreFilterPoint | FilterPoint | PostFilterPoint | PreScorePoint | ScorePoint | ReservePoint | PermitPoint |
  PreBindPoint | BindPoint | PostBindPoint

record registration =
  rg_name :: string
  rg_points :: "extension_point list"

definition profileclassifier_plugin :: registration where
  "profileclassifier_plugin = \<lparr>rg_name = ''ProfileClassifier'', rg_points = [PreFilterPoint]\<rparr>"

definition coscheduling_plugin :: registration where
  "coscheduling_plugin =
     \<lparr>rg_name = ''Coscheduling'', rg_points = [QueueSortPoint, PreFilterPoint, PermitPoint, ReservePoint]\<rparr>"

definition resourcereservation_plugin :: registration where
  "resourcereservation_plugin =
     \<lparr>rg_name = ''ResourceReservation'', rg_points = [PreFilterPoint, FilterPoint, ReservePoint, PostBindPoint]\<rparr>"

definition workloadaware_plugin :: registration where
  "workloadaware_plugin = \<lparr>rg_name = ''WorkloadAwareScoring'', rg_points = [ScorePoint]\<rparr>"

definition topologyspread_plugin :: registration where
  "topologyspread_plugin = \<lparr>rg_name = ''TopologyScoring'', rg_points = [ScorePoint]\<rparr>"

definition backfill_plugin :: registration where
  "backfill_plugin = \<lparr>rg_name = ''BackfillScoring'', rg_points = [ScorePoint]\<rparr>"

definition resourcefragmentation_plugin :: registration where
  "resourcefragmentation_plugin = \<lparr>rg_name = ''ResourceFragmentationScore'', rg_points = [ScorePoint, FilterPoint]\<rparr>"

definition tenanthardware_plugin :: registration where
  "tenanthardware_plugin = \<lparr>rg_name = ''TenantHardwareAffinityScore'', rg_points = [ScorePoint]\<rparr>"

definition vramscheduler_plugin :: registration where
  "vramscheduler_plugin = \<lparr>rg_name = ''VRAMScheduler'', rg_points = [ScorePoint, FilterPoint]\<rparr>"

definition networkfabric_plugin :: registration where
  "networkfabric_plugin = \<lparr>rg_name = ''NetworkFabricScore'', rg_points = [FilterPoint, ScorePoint]\<rparr>"

definition numatopology_plugin :: registration where
  "numatopology_plugin = \<lparr>rg_name = ''NUMATopology'', rg_points = [FilterPoint, ScorePoint]\<rparr>"

definition preemption_plugin :: registration where
  "preemption_plugin = \<lparr>rg_name = ''GangPreemption'', rg_points = [PostFilterPoint]\<rparr>"

text \<open>In the order of \<^verbatim>\<open>main\<close>.\<close>

definition registry :: "registration list" where
  "registry =
     [profileclassifier_plugin, coscheduling_plugin, resourcereservation_plugin, workloadaware_plugin,
      topologyspread_plugin, backfill_plugin, resourcefragmentation_plugin, tenanthardware_plugin,
      vramscheduler_plugin, networkfabric_plugin, numatopology_plugin, preemption_plugin]"

lemmas plugin_defs = profileclassifier_plugin_def coscheduling_plugin_def resourcereservation_plugin_def
  workloadaware_plugin_def topologyspread_plugin_def backfill_plugin_def resourcefragmentation_plugin_def
  tenanthardware_plugin_def vramscheduler_plugin_def networkfabric_plugin_def numatopology_plugin_def preemption_plugin_def

section \<open>Configurations\<close>

text \<open>The plugins a profile enables, by the field of the configuration.\<close>

type_synonym plugin_config = "(string \<times> string list) list"

definition point_of_field :: "string \<Rightarrow> extension_point option" where
  "point_of_field field =
     map_of [(''queueSort'', QueueSortPoint), (''preFilter'', PreFilterPoint), (''filter'', FilterPoint),
       (''postFilter'', PostFilterPoint), (''preScore'', PreScorePoint), (''score'', ScorePoint),
       (''reserve'', ReservePoint), (''permit'', PermitPoint), (''preBind'', PreBindPoint), (''bind'', BindPoint),
       (''postBind'', PostBindPoint)] field"

definition implements :: "registration list \<Rightarrow> string \<Rightarrow> string \<Rightarrow> bool" where
  "implements plugins field name =
     (case (point_of_field field, find (\<lambda>r. rg_name r = name) plugins) of
        (Some pt, Some r) \<Rightarrow> pt \<in> set (rg_points r)
      | _ \<Rightarrow> False)"

text \<open>The entries the framework refuses.\<close>

definition refused :: "registration list \<Rightarrow> plugin_config \<Rightarrow> (string \<times> string) list" where
  "refused plugins cfg =
     concat (map (\<lambda>(field, names). map (Pair field) (filter (\<lambda>n. \<not> implements plugins field n) names)) cfg)"

text \<open>\<^verbatim>\<open>config/config.yaml\<close>, which the image of the scheduler carries: three profiles.\<close>

definition image_config :: "(string \<times> plugin_config) list" where
  "image_config =
     [(''default-scheduler'', [(''queueSort'', [''Coscheduling''])]),
      (''kubenexus-scheduler'',
       [(''queueSort'', [''Coscheduling'']),
        (''preFilter'', [''Coscheduling'', ''ResourceReservation'']),
        (''filter'', [''ResourceReservation'', ''NUMATopology'']),
        (''preScore'', []),
        (''score'', [''WorkloadAwareScoring'', ''BackfillScoring'', ''NUMATopology'', ''TopologyScoring'']),
        (''reserve'', [''Coscheduling'', ''ResourceReservation'']),
        (''permit'', [''Coscheduling'']),
        (''postFilter'', [''GangPreemption''])]),
      (''gang-scheduler'',
       [(''queueSort'', [''Coscheduling'']),
        (''preFilter'', [''Coscheduling'', ''ResourceReservation'']),
        (''filter'', [''ResourceReservation'']),
        (''reserve'', [''Coscheduling'', ''ResourceReservation'']),
        (''permit'', [''Coscheduling''])])]"

text \<open>\<^verbatim>\<open>deploy/kubenexus-scheduler.yaml\<close>.\<close>

definition deployed_config :: plugin_config where
  "deployed_config =
     [(''queueSort'', [''Coscheduling'']),
      (''preFilter'', [''ProfileClassifier'', ''Coscheduling'']),
      (''filter'', [''NetworkFabricScore'', ''VRAMScheduler'', ''NUMATopology'']),
      (''score'', [''WorkloadAwareScoring'', ''TopologyScoring'', ''BackfillScoring'', ''ResourceFragmentationScore'',
         ''TenantHardwareAffinityScore'', ''VRAMScheduler'', ''NetworkFabricScore'', ''NUMATopology'']),
      (''permit'', [''Coscheduling'']),
      (''reserve'', [''Coscheduling'']),
      (''postFilter'', [''GangPreemption''])]"

text \<open>\<^verbatim>\<open>deploy/kubenexus-scheduler-ha.yaml\<close>.\<close>

definition ha_config :: plugin_config where
  "ha_config =
     [(''queueSort'', [''Coscheduling'']),
      (''preFilter'', [''Coscheduling'', ''preExtender'']),
      (''filter'', [''Coscheduling'']),
      (''permit'', [''Coscheduling'']),
      (''reserve'', [''resourceReservation'']),
      (''preBind'', [''Coscheduling'']),
      (''bind'', [''Coscheduling'']),
      (''unreserve'', [''Coscheduling'', ''resourceReservation'']),
      (''score'', [''Coscheduling'']),
      (''preScore'', [''Coscheduling''])]"

definition enabled_at :: "string \<Rightarrow> plugin_config \<Rightarrow> string list" where
  "enabled_at field cfg = (case lookup cfg field of None \<Rightarrow> [] | Some names \<Rightarrow> names)"

section \<open>The PreFilter phase\<close>

text \<open>
  The plugins of the repository that have one; another name is one of Kubernetes' own plugins, whose PreFilter is the
  parameter \<^verbatim>\<open>it_prefilter\<close>.
\<close>

type_synonym in_tree_prefilter =
  "string \<Rightarrow> pod \<Rightarrow> reservation_data cycle_state \<Rightarrow> status \<times> reservation_data cycle_state"

definition prefilter_of ::
  "in_tree_prefilter \<Rightarrow> ns_client \<Rightarrow> pod_lister \<Rightarrow> 'w reservation_api \<Rightarrow> string \<Rightarrow> pod \<Rightarrow> reservation_data cycle_state \<times> 'w rr_state
     \<Rightarrow> status \<times> reservation_data cycle_state \<times> 'w rr_state" where
  "prefilter_of it_prefilter client lister api name p s =
     (let (cs, st) = s
      in if name = ''ProfileClassifier'' then (let (cs', r) = profile_PreFilter client cs p in (r, cs', st))
         else if name = ''Coscheduling'' then (snd (cosched_PreFilter lister (Some cs) p), cs, st)
         else if name = ''ResourceReservation'' then reservation_PreFilter api cs p st
         else (let (r, cs') = it_prefilter name p cs in (r, cs', st)))"

text \<open>
  The framework runs the plugins in order.  Which answers other than success make it leave the rest out is up to it:
  in the version the repository builds with an error and an \<^verbatim>\<open>UnschedulableAndUnresolvable\<close> do, an
  \<^verbatim>\<open>Unschedulable\<close> does not.  The result says whether the phase was cut off.
\<close>

fun run_prefilters ::
  "(code \<Rightarrow> bool) \<Rightarrow> in_tree_prefilter \<Rightarrow> ns_client \<Rightarrow> pod_lister \<Rightarrow> 'w reservation_api \<Rightarrow> string list \<Rightarrow> pod
     \<Rightarrow> reservation_data cycle_state \<times> 'w rr_state \<Rightarrow> bool \<times> reservation_data cycle_state \<times> 'w rr_state" where
  "run_prefilters ends it_prefilter client lister api [] p s = (False, s)"
| "run_prefilters ends it_prefilter client lister api (name # names) p s =
     (let (r, s') = prefilter_of it_prefilter client lister api name p s
      in if ends (st_code r) then (True, s') else run_prefilters ends it_prefilter client lister api names p s')"

text \<open>
  The plugins of the phase: Kubernetes' own ones are enabled at every point they implement, beside those a profile lists,
  which run after those of Kubernetes that it does not list.
\<close>

definition prefilter_plugins :: "string list \<Rightarrow> plugin_config \<Rightarrow> string list" where
  "prefilter_plugins defaults cfg =
     filter (\<lambda>n. n \<notin> set (enabled_at ''preFilter'' cfg)) defaults @ enabled_at ''preFilter'' cfg"

text \<open>A plugin of Kubernetes writes under keys of its own.\<close>

definition keeps_profile :: "in_tree_prefilter \<Rightarrow> bool" where
  "keeps_profile it_prefilter \<longleftrightarrow> (\<forall>name p cs. snd (it_prefilter name p cs) stateKey = cs stateKey)"

lemma prefilter_keeps:
  assumes "keeps_profile it_prefilter" "name \<noteq> ''ProfileClassifier''"
    and "prefilter_of it_prefilter client lister api name p (cs, st) = (r, cs', st')"
  shows "cs' stateKey = cs stateKey"
proof -
  have "snd (it_prefilter name p cs) stateKey = cs stateKey" using assms(1) by (simp add: keeps_profile_def)
  then show ?thesis
    using assms(2,3)
    by (auto simp: prefilter_of_def reservation_PreFilter_def rr_stateKey_def stateKey_def Let_def
        split: if_splits sum.splits prod.splits)
qed

lemma run_prefilters_keep:
  assumes "keeps_profile it_prefilter" "''ProfileClassifier'' \<notin> set names"
    and "run_prefilters ends it_prefilter client lister api names p (cs, st) = (e, cs', st')"
  shows "cs' stateKey = cs stateKey"
  using assms(2,3)
proof (induction names arbitrary: cs st)
  case (Cons name names)
  obtain r1 cs1 st1 where s: "prefilter_of it_prefilter client lister api name p (cs, st) = (r1, cs1, st1)"
    by (cases "prefilter_of it_prefilter client lister api name p (cs, st)") auto
  have "cs1 stateKey = cs stateKey"
    by (rule prefilter_keeps [OF assms(1) _ s]) (use Cons.prems(1) in auto)
  then show ?case
    using Cons s by (auto split: if_splits)
qed simp

lemma run_prefilters_append:
  "run_prefilters ends it_prefilter client lister api (names @ names') p s =
     (case run_prefilters ends it_prefilter client lister api names p s of
        (True, s') \<Rightarrow> (True, s')
      | (False, s') \<Rightarrow> run_prefilters ends it_prefilter client lister api names' p s')"
  by (induction names arbitrary: s) (auto simp: Let_def split: prod.splits bool.splits)

section \<open>Properties\<close>

lemma implements_more: "implements plugins field name \<Longrightarrow> implements (plugins @ in_tree) field name"
proof -
  have "find P xs = Some r \<Longrightarrow> find P (xs @ ys) = Some r" for P :: "registration \<Rightarrow> bool" and xs ys r
    by (induction xs) (auto split: if_splits)
  then show "implements plugins field name \<Longrightarrow> implements (plugins @ in_tree) field name"
    by (auto simp: implements_def split: option.splits)
qed

lemma refused_more: "refused plugins cfg = [] \<Longrightarrow> refused (plugins @ in_tree) cfg = []"
  using implements_more by (fastforce simp: refused_def filter_empty_conv)

lemma shipped_refused: "refused registry deployed_config = []" "\<forall>(nm, cfg) \<in> set image_config. refused registry cfg = []"
  by code_simp+

lemma registry_names: "''preExtender'' \<notin> set (map rg_name registry)" "''resourceReservation'' \<notin> set (map rg_name registry)"
  by code_simp+

lemma implements_unregistered: "n \<notin> set (map rg_name plugins) \<Longrightarrow> \<not> implements plugins field n"
proof -
  assume "n \<notin> set (map rg_name plugins)"
  then have "find (\<lambda>r. rg_name r = n) plugins = None"
    by (auto simp: find_None_iff)
  then show "\<not> implements plugins field n"
    by (simp add: implements_def split: option.split)
qed

lemma implements_coscheduling:
  "implements (registry @ in_tree) field ''Coscheduling'' \<longleftrightarrow>
     (case point_of_field field of None \<Rightarrow> False | Some pt \<Rightarrow> pt \<in> set (rg_points coscheduling_plugin))"
proof -
  have "find (\<lambda>r. rg_name r = ''Coscheduling'') (registry @ in_tree) = Some coscheduling_plugin"
    by (simp add: registry_def plugin_defs)
  then show ?thesis
    by (simp add: implements_def split: option.split)
qed

lemma point_of_fields:
  "point_of_field ''queueSort'' = Some QueueSortPoint" "point_of_field ''preFilter'' = Some PreFilterPoint"
  "point_of_field ''filter'' = Some FilterPoint" "point_of_field ''permit'' = Some PermitPoint"
  "point_of_field ''reserve'' = Some ReservePoint" "point_of_field ''preBind'' = Some PreBindPoint"
  "point_of_field ''bind'' = Some BindPoint" "point_of_field ''unreserve'' = None"
  "point_of_field ''score'' = Some ScorePoint" "point_of_field ''preScore'' = Some PreScorePoint"
  by code_simp+

text \<open>Whatever plugins Kubernetes itself registers, the configuration of the deployment and the three profiles of
  the image are accepted, every plugin they enable being registered and implementing its extension point; of the
  high-availability deployment nine entries are refused: names nobody registers, a field that does not exist,
  and the coscheduling plugin at five points it does not implement.\<close>

theorem shipped_configurations:
  assumes "\<forall>r \<in> set in_tree. rg_name r \<noteq> ''preExtender'' \<and> rg_name r \<noteq> ''resourceReservation''"
  shows "refused (registry @ in_tree) deployed_config = [] \<and>
    (\<forall>(nm, cfg) \<in> set image_config. refused (registry @ in_tree) cfg = []) \<and>
    refused (registry @ in_tree) ha_config =
      [(''preFilter'', ''preExtender''), (''filter'', ''Coscheduling''), (''reserve'', ''resourceReservation''),
       (''preBind'', ''Coscheduling''), (''bind'', ''Coscheduling''), (''unreserve'', ''Coscheduling''),
       (''unreserve'', ''resourceReservation''), (''score'', ''Coscheduling''), (''preScore'', ''Coscheduling'')]"
proof (intro conjI)
  show "refused (registry @ in_tree) deployed_config = []"
    by (rule refused_more [OF shipped_refused(1)])
  show "\<forall>(nm, cfg) \<in> set image_config. refused (registry @ in_tree) cfg = []"
    using shipped_refused(2) refused_more by fastforce
  have none: "\<not> implements (registry @ in_tree) field ''preExtender''"
    "\<not> implements (registry @ in_tree) field ''resourceReservation''" for field
    by (rule implements_unregistered; use assms registry_names in force)+
  have at: "implements (registry @ in_tree) ''queueSort'' ''Coscheduling''" "implements (registry @ in_tree) ''preFilter'' ''Coscheduling''"
    "\<not> implements (registry @ in_tree) ''filter'' ''Coscheduling''" "implements (registry @ in_tree) ''permit'' ''Coscheduling''"
    "\<not> implements (registry @ in_tree) ''preBind'' ''Coscheduling''" "\<not> implements (registry @ in_tree) ''bind'' ''Coscheduling''"
    "\<not> implements (registry @ in_tree) ''unreserve'' ''Coscheduling''" "\<not> implements (registry @ in_tree) ''score'' ''Coscheduling''"
    "\<not> implements (registry @ in_tree) ''preScore'' ''Coscheduling''"
    by (simp_all only: implements_coscheduling point_of_fields option.case coscheduling_plugin_def registration.select_convs list.set) simp_all
  show "refused (registry @ in_tree) ha_config =
      [(''preFilter'', ''preExtender''), (''filter'', ''Coscheduling''), (''reserve'', ''resourceReservation''),
       (''preBind'', ''Coscheduling''), (''bind'', ''Coscheduling''), (''unreserve'', ''Coscheduling''),
       (''unreserve'', ''resourceReservation''), (''score'', ''Coscheduling''), (''preScore'', ''Coscheduling'')]"
    by (simp add: refused_def ha_config_def none at)
qed

text \<open>Beside a plugin of Kubernetes.\<close>

theorem shipped_configurations_witness:
  "length (refused (registry @ [\<lparr>rg_name = ''NodeResourcesFit'', rg_points = [FilterPoint, ScorePoint]\<rparr>]) ha_config) = 9"
  using shipped_configurations [of "[\<lparr>rg_name = ''NodeResourcesFit'', rg_points = [FilterPoint, ScorePoint]\<rparr>]"] by simp

text \<open>C16: The profile the plugins ask for is there in one of the two accepted configurations only, whatever plugins of
  Kubernetes, which write under keys of their own, take part and whichever answers make the framework leave the rest of the
  phase out, as long as success does not.  When no plugin of Kubernetes that comes first cuts the PreFilter phase of the
  deployment off, the cycle's state holds after it the profile the classifier made of the pod, even if a plugin behind
  the classifier cuts the phase off; in particular it does whenever a pod gets through the phase.  After the phase of
  any profile of the image, which enables no classifier, it holds none, so that the plugins such a profile enables do
  without it: backfill takes the pod for one of the lowest tier, and the workload-aware score classifies by the pod.\<close>

theorem profile_reaches_plugins:
  assumes "keeps_profile it_prefilter" "\<not> ends Success"
    and "''ProfileClassifier'' \<notin> set defaults" "''Coscheduling'' \<notin> set defaults"
    and "run_prefilters ends it_prefilter client lister api (prefilter_plugins defaults deployed_config) p (Map.empty, st) = (e, cs, st1)"
    and "cfg \<in> snd ` set image_config"
    and "run_prefilters ends it_prefilter client lister api (prefilter_plugins defaults cfg) p (Map.empty, st) = (e2, cs2, st2)"
  shows "(\<not> fst (run_prefilters ends it_prefilter client lister api defaults p (Map.empty, st)) \<or> \<not> e \<longrightarrow>
      GetProfile (Some cs) = Inr (classifyPod client p)) \<and>
    GetProfile (Some cs2) = Inl NotInState \<and>
    bf_getTenantTierFromProfile (Some cs2) p = ''bronze'' \<and> wa_getWorkloadTypeFromProfile (Some cs2) p = Inr (ClassifyPod (Some p))"
proof (intro conjI impI)
  have l: "prefilter_plugins defaults deployed_config = defaults @ [''ProfileClassifier'', ''Coscheduling'']"
    using assms(3,4) by (auto simp: prefilter_plugins_def enabled_at_def deployed_config_def intro!: filter_True)
  assume "\<not> fst (run_prefilters ends it_prefilter client lister api defaults p (Map.empty, st)) \<or> \<not> e"
  then obtain cs0 st0 where "run_prefilters ends it_prefilter client lister api defaults p (Map.empty, st) = (False, cs0, st0)"
    using assms(5) unfolding l run_prefilters_append
    by (cases "run_prefilters ends it_prefilter client lister api defaults p (Map.empty, st)") (auto split: bool.splits)
  then show "GetProfile (Some cs) = Inr (classifyPod client p)"
    using assms(2,5) unfolding l run_prefilters_append
    by (auto simp: prefilter_of_def profile_PreFilter_def GetProfile_def split: if_splits)
next
  have "''ProfileClassifier'' \<notin> set (prefilter_plugins defaults cfg)"
    using assms(3,6) by (auto simp: prefilter_plugins_def enabled_at_def image_config_def)
  from run_prefilters_keep [OF assms(1) this assms(7)] show g: "GetProfile (Some cs2) = Inl NotInState"
    by (simp add: GetProfile_def)
  show "bf_getTenantTierFromProfile (Some cs2) p = ''bronze''" "wa_getWorkloadTypeFromProfile (Some cs2) p = Inr (ClassifyPod (Some p))"
    by (simp_all add: g bf_getTenantTierFromProfile_def wa_getWorkloadTypeFromProfile_def)
qed

text \<open>A pod of a silver namespace, behind a plugin of Kubernetes.\<close>

definition ex_in_tree :: in_tree_prefilter where
  "ex_in_tree name p cs = (success, cs)"

theorem profile_reaches_plugins_witness:
  "\<exists>cs cs2. bf_getTenantTierFromProfile (Some cs) ex_gang_pod = ''silver'' \<and> bf_getTenantTierFromProfile (Some cs2) ex_gang_pod = ''bronze'' \<and>
     cs = fst (snd (run_prefilters (\<lambda>c. c = Error) ex_in_tree ex_ns_client (cache_lister []) mem_api
       (prefilter_plugins [''NodeResourcesFit''] deployed_config) ex_gang_pod (Map.empty, ex_rr))) \<and>
     cs2 = fst (snd (run_prefilters (\<lambda>c. c = Error) ex_in_tree ex_ns_client (cache_lister []) mem_api
       (prefilter_plugins [''NodeResourcesFit''] (snd (image_config ! 1))) ex_gang_pod (Map.empty, ex_rr)))"
proof -
  let ?run = "\<lambda>names. run_prefilters (\<lambda>c. c = Error) ex_in_tree ex_ns_client (cache_lister []) mem_api names ex_gang_pod (Map.empty, ex_rr)"
  obtain e cs st1 e2 cs2 st2 where
    s: "?run (prefilter_plugins [''NodeResourcesFit''] deployed_config) = (e, cs, st1)"
    "?run (prefilter_plugins [''NodeResourcesFit''] (snd (image_config ! 1))) = (e2, cs2, st2)"
    by (metis prod_cases3)
  have k: "keeps_profile ex_in_tree" "\<not> (\<lambda>c. c = Error) Success" "''ProfileClassifier'' \<notin> set [''NodeResourcesFit'']"
    "''Coscheduling'' \<notin> set [''NodeResourcesFit'']" "snd (image_config ! 1) \<in> snd ` set image_config"
    by (simp_all add: keeps_profile_def ex_in_tree_def image_config_def)
  have "\<not> fst (?run [''NodeResourcesFit''])" by (simp add: prefilter_of_def ex_in_tree_def)
  moreover have t: "tier_string (sp_tier (classifyPod ex_ns_client ex_gang_pod)) = ''silver''"
    by code_simp
  ultimately have "bf_getTenantTierFromProfile (Some cs) ex_gang_pod = ''silver''" "bf_getTenantTierFromProfile (Some cs2) ex_gang_pod = ''bronze''"
    using profile_reaches_plugins [OF k(1-4) s(1) k(5) s(2)] by (simp_all add: bf_getTenantTierFromProfile_def)
  then show ?thesis using s by auto
qed

end
