(* ===== verification/Pipeline.thy ===== *)
theory Pipeline
  imports Deployment Vram Fragmentation NetworkFabric Numa WorkloadAware TopologySpread Backfill TenantHardware
begin

text \<open>
  A scheduling cycle of a pod over the plugins of the repository: the Filter phase on every node, the Score phase
  on the nodes that pass it, and the choice among the nodes with the greatest total.

  The framework is documented to accept a node when every filter plugin answers success, to add the weighted
  scores of the enabled score plugins up, to end the cycle with an error when a plugin answers an error or a score
  outside 0 to 100, and not to score at all when a single node is left.  No score plugin of the repository
  normalizes its scores: \<^verbatim>\<open>ScoreExtensions\<close> returns nil in all of them.  Kubernetes' own plugins are the
  parameters \<^verbatim>\<open>it_filter\<close> and \<^verbatim>\<open>it_score\<close>, the latter after their normalization.  Of the filters of the
  repository, that of the reservations, which the deployment does not enable and which rejects no node, is left out.

  A call that does not return is \<^verbatim>\<open>None\<close>.
\<close>

section \<open>The plugins on a node\<close>

text \<open>What the informers, the snapshot and the framework give the plugins.\<close>

record cycle_env =
  ce_pods :: pod_lister
  ce_nodes :: node_lister
  ce_slices :: slice_lister
  ce_snapshot :: "string + node_info list"
  ce_parse :: quantity_parser
  ce_claims :: "claim_listers option"
  it_filter :: "string \<Rightarrow> pod \<Rightarrow> node_info \<Rightarrow> status"
  it_score :: "string \<Rightarrow> pod \<Rightarrow> node_info \<Rightarrow> int \<times> status"

definition filter_of ::
  "cycle_env \<Rightarrow> 'o cycle_state option \<Rightarrow> pod \<Rightarrow> node_info \<Rightarrow> string \<Rightarrow> status option" where
  "filter_of env state p ni name =
     (if name = ''NetworkFabricScore'' then Some (nf_Filter (ce_pods env) (ce_nodes env) (ce_slices env) p ni)
      else if name = ''VRAMScheduler'' then vram_Filter (ce_parse env) (ce_slices env) (ce_claims env) p ni
      else if name = ''NUMATopology'' then numa_Filter p ni
      else if name = ''ResourceFragmentationScore'' then Some (frag_Filter (Some (ce_pods env)) state p ni)
      else Some (it_filter env name p ni))"

fun run_filters ::
  "cycle_env \<Rightarrow> 'o cycle_state option \<Rightarrow> pod \<Rightarrow> node_info \<Rightarrow> string list \<Rightarrow> status option" where
  "run_filters env state p ni [] = Some success"
| "run_filters env state p ni (name # names) =
     (case filter_of env state p ni name of
        None \<Rightarrow> None
      | Some r \<Rightarrow> if st_code r = Success then run_filters env state p ni names else Some r)"

text \<open>The score of one plugin.  That of the NUMA plugin leaves its gang states changed.\<close>

definition score_of ::
  "cycle_env \<Rightarrow> 'o cycle_state option \<Rightarrow> pod \<Rightarrow> node_info \<Rightarrow> gang_states \<Rightarrow> string \<Rightarrow> ((int \<times> status) \<times> gang_states) option" where
  "score_of env state p ni gangs name =
     (if name = ''NUMATopology'' then numa_Score gangs p ni
      else map_option (\<lambda>r. (r, gangs))
       (if name = ''WorkloadAwareScoring'' then Some (WorkloadAware_Score state p ni)
        else if name = ''TopologyScoring'' then Some (TopologySpread_Score (ce_snapshot env) state p ni)
        else if name = ''BackfillScoring'' then Some (Backfill_Score (Some (ce_pods env)) state p ni)
        else if name = ''ResourceFragmentationScore'' then Some (frag_Score (Some (ce_pods env)) state p ni)
        else if name = ''TenantHardwareAffinityScore'' then Some (TenantHardware_Score state p ni)
        else if name = ''VRAMScheduler'' then vram_Score (ce_parse env) (ce_slices env) (ce_claims env) state p ni
        else if name = ''NetworkFabricScore''
        then Some (nf_Score (ce_pods env) (Some (ce_nodes env)) (ce_slices env) state p ni)
        else Some (it_score env name p ni)))"

text \<open>The weighted total of a node, or the plugin that ends the cycle.\<close>

fun run_scores_on ::
  "cycle_env \<Rightarrow> 'o cycle_state option \<Rightarrow> pod \<Rightarrow> node_info \<Rightarrow> (string \<Rightarrow> int) \<Rightarrow> string list \<Rightarrow> gang_states \<Rightarrow>
     ((string + int) \<times> gang_states) option" where
  "run_scores_on env state p ni weight [] gangs = Some (Inr 0, gangs)"
| "run_scores_on env state p ni weight (name # names) gangs =
     (case score_of env state p ni gangs name of
        None \<Rightarrow> None
      | Some ((score, r), gangs1) \<Rightarrow>
          if st_code r \<noteq> Success \<or> score < 0 \<or> score > MaxNodeScore then Some (Inl name, gangs1)
          else (case run_scores_on env state p ni weight names gangs1 of
                  None \<Rightarrow> None
                | Some (Inl bad, gangs2) \<Rightarrow> Some (Inl bad, gangs2)
                | Some (Inr t, gangs2) \<Rightarrow> Some (Inr (weight name * score + t), gangs2)))"

section \<open>The cycle\<close>

fun feasible_nodes ::
  "cycle_env \<Rightarrow> 'o cycle_state option \<Rightarrow> pod \<Rightarrow> string list \<Rightarrow> node_info list \<Rightarrow> (string + node_info list) option" where
  "feasible_nodes env state p names [] = Some (Inr [])"
| "feasible_nodes env state p names (ni # nis) =
     (case run_filters env state p ni names of
        None \<Rightarrow> None
      | Some r \<Rightarrow>
          if st_code r = Error then Some (Inl (st_reason r))
          else (case feasible_nodes env state p names nis of
                  None \<Rightarrow> None
                | Some (Inl err) \<Rightarrow> Some (Inl err)
                | Some (Inr fs) \<Rightarrow> Some (Inr (if st_code r = Success then ni # fs else fs))))"

fun node_totals ::
  "cycle_env \<Rightarrow> 'o cycle_state option \<Rightarrow> pod \<Rightarrow> (string \<Rightarrow> int) \<Rightarrow> string list \<Rightarrow> node_info list \<Rightarrow> gang_states \<Rightarrow>
     ((string + (node_info \<times> int) list) \<times> gang_states) option" where
  "node_totals env state p weight names [] gangs = Some (Inr [], gangs)"
| "node_totals env state p weight names (ni # nis) gangs =
     (case run_scores_on env state p ni weight names gangs of
        None \<Rightarrow> None
      | Some (Inl bad, gangs1) \<Rightarrow> Some (Inl bad, gangs1)
      | Some (Inr t, gangs1) \<Rightarrow>
         (case node_totals env state p weight names nis gangs1 of
            None \<Rightarrow> None
          | Some (Inl bad, gangs2) \<Rightarrow> Some (Inl bad, gangs2)
          | Some (Inr totals, gangs2) \<Rightarrow> Some (Inr ((ni, t) # totals), gangs2)))"

definition best_nodes :: "(node_info \<times> int) list \<Rightarrow> node_info list" where
  "best_nodes totals = map fst (filter (\<lambda>(ni, t). \<forall>(nj, u) \<in> set totals. u \<le> t) totals)"

text \<open>The nodes the framework may choose from, no node, or the error that ends the cycle.\<close>

definition schedule_pod ::
  "cycle_env \<Rightarrow> 'o cycle_state option \<Rightarrow> plugin_config \<Rightarrow> (string \<Rightarrow> int) \<Rightarrow> pod \<Rightarrow> node_info list \<Rightarrow> gang_states \<Rightarrow>
     ((string + node_info list) \<times> gang_states) option" where
  "schedule_pod env state cfg weight p nis gangs =
     (case feasible_nodes env state p (enabled_at ''filter'' cfg) nis of
        None \<Rightarrow> None
      | Some (Inl err) \<Rightarrow> Some (Inl err, gangs)
      | Some (Inr fs) \<Rightarrow>
          if length fs \<le> 1 then Some (Inr fs, gangs)
          else (case node_totals env state p weight (enabled_at ''score'' cfg) fs gangs of
                  None \<Rightarrow> None
                | Some (Inl bad, gangs') \<Rightarrow> Some (Inl bad, gangs')
                | Some (Inr totals, gangs') \<Rightarrow> Some (Inr (best_nodes totals), gangs')))"

section \<open>Lemmas\<close>





lemma best_nodes_ex: "totals \<noteq> [] \<Longrightarrow> best_nodes totals \<noteq> []"
proof -
  assume a: "totals \<noteq> []"
  define m where "m = Max (snd ` set totals)"
  have "m \<in> snd ` set totals" using a by (auto simp: m_def intro: Max_in)
  then obtain ni where ni: "(ni, m) \<in> set totals" by auto
  moreover have "u \<le> m" if "(nj, u) \<in> set totals" for nj u
    using that unfolding m_def by (intro Max_ge) force+
  ultimately show ?thesis by (auto simp: best_nodes_def filter_empty_conv)
qed


lemma deployed_filters: "enabled_at ''filter'' deployed_config = [''NetworkFabricScore'', ''VRAMScheduler'', ''NUMATopology'']"
  by code_simp

lemma filter_of_names:
  "filter_of env state p ni ''NetworkFabricScore'' = Some (nf_Filter (ce_pods env) (ce_nodes env) (ce_slices env) p ni)"
  "filter_of env state p ni ''VRAMScheduler'' = vram_Filter (ce_parse env) (ce_slices env) (ce_claims env) p ni"
  "filter_of env state p ni ''NUMATopology'' = numa_Filter p ni"
  by (simp_all add: filter_of_def)


section \<open>A node that is chosen holds the pod\<close>

text \<open>What the filters admit: a request for GPU memory, in bytes, when the memory the node is taken to have per GPU is
  not zero and, times the number of GPUs the pod asks for and in 64 bits, holds it; and a pod that asks for
  a single NUMA node when one of the node's NUMA nodes holds it, or when the labels of the node describe at most
  one.\<close>

definition vram_fits :: "cycle_env \<Rightarrow> pod \<Rightarrow> node \<Rightarrow> bool" where
  "vram_fits env p n \<longleftrightarrow>
     (let request = getVRAMRequest (ce_parse env) (ce_claims env) p
      in request = 0 \<or>
         (case getNodeGPUVRAM (ce_parse env) (ce_slices env) n of
            None \<Rightarrow> False
          | Some (gpuVRAM, _) \<Rightarrow> gpuVRAM \<noteq> 0 \<and> request \<le> wrap64 (gpuVRAM * gpus_for p)))"

definition numa_fits :: "pod \<Rightarrow> node \<Rightarrow> bool" where
  "numa_fits p n \<longleftrightarrow> getNUMAPolicy p \<noteq> NUMAPolicySingleNode \<or>
     (case parseNUMATopology n of
        None \<Rightarrow> False
      | Some (Inl _) \<Rightarrow> True
      | Some (Inr ns) \<Rightarrow> length ns \<le> 1 \<or> (\<exists>nd \<in> set ns. numa_holds p n nd))"




text \<open>Binding changes the node of the pod only, which none of its requests depend on.\<close>

lemma claims_vram_bound: "claims_vram q l (p\<lparr>p_node := x\<rparr>) cs = claims_vram q l p cs"
proof (induction cs)
  case (Cons c cs)
  have "claim_vram q (p\<lparr>p_node := x\<rparr>) = claim_vram q p"
    by (intro ext) (simp add: claim_vram_def Let_def cong: option.case_cong)
  with Cons show ?case by (simp add: Let_def cong: option.case_cong sum.case_cong)
qed simp

lemma ClassifyPod_bound: "ClassifyPod (Some (p\<lparr>p_node := x\<rparr>)) = ClassifyPod (Some p)"
proof -
  have "GetPodGroupLabels (Some (p\<lparr>p_node := x\<rparr>)) = GetPodGroupLabels (Some p)"
    by (simp add: GetPodGroupLabels_def cong: option.case_cong)
  then show ?thesis by (simp add: ClassifyPod_def cong: option.case_cong)
qed

lemma vram_fits_bound [simp]: "vram_fits env (p\<lparr>p_node := x\<rparr>) n \<longleftrightarrow> vram_fits env p n"
proof -
  have "getVRAMRequest q l (p\<lparr>p_node := x\<rparr>) = getVRAMRequest q l p" for q l
    by (simp add: getVRAMRequest_def getVRAMFromResourceClaim_def vram_annotation_def claims_vram_bound split: option.split)
  moreover have "gpus_for (p\<lparr>p_node := x\<rparr>) = gpus_for p"
    by (simp add: gpus_for_def getGPURequest_def)
  ultimately show ?thesis by (simp add: vram_fits_def cong: option.case_cong)
qed

lemma numa_fits_bound [simp]: "numa_fits (p\<lparr>p_node := x\<rparr>) n \<longleftrightarrow> numa_fits p n"
proof -
  have "getNUMAPolicy (p\<lparr>p_node := x\<rparr>) = getNUMAPolicy p"
    by (simp add: getNUMAPolicy_def ClassifyPod_bound)
  moreover have "numa_holds (p\<lparr>p_node := x\<rparr>) n = numa_holds p n"
    by (intro ext) (simp add: numa_holds_def numa_getPodResourceRequests_def gpus_requested_def)
  ultimately show ?thesis by (simp add: numa_fits_def cong: option.case_cong sum.case_cong)
qed

section \<open>Runs of the deployed scheduler\<close>

text \<open>
  The pods of the cluster under the deployment: a pod is created, is chosen for one of the nodes its cycle
  leaves, is bound later, while other pods are chosen and bound, or is given up, and leaves.  In a cycle the lister
  has the pods of that moment, in which a pod that is chosen and not yet bound has no node; the nodes, the slices and
  the claims stay as they are.  The flag restricts the cycles as it does in \<^verbatim>\<open>placements\<close>.
\<close>

inductive deployed_run :: "bool \<Rightarrow> cycle_env \<Rightarrow> (string \<Rightarrow> int) \<Rightarrow> pod list \<Rightarrow> (pod \<times> string) list \<Rightarrow> bool"
  for careful env weight where
  run_start: "deployed_run careful env weight [] []"
| run_create: "deployed_run careful env weight ps chosen \<Longrightarrow> p_node p = '''' \<Longrightarrow> deployed_run careful env weight (p # ps) chosen"
| run_choose: "deployed_run careful env weight ps chosen \<Longrightarrow> (careful \<Longrightarrow> one_at_a_time p chosen) \<Longrightarrow>
    schedule_pod (env\<lparr>ce_pods := cache_lister ps\<rparr>) (state :: reservation_data cycle_state option) deployed_config weight p nis gangs =
      Some (Inr best, gangs') \<Longrightarrow>
    ni \<in> set best \<Longrightarrow> ni_node ni = Some n \<Longrightarrow> ce_nodes env (n_name n) = Inr n \<Longrightarrow>
    deployed_run careful env weight ps ((p, n_name n) # chosen)"
| run_bind: "deployed_run careful env weight ps chosen \<Longrightarrow> (p, h) \<in> set chosen \<Longrightarrow>
    deployed_run careful env weight (p\<lparr>p_node := h\<rparr> # remove1 p ps) (remove1 (p, h) chosen)"
| run_give_up: "deployed_run careful env weight ps chosen \<Longrightarrow> deployed_run careful env weight ps (remove1 c chosen)"
| run_relist: "deployed_run careful env weight ps chosen \<Longrightarrow> set qs \<subseteq> set ps \<Longrightarrow> deployed_run careful env weight qs chosen"




definition ex_cycle_env :: "pod list \<Rightarrow> node_info list \<Rightarrow> cycle_env" where
  "ex_cycle_env ps nis = \<lparr>ce_pods = cache_lister ps, ce_nodes = ex_fabric_nodes, ce_slices = None, ce_snapshot = Inr nis,
     ce_parse = ex_bytes, ce_claims = None, it_filter = (\<lambda>_ _ _. success), it_score = (\<lambda>_ _ _. (0, success))\<rparr>"

text \<open>A pod that asks for neither GPU memory nor a NUMA policy is judged by the clique filter alone.\<close>

lemma run_filters_clique:
  assumes "ni_node ni \<noteq> None" "getVRAMRequest (ce_parse env) (ce_claims env) p = 0" "getNUMAPolicy p = NUMAPolicyNone"
  shows "run_filters env state p ni (enabled_at ''filter'' deployed_config) =
    (let r = nf_Filter (ce_pods env) (ce_nodes env) (ce_slices env) p ni in if st_code r = Success then Some success else Some r)"
  using assms by (auto simp: deployed_filters filter_of_names vram_Filter_def numa_Filter_def Let_def)






section \<open>The total of a node\<close>

definition score_keeps :: "cycle_env \<Rightarrow> 'o cycle_state option \<Rightarrow> pod \<Rightarrow> node_info \<Rightarrow> string \<Rightarrow> bool" where
  "score_keeps env state p ni name \<longleftrightarrow>
     (\<forall>gangs score r gangs'. score_of env state p ni gangs name = Some ((score, r), gangs') \<longrightarrow>
        st_code r = Success \<and> 0 \<le> score \<and> score \<le> MaxNodeScore)"

lemma run_scores_on_range:
  assumes "\<forall>name \<in> set names. 0 \<le> weight name \<and> score_keeps env state p ni name"
    and "run_scores_on env state p ni weight names gangs = Some (r, gangs')"
  shows "\<exists>t. r = Inr t \<and> 0 \<le> t \<and> t \<le> MaxNodeScore * sum_list (map weight names)"
  using assms
proof (induction names arbitrary: gangs r gangs')
  case (Cons name names)
  obtain score s gangs1 where s: "score_of env state p ni gangs name = Some ((score, s), gangs1)"
    using Cons.prems(2) by (auto split: option.splits)
  then have k: "st_code s = Success" "0 \<le> score" "score \<le> MaxNodeScore" "0 \<le> weight name"
    using Cons.prems(1) by (auto simp: score_keeps_def)
  obtain r1 gangs2 where r1: "run_scores_on env state p ni weight names gangs1 = Some (r1, gangs2)"
    using Cons.prems(2) s k by (auto split: option.splits)
  obtain t where t: "r1 = Inr t" "0 \<le> t" "t \<le> MaxNodeScore * sum_list (map weight names)"
    using Cons.IH [OF _ r1] Cons.prems(1) by auto
  have "weight name * score \<le> weight name * MaxNodeScore" "0 \<le> weight name * score"
    using k by (simp_all add: mult_left_mono)
  then show ?case
    using Cons.prems(2) s k r1 t by (auto simp: algebra_simps)
qed simp

lemma run_scores_on_bad:
  assumes "\<forall>name \<in> set names. score_keeps env state p ni name"
    and "\<forall>gangs score r gangs'. score_of env state p ni gangs bad = Some ((score, r), gangs') \<longrightarrow> score < 0 \<or> score > MaxNodeScore"
    and "run_scores_on env state p ni weight (names @ bad # rest) gangs = Some (r, gangs')"
  shows "r = Inl bad"
  using assms(1,3)
proof (induction names arbitrary: gangs r gangs')
  case Nil
  then show ?case using assms(2) by (fastforce split: option.splits prod.splits if_splits)
next
  case (Cons name names)
  obtain score s gangs1 where s: "score_of env state p ni gangs name = Some ((score, s), gangs1)"
    using Cons.prems(2) by (auto split: option.splits)
  then have k: "st_code s = Success" "0 \<le> score" "score \<le> MaxNodeScore"
    using Cons.prems(1) by (auto simp: score_keeps_def)
  obtain r1 gangs2 where r1: "run_scores_on env state p ni weight (names @ bad # rest) gangs1 = Some (r1, gangs2)"
    using Cons.prems(2) s k by (auto split: option.splits)
  then show ?case
    using Cons.IH [OF _ r1] Cons.prems s k by auto
qed

text \<open>The nodes on which the contracts of the score plugins other than the fragmentation plugin apply: the amounts of
  the node, of its pods and of the cluster are in the ranges those contracts are stated for.\<close>

definition scorable :: "cycle_env \<Rightarrow> 'o cycle_state option \<Rightarrow> pod \<Rightarrow> node_info \<Rightarrow> bool" where
  "scorable env state p ni \<longleftrightarrow>
     ni_node ni \<noteq> None \<and> admissible_node ni \<and> topology_admissible (ce_snapshot env, state, p, ni) \<and>
     backfill_admissible (Some (ce_pods env), state, p, ni)"

lemma deployed_scores:
  "enabled_at ''score'' deployed_config =
     [''WorkloadAwareScoring'', ''TopologyScoring'', ''BackfillScoring''] @ ''ResourceFragmentationScore'' #
     [''TenantHardwareAffinityScore'', ''VRAMScheduler'', ''NetworkFabricScore'', ''NUMATopology'']"
  by (simp add: enabled_at_def deployed_config_def)

lemma score_of_names:
  "score_of env state p ni gangs ''NUMATopology'' = numa_Score gangs p ni"
  "score_of env state p ni gangs ''WorkloadAwareScoring'' = Some (WorkloadAware_Score state p ni, gangs)"
  "score_of env state p ni gangs ''TopologyScoring'' = Some (TopologySpread_Score (ce_snapshot env) state p ni, gangs)"
  "score_of env state p ni gangs ''BackfillScoring'' = Some (Backfill_Score (Some (ce_pods env)) state p ni, gangs)"
  "score_of env state p ni gangs ''ResourceFragmentationScore'' = Some (frag_Score (Some (ce_pods env)) state p ni, gangs)"
  "score_of env state p ni gangs ''TenantHardwareAffinityScore'' = Some (TenantHardware_Score state p ni, gangs)"
  "score_of env state p ni gangs ''VRAMScheduler'' =
     map_option (\<lambda>r. (r, gangs)) (vram_Score (ce_parse env) (ce_slices env) (ce_claims env) state p ni)"
  "score_of env state p ni gangs ''NetworkFabricScore'' =
     Some (nf_Score (ce_pods env) (Some (ce_nodes env)) (ce_slices env) state p ni, gangs)"
  by (simp_all add: score_of_def)

lemma frag_Score_succeeds: "st_code (snd (frag_Score l state p ni)) = Success"
  by (simp add: frag_Score_def Let_def split: option.split)

lemma scorable_keeps:
  assumes "scorable env state p ni"
    and "name \<in> set (enabled_at ''score'' deployed_config)" "name \<noteq> ''ResourceFragmentationScore''"
  shows "score_keeps env state p ni name"
proof -
  obtain n where n: "ni_node ni = Some n" using assms(1) by (auto simp: scorable_def)
  have a: "admissible_node ni" "topology_admissible (ce_snapshot env, state, p, ni)"
    "backfill_admissible (Some (ce_pods env), state, p, ni)"
    using assms(1) by (simp_all add: scorable_def)
  have "score_keeps env state p ni ''WorkloadAwareScoring''"
    using workload_aware.score_ok [of "(state, p, ni)"] workload_aware.score_range [of "(state, p, ni)"] a(1)
    by (auto simp: score_keeps_def score_of_names)
  moreover have "score_keeps env state p ni ''TopologyScoring''"
    using topology_spread.score_ok [OF a(2)] topology_spread.score_range [OF a(2)]
    by (auto simp: score_keeps_def score_of_names)
  moreover have "score_keeps env state p ni ''BackfillScoring''"
    using backfill.score_ok [OF a(3)] backfill.score_range [OF a(3)]
    by (auto simp: score_keeps_def score_of_names)
  moreover have "score_keeps env state p ni ''TenantHardwareAffinityScore''"
    using tenant_hardware.score_ok [of "(state, p, ni)"] tenant_hardware.score_range [of "(state, p, ni)"]
    by (auto simp: score_keeps_def score_of_names)
  moreover have "score_keeps env state p ni ''NetworkFabricScore''"
    using network_fabric.score_ok [of "(ce_pods env, Some (ce_nodes env), ce_slices env, state, p, ni)"]
      network_fabric.score_range [of "(ce_pods env, Some (ce_nodes env), ce_slices env, state, p, ni)"] n
    by (auto simp: score_keeps_def score_of_names)
  moreover have "score_keeps env state p ni ''VRAMScheduler''"
    using vram.score_ok [of "(ce_parse env, ce_slices env, ce_claims env, state, p, ni)"]
      vram.score_range [of "(ce_parse env, ce_slices env, ce_claims env, state, p, ni)"] n
    by (auto simp: score_keeps_def score_of_names vram_score_returns_def vram_score_answer_def)
  moreover have "score_keeps env state p ni ''NUMATopology''"
    unfolding score_keeps_def score_of_names
  proof (intro allI impI)
    fix gangs score r gangs'
    assume "numa_Score gangs p ni = Some ((score, r), gangs')"
    from numa_Score_cases [OF this n] show "st_code r = Success \<and> 0 \<le> score \<and> score \<le> MaxNodeScore"
      by (simp add: MaxNodeScore_def)
  qed
  ultimately show ?thesis
    using assms(2,3) by (auto simp only: deployed_scores set_append list.set Un_iff insert_iff empty_iff)
qed

text \<open>C15: Of the eight score plugins of the deployment only the fragmentation plugin can spoil a node.  On a node whose
  amounts are in range, whenever the calls return, the weighted total is between 0 and a hundred times the sum of the
  weights if the fragmentation score is between 0 and 100; if it is not, the cycle ends with its error, whatever the
  other plugins say.\<close>

theorem deployed_total_range:
  assumes "scorable env state p ni" and "\<forall>name \<in> set (enabled_at ''score'' deployed_config). 0 \<le> weight name"
    and "run_scores_on env state p ni weight (enabled_at ''score'' deployed_config) gangs = Some (r, gangs')"
  shows "if fst (frag_Score (Some (ce_pods env)) state p ni) \<in> {0..100}
    then \<exists>t. r = Inr t \<and> 0 \<le> t \<and> t \<le> 100 * sum_list (map weight (enabled_at ''score'' deployed_config))
    else r = Inl ''ResourceFragmentationScore''"
proof (cases "fst (frag_Score (Some (ce_pods env)) state p ni) \<in> {0..100}")
  case True
  then have "score_keeps env state p ni ''ResourceFragmentationScore''"
    using frag_Score_succeeds [of "Some (ce_pods env)" state p ni]
    by (auto simp: score_keeps_def score_of_names MaxNodeScore_def)
  then have "\<forall>name \<in> set (enabled_at ''score'' deployed_config). 0 \<le> weight name \<and> score_keeps env state p ni name"
    using scorable_keeps [OF assms(1)] assms(2) by metis
  from run_scores_on_range [OF this assms(3)] True show ?thesis
    by (simp add: MaxNodeScore_def)
next
  case False
  have "r = Inl ''ResourceFragmentationScore''"
  proof (rule run_scores_on_bad [OF _ _ assms(3) [unfolded deployed_scores]])
    show "\<forall>name \<in> set [''WorkloadAwareScoring'', ''TopologyScoring'', ''BackfillScoring'']. score_keeps env state p ni name"
      using scorable_keeps [OF assms(1)] by (simp add: deployed_scores)
    show "\<forall>gangs score r gangs'. score_of env state p ni gangs ''ResourceFragmentationScore'' = Some ((score, r), gangs') \<longrightarrow>
        score < 0 \<or> score > MaxNodeScore"
      using False by (auto simp: score_of_names MaxNodeScore_def)
  qed
  with False show ?thesis by simp
qed

text \<open>A pod that asks for neither GPU memory nor a NUMA policy: every call returns.\<close>

lemma light_score_returns:
  assumes "ni_node ni \<noteq> None" "getVRAMRequest (ce_parse env) (ce_claims env) p = 0" "getNUMAPolicy p = NUMAPolicyNone"
  shows "\<exists>s. score_of env state p ni gangs name = Some (s, gangs)"
proof -
  have v: "vram_Score (ce_parse env) (ce_slices env) (ce_claims env) state p ni = Some (ScoreAcceptableFit, success)"
    and n: "numa_Score gangs p ni = Some ((quot MaxNodeScore 2, success), gangs)"
    using assms by (auto simp: vram_Score_def numa_Score_def)
  have branch: "c \<Longrightarrow> (if c then a else b) = a" "\<not> c \<Longrightarrow> (if c then a else b) = b" for c and a b :: 'z by simp_all
  have inner: "\<exists>r. (if c1 then Some r1 else if c2 then Some r2 else if c3 then Some r3 else if c4 then Some r4
      else if c5 then Some r5 else if c6 then Some r6 else if c7 then Some r7 else Some r8) = Some r"
    for c1 c2 c3 c4 c5 c6 c7 and r1 r2 r3 r4 r5 r6 r7 r8 :: 'z
    by simp
  show ?thesis
  proof (cases "name = ''NUMATopology''")
    case True
    then show ?thesis by (simp only: score_of_names n) blast
  next
    case False
    then show ?thesis
      unfolding score_of_def v branch(2) [OF False] map_option_eq_Some
      using inner by fastforce
  qed
qed

lemma light_run_returns:
  assumes "ni_node ni \<noteq> None" "getVRAMRequest (ce_parse env) (ce_claims env) p = 0" "getNUMAPolicy p = NUMAPolicyNone"
  shows "\<exists>r. run_scores_on env state p ni weight names gangs = Some (r, gangs)"
proof (induction names)
  case (Cons name names)
  obtain score s where "score_of env state p ni gangs name = Some ((score, s), gangs)"
    using light_score_returns [OF assms] by (metis surj_pair)
  with Cons show ?case by (auto split: sum.splits)
qed simp

lemma light_totals_return:
  assumes "\<forall>ni \<in> set nis. ni_node ni \<noteq> None" "getVRAMRequest (ce_parse env) (ce_claims env) p = 0" "getNUMAPolicy p = NUMAPolicyNone"
  shows "\<exists>r. node_totals env state p weight names nis gangs = Some (r, gangs)"
  using assms(1)
proof (induction nis)
  case (Cons ni nis)
  obtain r where "run_scores_on env state p ni weight names gangs = Some (r, gangs)"
    using light_run_returns [OF _ assms(2,3)] Cons.prems by fastforce
  with Cons show ?case by (cases r) (auto split: sum.splits)
qed simp

lemma ex_plain_requests:
  "getVRAMRequest (ce_parse (ex_cycle_env ps nis)) (ce_claims (ex_cycle_env ps nis)) empty_pod = 0"
  "getNUMAPolicy empty_pod = NUMAPolicyNone"
  "getVRAMRequest (ce_parse (ex_cycle_env ps nis)) (ce_claims (ex_cycle_env ps nis)) (ex_gpu_pod 2) = 0"
  "getNUMAPolicy (ex_gpu_pod 2) = NUMAPolicyNone"
proof -
  have "getVRAMRequest ex_bytes None empty_pod = 0" "getVRAMRequest ex_bytes None (ex_gpu_pod 2) = 0" by code_simp+
  then show "getVRAMRequest (ce_parse (ex_cycle_env ps nis)) (ce_claims (ex_cycle_env ps nis)) empty_pod = 0"
    "getVRAMRequest (ce_parse (ex_cycle_env ps nis)) (ce_claims (ex_cycle_env ps nis)) (ex_gpu_pod 2) = 0"
    by (simp_all add: ex_cycle_env_def)
  show "getNUMAPolicy empty_pod = NUMAPolicyNone" "getNUMAPolicy (ex_gpu_pod 2) = NUMAPolicyNone" by code_simp+
qed

text \<open>A node without GPUs and without pods.\<close>

theorem deployed_total_range_witness:
  "\<exists>t gangs'. run_scores_on (ex_cycle_env [] []) (None :: reservation_data cycle_state option) empty_pod ex_cpu_node (\<lambda>_. 1)
     (enabled_at ''score'' deployed_config) [] = Some (Inr t, gangs') \<and> 0 \<le> t \<and> t \<le> 800"
proof -
  let ?env = "ex_cycle_env [] []" and ?state = "None :: reservation_data cycle_state option"
  have n: "ni_node ex_cpu_node \<noteq> None" by (simp add: ex_cpu_node_def)
  obtain r where r: "run_scores_on ?env ?state empty_pod ex_cpu_node (\<lambda>_. 1) (enabled_at ''score'' deployed_config) [] = Some (r, [])"
    using light_run_returns [OF n ex_plain_requests(1) ex_plain_requests(2)] by metis
  have s: "scorable ?env ?state empty_pod ex_cpu_node"
    by (simp add: scorable_def admissible_node_def topology_admissible_def backfill_admissible_def admissible_target_def
        ex_cpu_node_def ex_cycle_env_def cache_lister_def gpu_value_def gpu_resource_def res_cpu_def res_memory_def amount_def
        zero_quantity_def i64_def)
  have "fst (frag_Score (Some (cache_lister [])) ?state empty_pod ex_cpu_node) = 0" by code_simp
  then have f: "fst (frag_Score (Some (ce_pods ?env)) ?state empty_pod ex_cpu_node) \<in> {0..100}"
    by (simp add: ex_cycle_env_def)
  show ?thesis
    using deployed_total_range [OF s _ r] f r by (auto simp: deployed_scores)
qed

section \<open>A node that spoils the cycle\<close>

lemma run_scores_on_spoilt:
  "name \<in> set names \<Longrightarrow>
   \<forall>gangs score r gangs'. score_of env state p ni gangs name = Some ((score, r), gangs') \<longrightarrow> score < 0 \<or> score > MaxNodeScore \<Longrightarrow>
   run_scores_on env state p ni weight names gangs \<noteq> Some (Inr t, gangs')"
proof (induction names arbitrary: gangs t)
  case (Cons x names)
  show ?case
  proof (cases "x = name")
    case True
    then show ?thesis using Cons.prems(2) by (fastforce split: option.splits sum.splits prod.splits)
  next
    case False
    then have "run_scores_on env state p ni weight names gangs1 \<noteq> Some (Inr u, gangs')" for gangs1 u
      using Cons by simp
    then show ?thesis by (auto split: option.splits sum.splits prod.splits)
  qed
qed simp

lemma node_totals_spoilt:
  "ni \<in> set nis \<Longrightarrow> (\<And>gangs t gangs'. run_scores_on env state p ni weight names gangs \<noteq> Some (Inr t, gangs')) \<Longrightarrow>
   node_totals env state p weight names nis gangs \<noteq> Some (Inr totals, gangs')"
proof (induction nis arbitrary: gangs totals)
  case (Cons x nis)
  show ?case
  proof (cases "x = ni")
    case True
    then show ?thesis using Cons.prems(2) by (auto split: option.splits sum.splits prod.splits)
  next
    case False
    then have "node_totals env state p weight names nis gangs1 \<noteq> Some (Inr ts, gangs')" for gangs1 ts
      using Cons by simp
    then show ?thesis by (auto split: option.splits sum.splits prod.splits)
  qed
qed simp

text \<open>C5: One node can stop the placement of every pod.  When at least two nodes pass the filters and one of them has no
  GPUs and pods assigned to it, finished ones included, that request twice its CPU, the cycle of the deployment
  chooses no node, neither that one nor any of the others, whatever the weights and the other plugins.\<close>

theorem full_node_blocks_cycle:
  assumes "feasible_nodes env state p (enabled_at ''filter'' deployed_config) nis = Some (Inr fs)" "2 \<le> length fs"
    and "ni \<in> set fs" "ni_node ni = Some n" "detectGPUIsland (Some (ce_pods env)) ni = None"
    and "pl_list (ce_pods env) = Inr pods" "\<forall>q \<in> set pods. cpu_nonneg q"
    and "0 < q_milli (res_cpu (n_allocatable n))" "2 * q_milli (res_cpu (n_allocatable n)) \<le> millis_on (n_name n) pods"
    and "millis_on (n_name n) pods \<le> 2 ^ 46"
  shows "schedule_pod env state deployed_config weight p nis gangs \<noteq> Some (Inr best, gangs')"
proof -
  have "200 \<le> fst (frag_Score (Some (ce_pods env)) state p ni)"
    using frag_Score_above_maximum [OF assms(4-6,8,7,9,10)] by blast
  then have "run_scores_on env state p ni weight (enabled_at ''score'' deployed_config) gangs1 \<noteq> Some (Inr t, gangs2)"
    for gangs1 t gangs2
    by (intro run_scores_on_spoilt [of "''ResourceFragmentationScore''"])
      (auto simp: deployed_scores score_of_names MaxNodeScore_def)
  from node_totals_spoilt [OF assms(3) this] show ?thesis
    using assms(1,2) by (auto simp: schedule_pod_def split: option.splits sum.splits)
qed

text \<open>A finished pod on a CPU node stops the cycle of any pod that fits there and on a GPU node.\<close>

theorem full_node_blocks_cycle_witness:
  "\<exists>bad. schedule_pod (ex_cycle_env [ex_finished] []) (None :: reservation_data cycle_state option) deployed_config (\<lambda>_. 1) empty_pod
     [ex_cpu_node, ex_info ''a1'' ''A''] [] = Some (Inl bad, [])"
proof -
  let ?env = "ex_cycle_env [ex_finished] []" and ?state = "None :: reservation_data cycle_state option"
  let ?nis = "[ex_cpu_node, ex_info ''a1'' ''A'']"
  obtain n where n: "ni_node ex_cpu_node = Some n" by (simp add: ex_cpu_node_def)
  then have nn: "n = the (ni_node ex_cpu_node)" by simp
  note light = ex_plain_requests(1) [of "[ex_finished]" "[]"] ex_plain_requests(2)
  have nf: "nf_Filter l nodes slices empty_pod ni = success" if "ni_node ni \<noteq> None" for l nodes slices ni
    using that by (auto simp: nf_Filter_def empty_pod_def lookup_str_def)
  have ni: "ni_node ex_cpu_node \<noteq> None" "ni_node (ex_info ''a1'' ''A'') \<noteq> None" by (simp_all add: n ex_info_def)
  have fs: "feasible_nodes ?env ?state empty_pod (enabled_at ''filter'' deployed_config) ?nis = Some (Inr ?nis)"
    using run_filters_clique [OF ni(1) light, of ?state] run_filters_clique [OF ni(2) light, of ?state] nf ni by simp
  obtain r where r: "node_totals ?env ?state empty_pod (\<lambda>_. 1) (enabled_at ''score'' deployed_config) ?nis [] = Some (r, [])"
    using light_totals_return [OF _ light, of ?nis ?state "\<lambda>_. 1"] ni by auto
  have d: "detectGPUIsland (Some (cache_lister [ex_finished])) ex_cpu_node = None" "q_milli (res_cpu (n_allocatable n)) = 1000"
    "millis_on (n_name n) [ex_finished] = 2000"
    unfolding nn by code_simp+
  have c: "ce_pods ?env = cache_lister [ex_finished]" by (simp add: ex_cycle_env_def)
  have nonneg: "\<forall>q \<in> set [ex_finished]. cpu_nonneg q" by code_simp
  have "schedule_pod ?env ?state deployed_config (\<lambda>_. 1) empty_pod ?nis [] \<noteq> Some (Inr best, gangs')" for best gangs'
    using full_node_blocks_cycle [OF fs _ _ n, of "[ex_finished]"] d nonneg by (simp add: c cache_lister_def)
  then show ?thesis
    using fs r by (cases r) (auto simp: schedule_pod_def)
qed

text \<open>The deployment scores with the fragmentation plugin but does not filter with it, so the reservation of a node
  for a tier keeps nobody out: a pod the filter of the plugin refuses on every node left to it is placed, while with that
  filter at the end of the list the same cycle finds no node.\<close>

theorem reserved_node_not_kept:
  assumes "run_filters env state p ni (enabled_at ''filter'' deployed_config) = Some r" "st_code r = Success"
    and "st_code (frag_Filter (Some (ce_pods env)) state p ni) \<notin> {Success, Error}"
  shows "schedule_pod env state deployed_config weight p [ni] gangs = Some (Inr [ni], gangs) \<and>
    schedule_pod env state ((''filter'', enabled_at ''filter'' deployed_config @ [''ResourceFragmentationScore'']) # deployed_config)
      weight p [ni] gangs = Some (Inr [], gangs)"
proof -
  have more: "run_filters env state p ni (names @ [''ResourceFragmentationScore'']) =
      Some (frag_Filter (Some (ce_pods env)) state p ni)"
    if "run_filters env state p ni names = Some r" for names
    using that assms(2,3)
  proof (induction names)
    case Nil
    then show ?case by (simp add: filter_of_def)
  next
    case (Cons name names)
    then show ?case by (auto split: option.splits if_splits)
  qed
  show ?thesis
    using assms more [OF assms(1)] by (simp add: schedule_pod_def enabled_at_def)
qed

text \<open>A pod without a tier on a node reserved for gold.\<close>

theorem reserved_node_not_kept_witness:
  "schedule_pod (ex_cycle_env [] []) (None :: reservation_data cycle_state option) deployed_config (\<lambda>_. 1) (ex_gpu_pod 2)
     [Fragmentation.ex_gpu_node ''gold''] [] = Some (Inr [Fragmentation.ex_gpu_node ''gold''], [])"
proof -
  let ?env = "ex_cycle_env [] []" and ?state = "None :: reservation_data cycle_state option"
  let ?ni = "Fragmentation.ex_gpu_node ''gold''"
  have n: "ni_node ?ni \<noteq> None" by (simp add: Fragmentation.ex_gpu_node_def)
  note light = ex_plain_requests(3) [of "[]" "[]"] ex_plain_requests(4)
  have "nf_Filter l nodes slices (ex_gpu_pod 2) ?ni = success" for l nodes slices
    using n by (auto simp: nf_Filter_def ex_gpu_pod_def empty_pod_def lookup_str_def)
  then have f: "run_filters ?env ?state (ex_gpu_pod 2) ?ni (enabled_at ''filter'' deployed_config) = Some success"
    using run_filters_clique [OF n light, of ?state] by simp
  have "st_code (frag_Filter (Some (cache_lister [])) ?state (ex_gpu_pod 2) ?ni) = Unschedulable" by code_simp
  then show ?thesis
    using reserved_node_not_kept [OF f] by (simp add: ex_cycle_env_def)
qed

text \<open>The memory of the GPUs is never used up.  Pods without a gang and without a NUMA policy that each ask for no more memory
  than their GPUs have on a node are all bound to it, one after another, whatever they ask for together: the filter
  compares the request with what the node has, not with what the pods on it leave.\<close>

theorem vram_never_used_up:
  assumes "ni_node (ni :: node_info) = Some n" "ce_nodes env (n_name n) = Inr n" "n_name n \<noteq> ''''"
    and "getNodeGPUTopology (ce_parse env) (ce_slices env) n = Some (v, ds)" "ds \<noteq> []" "\<forall>g \<in> set ds. 0 < gd_vram g"
    and "\<forall>q \<in> set qs. p_node q = '''' \<and> lookup_str (p_annots q) AnnotationPodGroup = '''' \<and> getNUMAPolicy q = NUMAPolicyNone \<and>
      getVRAMRequest (ce_parse env) (ce_claims env) q \<noteq> 0 \<and> i64 (Min (gd_vram ` set ds) * gpus_for q) \<and>
      getVRAMRequest (ce_parse env) (ce_claims env) q \<le> gpus_for q * Min (gd_vram ` set ds)"
  shows "deployed_run careful env weight (map (\<lambda>q. q\<lparr>p_node := n_name n\<rparr>) qs) []"
  using assms(7)
proof (induction qs)
  case (Cons q qs)
  let ?ps = "map (\<lambda>q. q\<lparr>p_node := n_name n\<rparr>) qs"
  let ?env = "env\<lparr>ce_pods := cache_lister ?ps\<rparr>"
  have q: "p_node q = ''''" "lookup_str (p_annots q) AnnotationPodGroup = ''''" "getNUMAPolicy q = NUMAPolicyNone"
    "getVRAMRequest (ce_parse env) (ce_claims env) q \<noteq> 0" "i64 (Min (gd_vram ` set ds) * gpus_for q)"
    "getVRAMRequest (ce_parse env) (ce_claims env) q \<le> gpus_for q * Min (gd_vram ` set ds)"
    using Cons.prems by simp_all
  have "Min (gd_vram ` set ds) \<in> gd_vram ` set ds"
    using assms(5) by (intro Min_in) auto
  then have pos: "Min (gd_vram ` set ds) \<noteq> 0"
    using assms(6) by fastforce
  have "nf_Filter (ce_pods ?env) (ce_nodes ?env) (ce_slices ?env) q ni = success" "numa_Filter q ni = Some success"
    using q(2,3) assms(1) by (simp_all add: nf_Filter_def numa_Filter_def)
  moreover obtain r where "vram_Filter (ce_parse ?env) (ce_slices ?env) (ce_claims ?env) q ni = Some r" "st_code r = Success"
    using vram_Filter_code [OF assms(1) refl q(4) node_vram_min [OF assms(4,5)] q(5)] pos q(6) by (auto simp: mult.commute)
  ultimately have "schedule_pod ?env (None :: reservation_data cycle_state option) deployed_config weight q [ni] [] = Some (Inr [ni], [])"
    by (simp add: schedule_pod_def deployed_filters filter_of_names)
  from run_choose [OF _ _ this _ assms(1,2)] have "deployed_run careful env weight ?ps [(q, n_name n)]"
    using Cons q(2) by (simp add: one_at_a_time_def)
  from run_bind [OF this, of q "n_name n"] have "deployed_run careful env weight (q\<lparr>p_node := n_name n\<rparr> # remove1 q ?ps) []"
    by simp
  moreover have "q \<notin> set ?ps"
    using q(1) assms(3) by auto
  ultimately show ?case
    by (simp add: remove1_idem)
qed (simp add: run_start)

text \<open>Three pods of 80 on two GPUs with 40 each.\<close>

theorem vram_never_used_up_witness:
  "\<exists>env. deployed_run True env (\<lambda>_. 1) (map (\<lambda>q. q\<lparr>p_node := ''n''\<rparr>) [ex_vram_pod ''80'' 2, ex_vram_pod ''80'' 2, ex_vram_pod ''80'' 2]) []"
proof -
  let ?n = "VramDevices.ex_gpu_node []"
  let ?env = "(ex_cycle_env [] [])\<lparr>ce_nodes := \<lambda>_. Inr ?n, ce_slices := ex_slices\<rparr>"
  have r: "getVRAMRequest ex_bytes None (ex_vram_pod ''80'' 2) = 80" "gpus_for (ex_vram_pod ''80'' 2) = 2"
    "p_node (ex_vram_pod ''80'' 2) = ''''" "lookup_str (p_annots (ex_vram_pod ''80'' 2)) AnnotationPodGroup = ''''"
    "getNUMAPolicy (ex_vram_pod ''80'' 2) = NUMAPolicyNone" "n_name ?n = ''n''"
    by code_simp+
  have e: "ce_nodes ?env (n_name ?n) = Inr ?n" "ce_slices ?env = ex_slices" "ce_parse ?env = ex_bytes" "ce_claims ?env = None"
    by (simp_all add: ex_cycle_env_def)
  have t: "getNodeGPUTopology (ce_parse ?env) (ce_slices ?env) ?n = Some (40, [ex_dra_gpu ''gpu-0'' 80, ex_dra_gpu ''gpu-1'' 40])"
    unfolding e by (rule ex_dra_topology)
  have "deployed_run True ?env (\<lambda>_. 1) (map (\<lambda>q. q\<lparr>p_node := n_name ?n\<rparr>)
      [ex_vram_pod ''80'' 2, ex_vram_pod ''80'' 2, ex_vram_pod ''80'' 2]) []"
    by (rule vram_never_used_up [OF ex_vram_info_node e(1) _ t]) (simp_all add: e r ex_dra_gpu_def i64_def)
  then show ?thesis unfolding r(6) by blast
qed

end
