(* ===== verification/Startup.thy ===== *)
theory Startup
  imports Pipeline Preemption ReservationRuns ReservationClient
begin

text \<open>
  How the plugins come to be: the constructors that \<^verbatim>\<open>main.go\<close> registers, the start of the plugins a
  configuration enables, and the goroutines that two of them start.

  A handle may have no informer factory; calling a method of the nil interface panics, which is \<^verbatim>\<open>None\<close>.
  The framework is documented to call the constructor of every plugin that is enabled somewhere, in no particular
  order, and to give up at the first error.
\<close>

section \<open>The constructors\<close>

record informers =
  in_pods :: pod_lister
  in_nodes :: node_lister
  in_slices :: "string + resource_slice list"
  in_claims :: claim_listers

record handle =
  h_informers :: "informers option"
  h_namespaces :: ns_client
  h_kubeconfig :: "rest_config option"

text \<open>The plugins with the fields their constructors set; \<^verbatim>\<open>'c\<close> is a REST client.\<close>

datatype 'c plugin =
  ProfileClassifierP ns_client
| CoschedulingP pod_lister pg_state "int gomap"
| ResourceReservationP pod_lister 'c "string list"
| WorkloadAwareP
| TopologySpreadP
| BackfillP pod_lister
| FragmentationP pod_lister
| TenantHardwareP
| VRAMSchedulerP bool slices "claim_listers option"
| NetworkFabricP pod_lister node_lister slice_lister
| NUMATopologyP gang_states
| GangPreemptionP pod_lister attempts

definition profileclassifier_New :: "handle \<Rightarrow> (string + 'c plugin) option" where
  "profileclassifier_New h = Some (Inr (ProfileClassifierP (h_namespaces h)))"

definition coscheduling_New :: "handle \<Rightarrow> (string + 'c plugin) option" where
  "coscheduling_New h =
     (case h_informers h of
        None \<Rightarrow> None
      | Some f \<Rightarrow> Some (Inr (CoschedulingP (in_pods f) empty_pg_state [])))"

definition resourcereservation_New :: "handle \<Rightarrow> 'c startup_env \<Rightarrow> (string + 'c plugin) option" where
  "resourcereservation_New h env =
     (case h_informers h of
        None \<Rightarrow> None
      | Some f \<Rightarrow>
         (case rr_New env of
            Inl err \<Rightarrow> Some (Inl err)
          | Inr client \<Rightarrow> Some (Inr (ResourceReservationP (in_pods f) client []))))"

definition workloadaware_New :: "handle \<Rightarrow> (string + 'c plugin) option" where
  "workloadaware_New h = Some (Inr WorkloadAwareP)"

definition NewTopologySpreadScore :: "handle \<Rightarrow> (string + 'c plugin) option" where
  "NewTopologySpreadScore h = Some (Inr TopologySpreadP)"

definition backfill_New :: "handle \<Rightarrow> (string + 'c plugin) option" where
  "backfill_New h =
     (case h_informers h of None \<Rightarrow> None | Some f \<Rightarrow> Some (Inr (BackfillP (in_pods f))))"

definition resourcefragmentation_New :: "handle \<Rightarrow> (string + 'c plugin) option" where
  "resourcefragmentation_New h =
     (case h_informers h of None \<Rightarrow> None | Some f \<Rightarrow> Some (Inr (FragmentationP (in_pods f))))"

definition tenanthardware_New :: "handle \<Rightarrow> (string + 'c plugin) option" where
  "tenanthardware_New h = Some (Inr TenantHardwareP)"

text \<open>\<^verbatim>\<open>kubernetes.NewForConfig\<close> is the parameter: it makes a client set or fails, which the plugin survives.\<close>

definition vramscheduler_New :: "(rest_config \<Rightarrow> string + unit) \<Rightarrow> handle \<Rightarrow> (string + 'c plugin) option" where
  "vramscheduler_New new_for_config h =
     (let clientset = (case h_kubeconfig h of
                         None \<Rightarrow> False
                       | Some kubeConfig \<Rightarrow> (case new_for_config kubeConfig of Inl err \<Rightarrow> False | Inr c \<Rightarrow> True));
          (resourceSliceLister, claimListers) =
            (case h_informers h of
               None \<Rightarrow> (None, None)
             | Some f \<Rightarrow> (Some (in_slices f), Some (in_claims f)))
      in Some (Inr (VRAMSchedulerP clientset resourceSliceLister claimListers)))"

text \<open>The factory is used before it is tested.\<close>

definition networkfabric_New :: "handle \<Rightarrow> (string + 'c plugin) option" where
  "networkfabric_New h =
     (case h_informers h of
        None \<Rightarrow> None
      | Some f \<Rightarrow>
         (let resourceSliceLister = (case h_informers h of None \<Rightarrow> None | Some g \<Rightarrow> Some (in_slices g))
          in Some (Inr (NetworkFabricP (in_pods f) (in_nodes f) resourceSliceLister))))"

definition numatopology_New :: "handle \<Rightarrow> (string + 'c plugin) option" where
  "numatopology_New h = Some (Inr (NUMATopologyP []))"

definition preemption_New :: "handle \<Rightarrow> (string + 'c plugin) option" where
  "preemption_New h =
     (case h_informers h of None \<Rightarrow> None | Some f \<Rightarrow> Some (Inr (GangPreemptionP (in_pods f) [])))"

lemmas New_defs = profileclassifier_New_def coscheduling_New_def resourcereservation_New_def workloadaware_New_def
  NewTopologySpreadScore_def backfill_New_def resourcefragmentation_New_def tenanthardware_New_def
  vramscheduler_New_def networkfabric_New_def numatopology_New_def preemption_New_def

section \<open>The start\<close>

text \<open>The constructor registered under a name.\<close>

definition constructors ::
  "handle \<Rightarrow> 'c startup_env \<Rightarrow> (rest_config \<Rightarrow> string + unit) \<Rightarrow> (string \<times> (string + 'c plugin) option) list" where
  "constructors h env new_for_config =
     [(''ProfileClassifier'', profileclassifier_New h),
      (''Coscheduling'', coscheduling_New h),
      (''ResourceReservation'', resourcereservation_New h env),
      (''WorkloadAwareScoring'', workloadaware_New h),
      (''TopologyScoring'', NewTopologySpreadScore h),
      (''BackfillScoring'', backfill_New h),
      (''ResourceFragmentationScore'', resourcefragmentation_New h),
      (''TenantHardwareAffinityScore'', tenanthardware_New h),
      (''VRAMScheduler'', vramscheduler_New new_for_config h),
      (''NetworkFabricScore'', networkfabric_New h),
      (''NUMATopology'', numatopology_New h),
      (''GangPreemption'', preemption_New h)]"

definition new_plugin ::
  "handle \<Rightarrow> 'c startup_env \<Rightarrow> (rest_config \<Rightarrow> string + unit) \<Rightarrow> string \<Rightarrow> (string + 'c plugin) option" where
  "new_plugin h env new_for_config name =
     (case lookup (constructors h env new_for_config) name of
        None \<Rightarrow> Some (Inl (''plugin '' @ name @ '' does not exist''))
      | Some result \<Rightarrow> result)"

fun start_plugins ::
  "handle \<Rightarrow> 'c startup_env \<Rightarrow> (rest_config \<Rightarrow> string + unit) \<Rightarrow> string list \<Rightarrow> (string + 'c plugin list) option" where
  "start_plugins h env new_for_config [] = Some (Inr [])"
| "start_plugins h env new_for_config (name # names) =
     (case new_plugin h env new_for_config name of
        None \<Rightarrow> None
      | Some (Inl err) \<Rightarrow> Some (Inl err)
      | Some (Inr pl) \<Rightarrow>
         (case start_plugins h env new_for_config names of
            None \<Rightarrow> None
          | Some (Inl err) \<Rightarrow> Some (Inl err)
          | Some (Inr pls) \<Rightarrow> Some (Inr (pl # pls))))"

definition enabled_names :: "plugin_config \<Rightarrow> string list" where
  "enabled_names cfg = remdups (concat (map snd cfg))"

section \<open>The cleanup goroutines\<close>

text \<open>What wakes a goroutine up.  The result says whether the loop has returned.\<close>

datatype 'a wakeup = Ticked 'a | Stopped

primrec cleanupStaleEntries :: "time wakeup list \<Rightarrow> pg_state \<Rightarrow> pg_state \<times> bool" where
  "cleanupStaleEntries [] st = (st, False)"
| "cleanupStaleEntries (e # es) st =
     (case e of
        Stopped \<Rightarrow> (st, True)
      | Ticked now \<Rightarrow> cleanupStaleEntries es (cleanup_tick now st))"

text \<open>The reservations' goroutine reads the listers and the clock anew at every tick.\<close>

primrec cleanupStaleReservations ::
  "'w reservation_api \<Rightarrow> (pod_lister \<times> (string \<Rightarrow> time)) wakeup list \<Rightarrow> 'w rr_state \<Rightarrow> 'w rr_state \<times> bool" where
  "cleanupStaleReservations api [] st = (st, False)"
| "cleanupStaleReservations api (e # es) st =
     (case e of
        Stopped \<Rightarrow> (st, True)
      | Ticked now \<Rightarrow> cleanupStaleReservations api es (cleanupExpiredReservations api (fst now) (snd now) st))"

section \<open>Lemmas\<close>

lemma cleanupStaleEntries_reachable: "cache_reachable st \<Longrightarrow> cache_reachable (fst (cleanupStaleEntries es st))"
  by (induction es arbitrary: st) (auto intro: reach_step step_tick split: wakeup.split)

lemma cleanupStaleEntries_returns: "snd (cleanupStaleEntries es st) \<longleftrightarrow> Stopped \<in> set es"
  by (induction es arbitrary: st) (auto split: wakeup.split)

lemma cleanupStaleReservations_runs:
  "(rr_step api objs P)\<^sup>*\<^sup>* st (fst (cleanupStaleReservations api es st)) \<and>
   (snd (cleanupStaleReservations api es st) \<longleftrightarrow> Stopped \<in> set es)"
proof (induction es arbitrary: st)
  case (Cons e es)
  show ?case
  proof (cases e)
    case (Ticked now)
    have "rr_step api objs P st (cleanupExpiredReservations api (fst now) (snd now) st)"
      by (rule rr_step.cleanup)
    then show ?thesis
      using Cons [of "cleanupExpiredReservations api (fst now) (snd now) st"] Ticked
      by (auto intro: converse_rtranclp_into_rtranclp)
  qed simp
qed simp

text \<open>A plugin as it is when it has just been started from an informer factory.\<close>

fun fresh_plugin :: "informers \<Rightarrow> 'c plugin \<Rightarrow> bool" where
  "fresh_plugin f (CoschedulingP lister st attempts) \<longleftrightarrow>
     lister = in_pods f \<and> cache_reachable st \<and> attempts = []"
| "fresh_plugin f (ResourceReservationP lister client created) \<longleftrightarrow> lister = in_pods f \<and> created = []"
| "fresh_plugin f (BackfillP lister) \<longleftrightarrow> lister = in_pods f"
| "fresh_plugin f (FragmentationP lister) \<longleftrightarrow> lister = in_pods f"
| "fresh_plugin f (VRAMSchedulerP clientset slices claims) \<longleftrightarrow> slices = Some (in_slices f) \<and> claims = Some (in_claims f)"
| "fresh_plugin f (NetworkFabricP lister nodes slices) \<longleftrightarrow>
     lister = in_pods f \<and> nodes = in_nodes f \<and> slices = Some (in_slices f)"
| "fresh_plugin f (NUMATopologyP gangs) \<longleftrightarrow> gangs_wf gangs"
| "fresh_plugin f (GangPreemptionP lister attempts) \<longleftrightarrow> lister = in_pods f \<and> attempts = []"
| "fresh_plugin f _ \<longleftrightarrow> True"

lemma new_plugin_names:
  "new_plugin h env nfc ''ProfileClassifier'' = profileclassifier_New h"
  "new_plugin h env nfc ''Coscheduling'' = coscheduling_New h"
  "new_plugin h env nfc ''ResourceReservation'' = resourcereservation_New h env"
  "new_plugin h env nfc ''WorkloadAwareScoring'' = workloadaware_New h"
  "new_plugin h env nfc ''TopologyScoring'' = NewTopologySpreadScore h"
  "new_plugin h env nfc ''BackfillScoring'' = backfill_New h"
  "new_plugin h env nfc ''ResourceFragmentationScore'' = resourcefragmentation_New h"
  "new_plugin h env nfc ''TenantHardwareAffinityScore'' = tenanthardware_New h"
  "new_plugin h env nfc ''VRAMScheduler'' = vramscheduler_New nfc h"
  "new_plugin h env nfc ''NetworkFabricScore'' = networkfabric_New h"
  "new_plugin h env nfc ''NUMATopology'' = numatopology_New h"
  "new_plugin h env nfc ''GangPreemption'' = preemption_New h"
  by (simp_all add: new_plugin_def constructors_def)

lemma registered_names: "map rg_name registry =
  [''ProfileClassifier'', ''Coscheduling'', ''ResourceReservation'', ''WorkloadAwareScoring'', ''TopologyScoring'',
   ''BackfillScoring'', ''ResourceFragmentationScore'', ''TenantHardwareAffinityScore'', ''VRAMScheduler'',
   ''NetworkFabricScore'', ''NUMATopology'', ''GangPreemption'']"
  by (simp add: registry_def plugin_defs)

text \<open>What holds of the plugin of every name holds of all that are registered.\<close>

lemma registered_cases:
  assumes "name \<in> set (map rg_name registry)"
  obtains "name = ''ProfileClassifier''" | "name = ''Coscheduling''" | "name = ''ResourceReservation''"
    | "name = ''WorkloadAwareScoring''" | "name = ''TopologyScoring''" | "name = ''BackfillScoring''"
    | "name = ''ResourceFragmentationScore''" | "name = ''TenantHardwareAffinityScore''" | "name = ''VRAMScheduler''"
    | "name = ''NetworkFabricScore''" | "name = ''NUMATopology''" | "name = ''GangPreemption''"
  using assms unfolding registered_names list.set insert_iff empty_iff by (elim disjE) (erule that FalseE)+

lemma new_plugin_fresh:
  assumes f: "h_informers h = Some f" and name: "name \<in> set (map rg_name registry)"
    and client: "name = ''ResourceReservation'' \<Longrightarrow> \<exists>client. rr_New env = Inr client"
  shows "\<exists>pl. new_plugin h env nfc name = Some (Inr pl) \<and> fresh_plugin f pl"
proof -
  have gangs: "gangs_wf []" by (simp add: gangs_wf_def)
  from name show ?thesis
  proof (cases rule: registered_cases)
    case 3
    with client obtain c where "rr_New env = Inr c" by blast
    then show ?thesis unfolding 3 new_plugin_names by (simp add: New_defs f)
  qed (simp_all only: new_plugin_names, simp_all add: New_defs f gangs reach_init)
qed

lemma new_plugin_reservation:
  "h_informers h = Some f \<Longrightarrow> rr_New env = Inl err \<Longrightarrow>
     new_plugin h env new_for_config ''ResourceReservation'' = Some (Inl err)"
  by (simp only: new_plugin_names) (simp add: resourcereservation_New_def)

lemma start_plugins_fresh:
  assumes "h_informers h = Some f"
  shows "set names \<subseteq> set (map rg_name registry) \<Longrightarrow>
    (''ResourceReservation'' \<in> set names \<Longrightarrow> \<exists>client. rr_New env = Inr client) \<Longrightarrow>
    \<exists>pls. start_plugins h env new_for_config names = Some (Inr pls) \<and> list_all2 (\<lambda>nm pl.
      new_plugin h env new_for_config nm = Some (Inr pl) \<and> fresh_plugin f pl) names pls"
proof (induction names)
  case (Cons name names)
  obtain pl where pl: "new_plugin h env new_for_config name = Some (Inr pl)" "fresh_plugin f pl"
    using new_plugin_fresh [OF assms, of name env new_for_config] Cons.prems by auto
  obtain pls where "start_plugins h env new_for_config names = Some (Inr pls)"
    "list_all2 (\<lambda>nm pl. new_plugin h env new_for_config nm = Some (Inr pl) \<and> fresh_plugin f pl) names pls"
    using Cons by auto
  with pl show ?case by auto
qed simp

lemma start_plugins_no_client:
  assumes "h_informers h = Some f" "rr_New env = Inl err"
  shows "set names \<subseteq> set (map rg_name registry) \<Longrightarrow> ''ResourceReservation'' \<in> set names \<Longrightarrow>
    start_plugins h env new_for_config names = Some (Inl err)"
proof (induction names)
  case (Cons name names)
  show ?case
  proof (cases "name = ''ResourceReservation''")
    case True
    then show ?thesis by (simp add: new_plugin_reservation [OF assms])
  next
    case False
    then obtain pl where "new_plugin h env new_for_config name = Some (Inr pl)"
      using new_plugin_fresh [OF assms(1), of name env new_for_config] Cons.prems by auto
    moreover have "''ResourceReservation'' \<in> set names" using False Cons.prems by simp
    ultimately show ?thesis using Cons by simp
  qed
qed simp

section \<open>Properties\<close>

text \<open>C22: The start of the scheduler is all or nothing, and only the reservations can prevent it.  With the informers of
  the framework, whichever plugins of the registry a configuration enables and in whatever order they are constructed,
  either the reservation plugin is among them and its client cannot be set up, which ends the start with that error, or
  every plugin is made, reads the shared informers and begins in a state that the invariants of its component
  hold of; a client set for the VRAM plugin that cannot be made stops nothing.\<close>

theorem start_all_or_nothing:
  assumes "h_informers h = Some f" "set names \<subseteq> set (map rg_name registry)"
  shows "(\<exists>err. ''ResourceReservation'' \<in> set names \<and> rr_New env = Inl err \<and>
      start_plugins h env new_for_config names = Some (Inl err)) \<or>
    ((''ResourceReservation'' \<in> set names \<longrightarrow> (\<exists>client. rr_New env = Inr client)) \<and>
     (\<exists>pls. start_plugins h env new_for_config names = Some (Inr pls) \<and> length pls = length names \<and>
       (\<forall>pl \<in> set pls. fresh_plugin f pl)))"
proof (cases "''ResourceReservation'' \<in> set names \<and> (\<exists>err. rr_New env = Inl err)")
  case True
  then show ?thesis using start_plugins_no_client [OF assms(1) _ assms(2)] by blast
next
  case False
  then have c: "\<exists>client. rr_New env = Inr client" if "''ResourceReservation'' \<in> set names"
    using that by (cases "rr_New env") auto
  from start_plugins_fresh [OF assms(1,2) this, of new_for_config] obtain pls where
    "start_plugins h env new_for_config names = Some (Inr pls)"
    "list_all2 (\<lambda>nm pl. new_plugin h env new_for_config nm = Some (Inr pl) \<and> fresh_plugin f pl) names pls"
    by blast
  then show ?thesis
    using c by (auto simp: list_all2_conv_all_nth in_set_conv_nth)
qed

text \<open>Outside a cluster: the deployment starts, the image's profile does not.\<close>

definition ex_handle :: handle where
  "ex_handle = \<lparr>h_informers = Some \<lparr>in_pods = cache_lister [], in_nodes = ex_fabric_nodes, in_slices = Inr [],
       in_claims = \<lparr>cll_claim = (\<lambda>_ _. Inl ''not found''), cll_template = (\<lambda>_ _. Inl ''not found'')\<rparr>\<rparr>,
     h_namespaces = ex_ns_client, h_kubeconfig = None\<rparr>"

definition ex_no_cluster :: "string startup_env" where
  "ex_no_cluster = ex_env\<lparr>se_in_cluster := Inl ''not in cluster''\<rparr>"

theorem start_all_or_nothing_witness:
  "(\<exists>pls. start_plugins ex_handle ex_no_cluster (\<lambda>_. Inl ''no client'') (enabled_names deployed_config) = Some (Inr pls) \<and>
      length pls = 11) \<and>
   start_plugins ex_handle ex_no_cluster (\<lambda>_. Inl ''no client'') (enabled_names (snd (image_config ! 1))) =
     Some (Inl ''not in cluster'')"
proof -
  obtain f where f: "h_informers ex_handle = Some f" by (simp add: ex_handle_def)
  have names: "set (enabled_names deployed_config) \<subseteq> set (map rg_name registry)"
    "set (enabled_names (snd (image_config ! 1))) \<subseteq> set (map rg_name registry)"
    "''ResourceReservation'' \<notin> set (enabled_names deployed_config)"
    "''ResourceReservation'' \<in> set (enabled_names (snd (image_config ! 1)))" "length (enabled_names deployed_config) = 11"
    by code_simp+
  have "rr_New ex_no_cluster = Inl ''not in cluster''" by code_simp
  then show ?thesis
    using start_all_or_nothing [OF f names(1), of ex_no_cluster "\<lambda>_. Inl ''no client''"]
      start_all_or_nothing [OF f names(2), of ex_no_cluster "\<lambda>_. Inl ''no client''"] names(3-5) by auto
qed

text \<open>Without informers exactly the plugins that list pods cannot be made: their constructors panic.  The test for nil in
  that of the network fabric plugin comes after the first use and changes nothing.\<close>

theorem nil_informers_panic:
  assumes "h_informers h = None" "name \<in> set (map rg_name registry)"
  shows "new_plugin h env new_for_config name = None \<longleftrightarrow>
    name \<in> {''Coscheduling'', ''ResourceReservation'', ''BackfillScoring'', ''ResourceFragmentationScore'', ''NetworkFabricScore'',
      ''GangPreemption''}"
  using assms(2)
  by (cases rule: registered_cases) (simp_all only: new_plugin_names, simp_all add: New_defs assms(1))

theorem nil_informers_panic_witness:
  "new_plugin (ex_handle\<lparr>h_informers := None\<rparr>) ex_env (\<lambda>_. Inr ()) ''NetworkFabricScore'' = None"
  using nil_informers_panic [of "ex_handle\<lparr>h_informers := None\<rparr>" "''NetworkFabricScore''" ex_env "\<lambda>_. Inr ()"]
  by (simp add: registry_def plugin_defs)

text \<open>The goroutines keep the invariants of the states they share with the plugins, whatever the ticks, and each returns
  exactly when its stop channel is closed; nothing in the repository closes either channel.\<close>

theorem cleanup_goroutines_keep:
  assumes "cache_reachable st"
  shows "pg_wf (fst (cleanupStaleEntries es st)) \<and> (snd (cleanupStaleEntries es st) \<longleftrightarrow> Stopped \<in> set es) \<and>
    (rr_step api objs P)\<^sup>*\<^sup>* rst (fst (cleanupStaleReservations api rs rst)) \<and>
    (snd (cleanupStaleReservations api rs rst) \<longleftrightarrow> Stopped \<in> set rs)"
proof -
  have "pg_wf st'" if "cache_reachable st'" for st'
    using that by induction (simp_all add: cache_step_wf)
  then show ?thesis
    using cleanupStaleEntries_reachable [OF assms] cleanupStaleEntries_returns cleanupStaleReservations_runs by blast
qed

theorem cleanup_goroutines_keep_witness:
  "podGroupCount (fst (cleanupStaleEntries [Ticked (seconds 300), Ticked (seconds 1200), Stopped] ex_cache)) = 0 \<and>
   pg_wf (fst (cleanupStaleEntries [Ticked (seconds 300), Ticked (seconds 1200), Stopped] ex_cache))"
proof -
  have "cache_reachable ex_cache"
    unfolding ex_cache_def by (intro reach_step [OF reach_init] step_less)
  then show ?thesis
    using cleanup_goroutines_keep [of ex_cache "[Ticked (seconds 300), Ticked (seconds 1200), Stopped]" mem_api mw_objs "\<lambda>_. True" ex_rr "[]"]
    by (simp add: ex_cache_eq cleanup_tick_def delete_entry_def staleEntryTTL_def seconds_def time_sub_def)
qed

end
