(* ===== verification/RestRequests.thy ===== *)
theory RestRequests
  imports ReservationClient
begin

text \<open>
  The requests the plugins send to the API server: those the reservation plugin builds
  (\<^verbatim>\<open>create\<close>, \<^verbatim>\<open>update\<close>, \<^verbatim>\<open>delete\<close> and the two reads of
  \<^verbatim>\<open>resourcereservation.go\<close>), the read of a namespace of the classifier, and the cluster role of the
  deployment (\<^verbatim>\<open>deploy/kubenexus-scheduler.yaml\<close>) that has to allow them.

  The transport below the REST client is a parameter: it takes a request and answers an error or a payload.  The
  client is documented to begin the path of each request with the API path of its configuration and the group and the
  version found there (\<^verbatim>\<open>/apis/GROUP/VERSION/namespaces/NS/RESOURCE/NAME\<close>).  What an API server is documented to do
  for a custom resource is a hypothesis on the transport, the locale \<^verbatim>\<open>crd_server\<close>.
\<close>

section \<open>Requests\<close>

datatype http_verb = PostVerb | PutVerb | DeleteVerb | GetVerb

record request =
  rq_verb :: http_verb
  rq_prefix :: string
  rq_group :: string
  rq_version :: string
  rq_ns :: string
  rq_resource :: string
  rq_name :: "string option"
  rq_body :: "resource_reservation option"

datatype payload = ObjectPayload resource_reservation | ListPayload "resource_reservation list" | StatusPayload

type_synonym 'w transport = "request \<Rightarrow> 'w \<Rightarrow> (string + payload) \<times> 'w"

definition group_of :: "rest_config \<Rightarrow> string" where
  "group_of config = (case rc_group_version config of None \<Rightarrow> '''' | Some (g, v) \<Rightarrow> g)"

definition version_of :: "rest_config \<Rightarrow> string" where
  "version_of config = (case rc_group_version config of None \<Rightarrow> '''' | Some (g, v) \<Rightarrow> v)"

text \<open>\<^verbatim>\<open>Into\<close> and \<^verbatim>\<open>Error\<close>.\<close>

definition into_object :: "string + payload \<Rightarrow> string + resource_reservation" where
  "into_object r = (case r of Inl err \<Rightarrow> Inl err | Inr (ObjectPayload x) \<Rightarrow> Inr x | Inr _ \<Rightarrow> Inl ''unable to decode'')"

definition into_list :: "string + payload \<Rightarrow> string + resource_reservation list" where
  "into_list r = (case r of Inl err \<Rightarrow> Inl err | Inr (ListPayload xs) \<Rightarrow> Inr xs | Inr _ \<Rightarrow> Inl ''unable to decode'')"

definition error_of :: "string + payload \<Rightarrow> string option" where
  "error_of r = (case r of Inl err \<Rightarrow> Some err | Inr _ \<Rightarrow> None)"

definition rr_create ::
  "rest_config \<Rightarrow> 'w transport \<Rightarrow> resource_reservation \<Rightarrow> 'w \<Rightarrow> (string + resource_reservation) \<times> 'w" where
  "rr_create config transport resourceReservation w =
     apfst into_object (transport
       \<lparr>rq_verb = PostVerb, rq_prefix = rc_api_path config, rq_group = group_of config,
        rq_version = version_of config, rq_ns = rv_ns resourceReservation, rq_resource = ''resourcereservations'',
        rq_name = None, rq_body = Some resourceReservation\<rparr> w)"

definition rr_get :: "rest_config \<Rightarrow> 'w transport \<Rightarrow> string \<Rightarrow> string \<Rightarrow> 'w \<Rightarrow> (string + resource_reservation) \<times> 'w" where
  "rr_get config transport namespace name w =
     apfst into_object (transport
       \<lparr>rq_verb = GetVerb, rq_prefix = rc_api_path config, rq_group = group_of config,
        rq_version = version_of config, rq_ns = namespace, rq_resource = ''resourcereservations'',
        rq_name = Some name, rq_body = None\<rparr> w)"

definition rr_list :: "rest_config \<Rightarrow> 'w transport \<Rightarrow> string \<Rightarrow> 'w \<Rightarrow> (string + resource_reservation list) \<times> 'w" where
  "rr_list config transport namespace w =
     apfst into_list (transport
       \<lparr>rq_verb = GetVerb, rq_prefix = rc_api_path config, rq_group = group_of config,
        rq_version = version_of config, rq_ns = namespace, rq_resource = ''resourcereservations'',
        rq_name = None, rq_body = None\<rparr> w)"

definition rr_update :: "rest_config \<Rightarrow> 'w transport \<Rightarrow> resource_reservation \<Rightarrow> 'w \<Rightarrow> string option \<times> 'w" where
  "rr_update config transport reservation w =
     apfst error_of (transport
       \<lparr>rq_verb = PutVerb, rq_prefix = rc_api_path config, rq_group = group_of config,
        rq_version = version_of config, rq_ns = rv_ns reservation, rq_resource = ''resourcereservations'',
        rq_name = Some (rv_name reservation), rq_body = Some reservation\<rparr> w)"

definition rr_delete :: "rest_config \<Rightarrow> 'w transport \<Rightarrow> string \<Rightarrow> string \<Rightarrow> 'w \<Rightarrow> string option \<times> 'w" where
  "rr_delete config transport namespace name w =
     apfst error_of (transport
       \<lparr>rq_verb = DeleteVerb, rq_prefix = rc_api_path config, rq_group = group_of config,
        rq_version = version_of config, rq_ns = namespace, rq_resource = ''resourcereservations'',
        rq_name = Some name, rq_body = None\<rparr> w)"

text \<open>The operations the plugin is modelled over, made of these requests.\<close>

definition rest_api :: "rest_config \<Rightarrow> 'w transport \<Rightarrow> 'w reservation_api" where
  "rest_api config transport =
     \<lparr>api_create = rr_create config transport, api_get = rr_get config transport, api_list = rr_list config transport,
      api_update = rr_update config transport, api_delete = rr_delete config transport\<rparr>"

section \<open>A server of a custom resource\<close>

text \<open>
  What the API server is documented to do for a resource with a served definition: it answers the requests for the
  group, the version and the plural of the definition below \<^verbatim>\<open>/apis\<close>, a collection when the path ends in the
  plural and an object when it ends in a name.  An object that is sent carries the namespace of the path, and its name
  when the path has one.  What a server does with any other path is left open.
\<close>

definition crd_request :: "crd \<Rightarrow> http_verb \<Rightarrow> string \<Rightarrow> string option \<Rightarrow> resource_reservation option \<Rightarrow> request" where
  "crd_request d verb ns name body =
     \<lparr>rq_verb = verb, rq_prefix = ''/apis'', rq_group = crd_group d, rq_version = crd_version d, rq_ns = ns,
      rq_resource = crd_plural d, rq_name = name, rq_body = body\<rparr>"

definition answer_object :: "string + resource_reservation \<Rightarrow> string + payload" where
  "answer_object = map_sum id ObjectPayload"

definition answer_list :: "string + resource_reservation list \<Rightarrow> string + payload" where
  "answer_list = map_sum id ListPayload"

definition answer_status :: "string option \<Rightarrow> string + payload" where
  "answer_status e = (case e of None \<Rightarrow> Inr StatusPayload | Some err \<Rightarrow> Inl err)"

locale crd_server =
  fixes d :: crd and api :: "'w reservation_api" and transport :: "'w transport"
  assumes create: "transport (crd_request d PostVerb (rv_ns x) None (Some x)) w = apfst answer_object (api_create api x w)"
    and get: "transport (crd_request d GetVerb ns (Some name) None) w = apfst answer_object (api_get api ns name w)"
    and listing: "transport (crd_request d GetVerb ns None None) w = apfst answer_list (api_list api ns w)"
    and update: "transport (crd_request d PutVerb (rv_ns x) (Some (rv_name x)) (Some x)) w = apfst answer_status (api_update api x w)"
    and delete: "transport (crd_request d DeleteVerb ns (Some name) None) w = apfst answer_status (api_delete api ns name w)"

lemma into_object_answer: "into_object (answer_object r) = r"
  by (cases r) (simp_all add: into_object_def answer_object_def)

lemma into_list_answer: "into_list (answer_list r) = r"
  by (cases r) (simp_all add: into_list_def answer_list_def)

lemma error_of_answer: "error_of (answer_status e) = e"
  by (cases e) (simp_all add: error_of_def answer_status_def)

lemma decoded:
  "apfst into_object (apfst answer_object x) = x"
  "apfst into_list (apfst answer_list y) = y"
  "apfst error_of (apfst answer_status z) = z"
  by (cases x, cases y, cases z, simp_all add: into_object_answer into_list_answer error_of_answer)+

context crd_server
begin

text \<open>A client whose configuration names the prefix, the group and the version of the definition sends the requests of
  the definition, so its operations are those of the server.\<close>

lemma rest_api_served:
  assumes "rc_api_path config = ''/apis''" "rc_group_version config = Some (crd_group d, crd_version d)"
    and "crd_plural d = ''resourcereservations''"
  shows "rest_api config transport = api"
proof -
  have g: "group_of config = crd_group d" "version_of config = crd_version d"
    by (simp_all add: group_of_def version_of_def assms(2))
  note q = crd_request_def assms(1,3) g
  have "rr_create config transport = api_create api"
    by (intro ext) (simp add: rr_create_def decoded create [unfolded q] q)
  moreover have "rr_get config transport = api_get api"
    by (intro ext) (simp add: rr_get_def decoded get [unfolded q] q)
  moreover have "rr_list config transport = api_list api"
    by (intro ext) (simp add: rr_list_def decoded listing [unfolded q] q)
  moreover have "rr_update config transport = api_update api"
    by (intro ext) (simp add: rr_update_def decoded update [unfolded q] q)
  moreover have "rr_delete config transport = api_delete api"
    by (intro ext) (simp add: rr_delete_def decoded delete [unfolded q] q)
  ultimately show ?thesis
    by (simp add: rest_api_def)
qed

end

text \<open>A transport of that kind, for the witnesses: it refuses every path the definition is not served at.\<close>

definition route :: "crd \<Rightarrow> 'w reservation_api \<Rightarrow> 'w transport" where
  "route d api rq w =
     (if rq_prefix rq \<noteq> ''/apis'' \<or> rq_group rq \<noteq> crd_group d \<or> rq_version rq \<noteq> crd_version d \<or>
         rq_resource rq \<noteq> crd_plural d then (Inl ''not found'', w)
      else (case (rq_verb rq, rq_name rq, rq_body rq) of
              (PostVerb, None, Some x) \<Rightarrow>
                if rq_ns rq = rv_ns x then apfst answer_object (api_create api x w) else (Inl ''bad request'', w)
            | (GetVerb, Some name, None) \<Rightarrow> apfst answer_object (api_get api (rq_ns rq) name w)
            | (GetVerb, None, None) \<Rightarrow> apfst answer_list (api_list api (rq_ns rq) w)
            | (PutVerb, Some name, Some x) \<Rightarrow>
                if name = rv_name x \<and> rq_ns rq = rv_ns x then apfst answer_status (api_update api x w)
                else (Inl ''bad request'', w)
            | (DeleteVerb, Some name, None) \<Rightarrow> apfst answer_status (api_delete api (rq_ns rq) name w)
            | _ \<Rightarrow> (Inl ''method not allowed'', w)))"

interpretation route_server: crd_server d api "route d api" for d api
  by unfold_locales (simp_all add: route_def crd_request_def)

section \<open>The cluster role\<close>

record policy_rule =
  pr_groups :: "string list"
  pr_resources :: "string list"
  pr_verbs :: "string list"

definition read_verbs :: "string list" where
  "read_verbs = [''get'', ''list'', ''watch'']"

definition deployed_role :: "policy_rule list" where
  "deployed_role =
     [\<lparr>pr_groups = [''''], pr_resources = [''pods''], pr_verbs = read_verbs @ [''update'', ''patch'']\<rparr>,
      \<lparr>pr_groups = [''''], pr_resources = [''pods/status''], pr_verbs = [''patch'', ''update'']\<rparr>,
      \<lparr>pr_groups = [''''], pr_resources = [''pods/binding''], pr_verbs = [''create'']\<rparr>,
      \<lparr>pr_groups = [''''], pr_resources = [''nodes''], pr_verbs = read_verbs\<rparr>,
      \<lparr>pr_groups = [''''], pr_resources = [''persistentvolumes'', ''persistentvolumeclaims''], pr_verbs = read_verbs\<rparr>,
      \<lparr>pr_groups = [''''], pr_resources = [''configmaps'', ''services'', ''namespaces'', ''replicationcontrollers''],
        pr_verbs = read_verbs\<rparr>,
      \<lparr>pr_groups = [''apps''], pr_resources = [''replicasets'', ''statefulsets''], pr_verbs = read_verbs\<rparr>,
      \<lparr>pr_groups = [''storage.k8s.io''],
        pr_resources = [''storageclasses'', ''csinodes'', ''csidrivers'', ''csistoragecapacities'', ''volumeattachments''],
        pr_verbs = read_verbs\<rparr>,
      \<lparr>pr_groups = [''policy''], pr_resources = [''poddisruptionbudgets''], pr_verbs = read_verbs\<rparr>,
      \<lparr>pr_groups = [''resource.k8s.io''], pr_resources = [''resourceclaims'', ''deviceclasses'', ''resourceslices''],
        pr_verbs = read_verbs\<rparr>,
      \<lparr>pr_groups = [''resource.k8s.io''], pr_resources = [''resourceclaims'', ''resourceclaims/status''],
        pr_verbs = [''update'', ''patch'']\<rparr>,
      \<lparr>pr_groups = [''resource.k8s.io''], pr_resources = [''podschedulingcontexts''],
        pr_verbs = read_verbs @ [''create'', ''update'', ''patch'', ''delete'']\<rparr>,
      \<lparr>pr_groups = [''resource.k8s.io''], pr_resources = [''podschedulingcontexts/status''], pr_verbs = [''update'', ''patch'']\<rparr>,
      \<lparr>pr_groups = [''''], pr_resources = [''events''], pr_verbs = [''create'', ''patch'', ''update'']\<rparr>,
      \<lparr>pr_groups = [''events.k8s.io''], pr_resources = [''events''], pr_verbs = [''create'', ''patch'', ''update'']\<rparr>,
      \<lparr>pr_groups = [''coordination.k8s.io''], pr_resources = [''leases''], pr_verbs = [''create'', ''get'', ''update'']\<rparr>,
      \<lparr>pr_groups = [''sparkscheduler.palantir.com''], pr_resources = [''resourcereservations''],
        pr_verbs = read_verbs @ [''create'', ''update'', ''patch'', ''delete'']\<rparr>,
      \<lparr>pr_groups = [''scheduling.kubenexus.io''], pr_resources = [''resourcereservations''],
        pr_verbs = read_verbs @ [''create'', ''update'', ''patch'', ''delete'']\<rparr>,
      \<lparr>pr_groups = [''scheduling.kubenexus.io''], pr_resources = [''resourcereservations/status''],
        pr_verbs = [''update'', ''patch'']\<rparr>,
      \<lparr>pr_groups = [''resource.k8s.io''], pr_resources = [''resourceclaimtemplates''], pr_verbs = read_verbs\<rparr>]"

text \<open>The verb a request is authorized as, and the authorization in front of a server.\<close>

definition authorized_verb :: "request \<Rightarrow> string" where
  "authorized_verb rq =
     (case rq_verb rq of
        PostVerb \<Rightarrow> ''create'' | PutVerb \<Rightarrow> ''update'' | DeleteVerb \<Rightarrow> ''delete''
      | GetVerb \<Rightarrow> if rq_name rq = None then ''list'' else ''get'')"

definition allows :: "policy_rule list \<Rightarrow> string \<Rightarrow> string \<Rightarrow> string \<Rightarrow> bool" where
  "allows rules grp resource verb \<longleftrightarrow>
     list_ex (\<lambda>r. grp \<in> set (pr_groups r) \<and> resource \<in> set (pr_resources r) \<and> verb \<in> set (pr_verbs r)) rules"

definition guarded :: "policy_rule list \<Rightarrow> 'w transport \<Rightarrow> 'w transport" where
  "guarded rules transport rq w =
     (if allows rules (rq_group rq) (rq_resource rq) (authorized_verb rq) then transport rq w else (Inl ''forbidden'', w))"

section \<open>Properties\<close>

lemma group_of_client:
  "rc_group_version config = Some SchemeGroupVersion \<Longrightarrow> group_of config = ''scheduling.kubenexus.io''"
  by (simp add: group_of_def SchemeGroupVersion_def GroupName_def)

lemma scheme_of_crd: "SchemeGroupVersion = (crd_group resourcereservation_crd, crd_version resourcereservation_crd)"
  "crd_plural resourcereservation_crd = ''resourcereservations''"
  by (simp_all add: SchemeGroupVersion_def GroupName_def Version_def resourcereservation_crd_def)

lemma rest_api_guarded:
  assumes "rc_group_version config = Some SchemeGroupVersion"
  shows "rest_api config (guarded deployed_role transport) = rest_api config transport"
proof -
  have allowed: "allows deployed_role ''scheduling.kubenexus.io'' ''resourcereservations'' verb"
    if "verb \<in> {''create'', ''update'', ''delete'', ''list'', ''get''}" for verb
    using that by (auto simp only: insert_iff empty_iff) (code_simp, code_simp, code_simp, code_simp, code_simp)
  show ?thesis
    by (simp add: rest_api_def rr_create_def rr_get_def rr_list_def rr_update_def rr_delete_def guarded_def authorized_verb_def
        group_of_client [OF assms] allowed fun_eq_iff)
qed

text \<open>The store of the reservations, reached through requests behind the role of the deployment, keeps the laws of
  a server that does not fail.\<close>

definition cluster_config :: rest_config where
  "cluster_config = \<lparr>rc_host = '''', rc_group_version = Some SchemeGroupVersion, rc_api_path = ''/apis'', rc_user_agent = ''''\<rparr>"

definition cluster_api :: "mem_world reservation_api" where
  "cluster_api = rest_api cluster_config (guarded deployed_role (route resourcereservation_crd mem_api))"

lemma cluster_api_mem: "cluster_api = mem_api"
  unfolding cluster_api_def
  by (subst rest_api_guarded, simp add: cluster_config_def, rule route_server.rest_api_served)
     (simp_all add: cluster_config_def scheme_of_crd)

interpretation cluster_server: reservation_server cluster_api mw_objs
  unfolding cluster_api_mem by (rule mem_server.reservation_server_axioms)

text \<open>C23: The requests the reservation plugin builds are the operations it means.  Whatever operations a server performs
  for the shipped definition, at the prefix, the group, the version and the plural it is served under, and with the
  authorization of the cluster role of the deployment in front, the client that \<^verbatim>\<open>setConfigDefaults\<close> configures
  reaches by each of its five requests exactly the operation of that name with the arguments it was given, and is never
  refused; and the role lets the classifier read namespaces.  Nothing is assumed of the answers to any other path.\<close>

theorem requests_reach_operations:
  assumes "setConfigDefaults env config = Inr config'" and "crd_server resourcereservation_crd api transport"
  shows "rest_api config' (guarded deployed_role transport) = api \<and>
    allows deployed_role '''' ''namespaces'' ''get''"
proof -
  have c: "rc_group_version config' = Some SchemeGroupVersion" "rc_api_path config' = ''/apis''"
    using assms(1) by (auto simp: setConfigDefaults_def Let_def split: option.splits if_splits)
  have "rest_api config' transport = api"
    using crd_server.rest_api_served [OF assms(2), of config'] c by (simp add: scheme_of_crd)
  moreover have "allows deployed_role '''' ''namespaces'' ''get''"
    by code_simp
  ultimately show ?thesis
    by (simp add: rest_api_guarded c)
qed

theorem requests_reach_operations_witness:
  "\<exists>config'. setConfigDefaults ex_env cluster_config = Inr config' \<and>
     rest_api config' (guarded deployed_role (route resourcereservation_crd mem_api)) = mem_api"
proof -
  obtain config' where c: "setConfigDefaults ex_env cluster_config = Inr config'"
    by (auto simp: setConfigDefaults_def ex_env_def Let_def)
  with requests_reach_operations [OF c route_server.crd_server_axioms, of mem_api] show ?thesis by blast
qed

end
