(* ===== verification/Registration.thy ===== *)
theory Registration
  imports PodGroups Deployment ReservationClient
begin

text \<open>
  The registration of the reservation types with a scheme (\<^verbatim>\<open>register.go\<close>) and the constants and
  types of \<^verbatim>\<open>pkg/scheduler/types.go\<close>, which repeat names other packages use.

  A scheme is the list of the kinds registered in it.  \<^verbatim>\<open>AddKnownTypes\<close> is documented to register every
  type under its Go name and to do nothing for one that is there; what \<^verbatim>\<open>AddToGroupVersion\<close> registers of
  Kubernetes' own kinds is a parameter.
\<close>

section \<open>The scheme\<close>

type_synonym scheme = "((string \<times> string) \<times> string) list"

fun AddKnownTypes :: "(string \<times> string) \<Rightarrow> string list \<Rightarrow> scheme \<Rightarrow> scheme" where
  "AddKnownTypes gv [] s = s"
| "AddKnownTypes gv (kind # kinds) s = AddKnownTypes gv kinds (if (gv, kind) \<in> set s then s else s @ [(gv, kind)])"

definition addKnownTypes :: "((string \<times> string) \<Rightarrow> scheme \<Rightarrow> scheme) \<Rightarrow> scheme \<Rightarrow> scheme \<times> string option" where
  "addKnownTypes add_meta scheme =
     (let scheme1 = AddKnownTypes SchemeGroupVersion [''ResourceReservation'', ''ResourceReservationList''] scheme;
          scheme2 = add_meta SchemeGroupVersion scheme1
      in (scheme2, None))"

text \<open>The builder calls the functions it was made with, until one fails.\<close>

fun run_builder :: "(scheme \<Rightarrow> scheme \<times> string option) list \<Rightarrow> scheme \<Rightarrow> scheme \<times> string option" where
  "run_builder [] scheme = (scheme, None)"
| "run_builder (f # fs) scheme =
     (case f scheme of (scheme', Some err) \<Rightarrow> (scheme', Some err) | (scheme', None) \<Rightarrow> run_builder fs scheme')"

definition AddToScheme :: "((string \<times> string) \<Rightarrow> scheme \<Rightarrow> scheme) \<Rightarrow> scheme \<Rightarrow> scheme \<times> string option" where
  "AddToScheme add_meta = run_builder [addKnownTypes add_meta]"

definition Resource :: "string \<Rightarrow> string \<times> string" where
  "Resource resource = (fst SchemeGroupVersion, resource)"

text \<open>The kinds the custom resource definition names.\<close>

definition crd_kinds :: "string list" where
  "crd_kinds = [''ResourceReservation'', ''ResourceReservationList'']"

section \<open>\<^verbatim>\<open>pkg/scheduler/types.go\<close>\<close>

definition SchedulerName :: string where "SchedulerName = ''kubenexus-scheduler''"

definition types_PodGroupNameLabel :: string where
  "types_PodGroupNameLabel = ''pod-group.scheduling.kubenexus.io/name''"

definition types_PodGroupMinAvailableLabel :: string where
  "types_PodGroupMinAvailableLabel = ''pod-group.scheduling.kubenexus.io/min-available''"

definition resource_annotations :: "string list" where
  "resource_annotations =
     [''kubenexus.io/driver-cpu'', ''kubenexus.io/driver-memory'', ''kubenexus.io/executor-cpu'',
      ''kubenexus.io/executor-memory'', ''kubenexus.io/executor-count'']"

definition dynamic_allocation_annotations :: "string list" where
  "dynamic_allocation_annotations =
     [''kubenexus.io/dynamic-allocation-enabled'', ''kubenexus.io/min-executors'', ''kubenexus.io/max-executors'']"

definition SparkAppIDLabel :: string where "SparkAppIDLabel = ''spark-app-id''"
definition SparkRoleLabel :: string where "SparkRoleLabel = ''spark-role''"

record scheduling_config =
  sc_permit_waiting_time :: duration
  sc_binpack_strategy :: string
  sc_enable_gang :: bool
  sc_enable_reservation :: bool
  sc_fifo :: bool

definition binpack_strategies :: "string list" where
  "binpack_strategies = [''distribute-evenly'', ''tightly-pack'']"

datatype pod_group_status = PodGroupPending | PodGroupScheduling | PodGroupScheduled | PodGroupFailed

fun pod_group_status_string :: "pod_group_status \<Rightarrow> string" where
  "pod_group_status_string PodGroupPending = ''Pending''"
| "pod_group_status_string PodGroupScheduling = ''Scheduling''"
| "pod_group_status_string PodGroupScheduled = ''Scheduled''"
| "pod_group_status_string PodGroupFailed = ''Failed''"

section \<open>Properties\<close>

lemma AddKnownTypes_set: "set (AddKnownTypes gv kinds s) = set s \<union> Pair gv ` set kinds"
  by (induction gv kinds s rule: AddKnownTypes.induct) auto

lemma AddKnownTypes_present: "Pair gv ` set kinds \<subseteq> set s \<Longrightarrow> AddKnownTypes gv kinds s = s"
  by (induction gv kinds s rule: AddKnownTypes.induct) auto

text \<open>Once the types are registered, every kind the definition of the custom resource names is known under the group and
  the version it is served at, the registration reports no error, and registering again adds nothing; the client of the
  reservation plugin is therefore never refused for its scheme.\<close>

theorem registration_covers_crd:
  assumes "\<And>gv s. set s \<subseteq> set (add_meta gv s)"
    and "AddToScheme add_meta s = (s', err)"
  shows "err = None \<and>
    (\<forall>kind \<in> set crd_kinds. ((crd_group resourcereservation_crd, crd_version resourcereservation_crd), kind) \<in> set s') \<and>
    AddKnownTypes SchemeGroupVersion [''ResourceReservation'', ''ResourceReservationList''] s' = s' \<and>
    Resource (crd_plural resourcereservation_crd) = (crd_group resourcereservation_crd, crd_plural resourcereservation_crd)"
proof -
  have s': "s' = add_meta SchemeGroupVersion (AddKnownTypes SchemeGroupVersion [''ResourceReservation'', ''ResourceReservationList''] s)"
    and e: "err = None"
    using assms(2) by (simp_all add: AddToScheme_def addKnownTypes_def)
  have gv: "SchemeGroupVersion = (crd_group resourcereservation_crd, crd_version resourcereservation_crd)"
    by (simp add: SchemeGroupVersion_def GroupName_def Version_def resourcereservation_crd_def)
  have sub: "Pair SchemeGroupVersion ` set [''ResourceReservation'', ''ResourceReservationList''] \<subseteq> set s'"
    unfolding s' using assms(1) AddKnownTypes_set [of SchemeGroupVersion "[''ResourceReservation'', ''ResourceReservationList'']" s]
    by blast
  then have "\<forall>kind \<in> set crd_kinds. (SchemeGroupVersion, kind) \<in> set s'"
    unfolding crd_kinds_def by blast
  then show ?thesis
    using e AddKnownTypes_present [OF sub] by (simp add: gv [symmetric]) (simp add: Resource_def gv)
qed

theorem registration_covers_crd_witness:
  "((''scheduling.kubenexus.io'', ''v1alpha1''), ''ResourceReservation'') \<in> set (fst (AddToScheme (\<lambda>gv s. s @ [(gv, ''WatchEvent'')]) []))"
proof -
  obtain s' err where s: "AddToScheme (\<lambda>gv s. s @ [(gv, ''WatchEvent'')]) [] = (s', err)" by fastforce
  have "set t \<subseteq> set (t @ [(gv, ''WatchEvent'')])" for gv and t :: scheme
    by auto
  from registration_covers_crd [OF this s] show ?thesis
    by (simp add: s crd_kinds_def resourcereservation_crd_def)
qed

lemma registered_client_configured:
  "se_add_to_scheme env = snd (AddToScheme add_meta s) \<Longrightarrow> \<exists>config'. setConfigDefaults env config = Inr config'"
  by (simp add: AddToScheme_def addKnownTypes_def setConfigDefaults_def Let_def)

text \<open>The names that \<^verbatim>\<open>types.go\<close> repeats are those in use: the labels are the ones the gang helpers and the Spark
  helpers read, and the scheduler's name is that of a profile of the image.\<close>

theorem types_repeat_names_in_use:
  "types_PodGroupNameLabel = PodGroupNameLabel \<and> types_PodGroupMinAvailableLabel = PodGroupMinAvailableLabel \<and>
   GetSparkApplicationID p = lookup_str (p_labels p) SparkAppIDLabel \<and> GetSparkRole p = lookup_str (p_labels p) SparkRoleLabel \<and>
   SchedulerName \<in> fst ` set image_config"
proof -
  have "SchedulerName \<in> fst ` set image_config"
    by (simp add: SchedulerName_def image_config_def)
  then show ?thesis
    by (simp add: types_PodGroupNameLabel_def PodGroupNameLabel_def types_PodGroupMinAvailableLabel_def PodGroupMinAvailableLabel_def
        GetSparkApplicationID_def GetSparkRole_def SparkAppIDLabel_def SparkRoleLabel_def lookup_str_def)
qed

end
