(* ===== verification/Spec2Isabelle.thy ===== *)
theory Spec2Isabelle
  imports
    GoFloat GoStrings GoParseFloat KubeTypes Interfaces PodGroups Workload Profile
    Coscheduling Preemption Reservation ReservationRuns ReservationClient
    ScoreArith WorkloadAware TopologySpread Backfill Fragmentation TenantHardware NetworkFabric
    NumaTopology Numa VramDevices VramClaims Vram
    Webhook WebhookServer
    CacheThreads GangRuns DeepCopies Metrics Reporting Deployment Pipeline Startup RestRequests Registration
begin

text \<open>
  A verification development for the KubeNexus scheduler: the plugins of a Kubernetes scheduler for
  gangs of pods on GPU clusters (\<^verbatim>\<open>src/pkg/plugins\<close>), the helpers they share (\<^verbatim>\<open>src/pkg/utils\<close>,
  \<^verbatim>\<open>src/pkg/workload\<close>) and the admission webhook (\<^verbatim>\<open>src/pkg/webhook\<close>).

  \<^bold>\<open>The program.\<close>  The scheduling framework calls the plugins at fixed points.  The queue is ordered by
  \<^verbatim>\<open>Coscheduling.Less\<close>.  For a pod, the PreFilter phase first runs \<^verbatim>\<open>ProfileClassifier\<close>, which leaves
  a profile (tenant tier, workload type, gang flag, preemptibility) in the cycle state (when the
  configuration enables it: \<^verbatim>\<open>Deployment\<close>); the later plugins
  read it with \<^verbatim>\<open>GetProfile\<close> and fall back to their own rules without it.  \<^verbatim>\<open>Coscheduling\<close> and
  \<^verbatim>\<open>ResourceReservation\<close> check and reserve for the gang, the filters drop nodes, the score plugins rank
  them, \<^verbatim>\<open>Permit\<close> holds members back, \<^verbatim>\<open>PostBind\<close> cleans the reservations up, and when no node fits
  \<^verbatim>\<open>GangPreemption\<close> chooses victims.  The webhook acts before all this, at the creation of the pod.

  \<^bold>\<open>The theories, in the order of the imports.\<close>
  \<^item> \<^verbatim>\<open>GoPrelude\<close>: 64-bit wrap-around, Go maps as association lists, time, counting.  \<^verbatim>\<open>GoFloat\<close>:
    exact \<^verbatim>\<open>float64\<close> arithmetic with round to nearest even, and \<^verbatim>\<open>int64(f)\<close>.  \<^verbatim>\<open>GoStrings\<close>: the
    parts of \<^verbatim>\<open>strings\<close>, \<^verbatim>\<open>strconv\<close> and \<^verbatim>\<open>fmt\<close> in use, with the round trip of decimal numbers.
    \<^verbatim>\<open>GoParseFloat\<close>: \<^verbatim>\<open>strconv.ParseFloat\<close> on decimal texts.
  \<^item> \<^verbatim>\<open>KubeTypes\<close>: pods, nodes, quantities, statuses and listers (locale \<^verbatim>\<open>pod_cache\<close>, interpreted by
    the lister of an informer cache).  \<^verbatim>\<open>Interfaces\<close>: the contracts several plugins share
    (\<^verbatim>\<open>strict_weak_order\<close>, \<^verbatim>\<open>slice_sorter\<close>, \<^verbatim>\<open>tier_rank\<close>, \<^verbatim>\<open>score_plugin\<close>), each interpreted by
    every component that provides it.
  \<^item> \<^verbatim>\<open>PodGroups\<close> (\<^verbatim>\<open>pkg/utils\<close>), \<^verbatim>\<open>Workload\<close> (\<^verbatim>\<open>pkg/workload\<close>), \<^verbatim>\<open>Profile\<close>
    (\<^verbatim>\<open>profileclassifier\<close>): label parsing, gang information, the two classifiers.
  \<^item> \<^verbatim>\<open>Coscheduling\<close>: the state is the map of pod groups with its atomic counter (\<^verbatim>\<open>pg_state\<close>).
    \<^verbatim>\<open>Less\<close> changes it, so it returns the new state; \<^verbatim>\<open>cache_step\<close> relates a state to the next by a
    comparison or a tick of the cleanup, and the cap, the exact counter and the shape of the entries hold
    as long as these run one after another.  The comparison is a strict weak order on tracked pods.  \<^verbatim>\<open>Permit\<close> returns
    the waiting pods it allows, \<^verbatim>\<open>Unreserve\<close> those it rejects.
    \<^verbatim>\<open>GangRuns\<close> has the runs of these two over the set of waiting pods (\<^verbatim>\<open>wait_step\<close>).
    \<^verbatim>\<open>CacheThreads\<close> has the goroutines that share the map, the queue's and the cleanup's, one atomic
    operation of the code a step (\<^verbatim>\<open>conc_step\<close>): the runs of either alone (\<^verbatim>\<open>queue_alone\<close>,
    \<^verbatim>\<open>cleanup_alone\<close>) are exactly the sequences of the operations above, together
    they make the counter drift by exactly the deletions that find nothing.
  \<^item> \<^verbatim>\<open>Preemption\<close>: the state is the map of last attempts; \<^verbatim>\<open>preempt_run\<close> is a run of the plugin with
    the log of its attempts.  The victim search is related to an abstract plan (\<^verbatim>\<open>victim_plan\<close>: the
    shortest sufficient prefix of the sorted eligible pods) from which soundness, minimality and
    completeness follow.
  \<^item> \<^verbatim>\<open>Reservation\<close>: the state is the set of tracked gangs and a world the REST client acts on.  The
    client is a record of operations; the locale \<^verbatim>\<open>reservation_server\<close> states what a server that does
    not fail promises and \<^verbatim>\<open>mem_server\<close> interprets it by a store of objects with finalizers.
    \<^verbatim>\<open>ReservationRuns\<close> has the runs of the plugin (\<^verbatim>\<open>rr_step\<close>), their refinement of a book of
    gang keys (\<^verbatim>\<open>book_step\<close>) and what follows for tracked gangs, reservations and restarts; its
    locale \<^verbatim>\<open>reliable_server\<close> extends \<^verbatim>\<open>reservation_server\<close>.
    \<^verbatim>\<open>ReservationClient\<close> has the set-up of the client and the custom resource definition it talks to
    (\<^verbatim>\<open>register.go\<close>, \<^verbatim>\<open>config/crd-resourcereservation.yaml\<close>), with what a server keeps of an object.
  \<^item> \<^verbatim>\<open>ScoreArith\<close> and the score plugins \<^verbatim>\<open>WorkloadAware\<close>, \<^verbatim>\<open>TopologySpread\<close>, \<^verbatim>\<open>Backfill\<close>,
    \<^verbatim>\<open>Fragmentation\<close>, \<^verbatim>\<open>TenantHardware\<close>, \<^verbatim>\<open>NetworkFabric\<close>: each score is shown to keep the contract
    of the framework (or shown to break it), with the preference the plugin is written for.
    \<^verbatim>\<open>NetworkFabric\<close> also has the clique filter over runs in which pods are chosen and later bound
    (\<^verbatim>\<open>placements\<close>): it keeps a gang in one partition when one member is handled at a time, and lets it be
    split when two are chosen before either is bound.
  \<^item> \<^verbatim>\<open>NumaTopology\<close> (labels to NUMA nodes, policies, GPU mapping) and \<^verbatim>\<open>Numa\<close> (filter, the five
    weighted scores, the gang placements) for \<^verbatim>\<open>numatopology\<close>.  The state is the map of gang states;
    \<^verbatim>\<open>numa_Score\<close> returns it updated and \<^verbatim>\<open>run_scores\<close> is any sequence of scores.  The filter is
    related to an abstract capacity test, the score to the best of the fitting NUMA nodes, and the gang
    state to an invariant kept by every run.
  \<^item> \<^verbatim>\<open>VramDevices\<close> (\<^verbatim>\<open>getNodeGPUTopology\<close> over the three sources: resource slices, NFD labels, node
    labels), \<^verbatim>\<open>VramClaims\<close> (the request of a pod: resource claims, the texts of their selectors,
    annotations) and \<^verbatim>\<open>Vram\<close> (filter and score) for \<^verbatim>\<open>vramscheduler\<close>.  The loops over devices are
    shown to compute the minimum and the group sizes they stand for; filter and score are stated over
    those.
  \<^item> \<^verbatim>\<open>Webhook\<close>: the decision and the JSON patch, applied operation by operation to the document of the
    pod as RFC 6901 and RFC 6902 say.
    \<^verbatim>\<open>WebhookServer\<close> (\<^verbatim>\<open>cmd/webhook/main.go\<close>): the process around it, its two goroutines and
    the flag they share (\<^verbatim>\<open>process_step\<close>), the requests in flight and the seconds of the shutdown, the routes, an
    invariant of every reachable state, and that every order of events after a signal ends the process.
  \<^item> \<^verbatim>\<open>DeepCopies\<close> (\<^verbatim>\<open>zz_generated.deepcopy.go\<close>): the generated copies on a heap of cells, where
    other theories have values.  The locale \<^verbatim>\<open>go_copier\<close> says what the copiers of Kubernetes promise.
    A copy says the same and shares with its original exactly the cells the generated code forgets.
  \<^item> \<^verbatim>\<open>Metrics\<close> (\<^verbatim>\<open>pkg/scheduler/metrics.go\<close>): the Prometheus vectors and what the client accepts.
    \<^verbatim>\<open>Reporting\<close>: the operations of the plugins with what they report, each an instance of the locale
    \<^verbatim>\<open>reporter\<close>, which says that the reports change no result and that the client accepts them.
  \<^item> \<^verbatim>\<open>Deployment\<close> (\<^verbatim>\<open>cmd/scheduler/main.go\<close>, \<^verbatim>\<open>config\<close>, \<^verbatim>\<open>deploy\<close>): the registry,
    the plugin sets of the shipped configurations, and the PreFilter phase each of them gives beside the
    plugins Kubernetes enables by itself.
    \<^verbatim>\<open>Pipeline\<close>: a cycle of a pod in the deployment, its Filter and Score plugins composed as the
    framework composes them (\<^verbatim>\<open>schedule_pod\<close>), and the runs of such cycles with the bindings that
    follow them asynchronously (\<^verbatim>\<open>deployed_run\<close>),
    which refine the placements of \<^verbatim>\<open>NetworkFabric\<close>; what the single filters promise of a pod and a node
    holds of the whole cluster, and the totals of the score plugins are bounded unless the one plugin that can break its contract does.
    \<^verbatim>\<open>Startup\<close>: the constructors, the start of the enabled plugins, and the two cleanup goroutines as
    loops over their ticks.  \<^verbatim>\<open>RestRequests\<close>: the requests the reservation client builds, with the path
    its configuration gives them, what a server that serves the shipped definition answers to such a path (locale
    \<^verbatim>\<open>crd_server\<close>), the authorization in front of it (\<^verbatim>\<open>deploy/kubenexus-scheduler.yaml\<close>), and that the operations of
    \<^verbatim>\<open>Reservation\<close> are what comes out.
    \<^verbatim>\<open>Registration\<close>: the scheme (\<^verbatim>\<open>register.go\<close>) and the names of
    \<^verbatim>\<open>pkg/scheduler/types.go\<close>.
  \<^item> This theory: what one tier label causes across the webhook, the classifier and the hardware score,
    what the three PreFilter plugins make of a gang that is declared by labels, and where the plugins
    agree on the order of the tiers (an instance of \<^verbatim>\<open>linorder\<close>).

  \<^bold>\<open>How code is modelled.\<close>  A Go function is a definition of the same name (with the plugin as a prefix
  where two plugins share a name).  \<^verbatim>\<open>int\<close> and \<^verbatim>\<open>int64\<close> arithmetic on values from the cluster wraps at 64
  bits; counters bounded by the length of a slice do not.  A loop is a recursion over its slice, or for a
  counted loop on the number of iterations left, and no fuel is needed.  The one loop that may not end, over
  a CPU range, is a \<^verbatim>\<open>partial_function (option)\<close>; in the NUMA and VRAM plugins \<open>None\<close> stands for a
  call that does not return: that loop, or a panic of \<^verbatim>\<open>make\<close> on a length out of range.
  Errors are the left of a sum, with the text the code builds; a status is a code and a text.  A reading
  of the clock, the order of a map's iteration, \<^verbatim>\<open>sort.Slice\<close>, \<^verbatim>\<open>Quantity.Add\<close>, the API clients and the
  JSON decoders are arguments; what a theorem needs of them is a hypothesis or a locale.  Strings are byte
  lists and case mapping is that of ASCII, the alphabet of Kubernetes names and label values.  Floating
  point is that of amd64, without fused operations.

  \<^bold>\<open>What is not modelled.\<close>  Logging; the settings of TLS, which are passed to a library; the fakes of the Go
  tests; the concurrency of calls other than those of
  \<^verbatim>\<open>CacheThreads\<close> and \<^verbatim>\<open>WebhookServer\<close>: elsewhere one call of a handler runs without another in
  between.  Of the framework, which is not part of the repository, only documented rules are used: which plugin sets
  it accepts (\<^verbatim>\<open>Deployment\<close>), the order of the PreFilter plugins and that some answers may end the phase, that every filter has to accept a
  node, that scores are range-checked, weighted and added, and that a single node is not scored
  (\<^verbatim>\<open>Pipeline\<close>, where the nodes are scored one after another).  The later phases of a pod are not joined to
  that cycle: Permit and Unreserve have their own runs (\<^verbatim>\<open>GangRuns\<close>), the reservations theirs
  (\<^verbatim>\<open>ReservationRuns\<close>), and of what lies between choice and binding only the delay is kept, during which
  other pods are chosen and bound (\<^verbatim>\<open>placements\<close>, \<^verbatim>\<open>deployed_run\<close>).  The nodes, the resource slices and the
  claims do not change during such a run.  Running out of memory is not modelled: a slice is as long as its elements.
\<close>

section \<open>The GPU class of a tier is hardware of that tier\<close>

fun gpu_class_of :: "tenant_tier \<Rightarrow> string" where
  "gpu_class_of TierGold = GPUClassH100"
| "gpu_class_of TierSilver = GPUClassA100"
| "gpu_class_of TierBronze = GPUClassL4"
| "gpu_class_of TierUnknown = ''''"

lemma gpu_classes: "GPUClassH100 \<noteq> ''''" "GPUClassA100 \<noteq> ''''" "GPUClassL4 \<noteq> ''''"
  by (simp_all add: GPUClassH100_def GPUClassA100_def GPUClassL4_def)

lemma gpu_class_tiers:
  "inferTierFromGPUModel GPUClassH100 = TierPremium" "inferTierFromGPUModel GPUClassA100 = TierStandard"
  "inferTierFromGPUModel GPUClassL4 = TierEconomy"
  by code_simp+

section \<open>One order of tiers\<close>

context tier_rank
begin

lemma rank_tier: "TierUnknown < s \<Longrightarrow> TierUnknown < t \<Longrightarrow> rank (tier_string s) < rank (tier_string t) \<longleftrightarrow> s < t"
  by (cases s; cases t) (simp_all add: tier_order rank_gold rank_silver rank_bronze)

end

text \<open>Three plugins rank the tenants, each with a table of its own; they agree on the order of the known
  tiers.\<close>

theorem tiers_ranked_alike:
  assumes "TierUnknown < s" and "TierUnknown < t"
  shows "(getTierPriority (tier_string s) < getTierPriority (tier_string t) \<longleftrightarrow> s < t) \<and>
    (bf_tierPriority (tier_string s) < bf_tierPriority (tier_string t) \<longleftrightarrow> s < t) \<and>
    (frag_tierPriority (tier_string s) < frag_tierPriority (tier_string t) \<longleftrightarrow> s < t)"
  using preempt_tier.rank_tier [OF assms] backfill_tier.rank_tier [OF assms] frag_tier.rank_tier [OF assms] by simp

text \<open>On a tenant without a tier they do not: it counts as bronze for preemption and for GPU islands, as
  less than bronze for backfilling, and as silver for the hardware affinity and for GPU memory.\<close>

theorem unknown_tier_disagreement:
  "getTierPriority (tier_string TierUnknown) = getTierPriority (tier_string TierBronze) \<and>
   frag_tierPriority (tier_string TierUnknown) = frag_tierPriority (tier_string TierBronze) \<and>
   bf_tierPriority (tier_string TierUnknown) < bf_tierPriority (tier_string TierBronze) \<and>
   mapTenantTierToPriority TierUnknown = mapTenantTierToPriority TierSilver \<and>
   tier_thresholds (tier_string TierUnknown) = tier_thresholds (tier_string TierSilver)"
proof -
  have "getTierPriority ''unknown'' = 1" "frag_tierPriority ''unknown'' = 1" "frag_tierPriority ''bronze'' = 1"
    "bf_tierPriority ''unknown'' = 0" "bf_tierPriority ''bronze'' = 1"
    "tier_thresholds ''unknown'' = SilverThresholds" "tier_thresholds ''silver'' = SilverThresholds" by code_simp+
  then show ?thesis by simp
qed

section \<open>Properties that span components\<close>

text \<open>C17: The tier label of a namespace reaches the webhook, the classifier and the tenant-hardware plugin as the
  same tier: for a pod that requests GPUs and names no class, in a namespace whose label parses to a tier, the
  webhook answers with the patch that pins the GPU class of that tier, the profile the classifier leaves in the
  cycle state carries that tier, and every node that has no hardware-tier label of its own and whose GPU model is
  labelled with that class gets the score 100 from the tenant-hardware plugin under that profile.\<close>

theorem tier_label_end_to_end:
  assumes "client (p_ns p) = Inr nsl" and "lookup nsl tier_label = Some t" and "parseTenantTier t \<noteq> TierUnknown"
    and "requestsGPUs p" and "\<not> hasGPUClassNodeSelector p"
    and "rq_kind rq = ''Pod''" and "rq_namespace rq = p_ns p" and "unmarshal (rq_object rq) = Inr p"
    and "ni_node ni = Some n" and "lookup (n_labels n) LabelHardwareTier = None"
    and "lookup (n_labels n) th_LabelGPUModel = Some (getTierGPUClass t)"
  shows "ar_patch (mutate unmarshal client (Some rq)) = Some (createNodeSelectorPatches p (getTierGPUClass t)) \<and>
    (\<exists>prof. GetProfile (Some (fst (profile_PreFilter client cs p))) = Inr prof \<and> sp_tier prof = parseTenantTier t) \<and>
    fst (TenantHardware_Score (Some (fst (profile_PreFilter client cs p))) p' ni) = 100"
proof -
  have t: "to_lower t = tier_string (parseTenantTier t)" "t \<noteq> ''''"
    using assms(3) by (auto simp: parseTenantTier_def Let_def split: if_splits)
  have tier: "fst (classifyTenant client p) = parseTenantTier t"
    by (rule namespace_tier_wins [of client p nsl t, OF assms(1,2,3)])
  have g: "getTierGPUClass t = gpu_class_of (parseTenantTier t)" "getTierGPUClass (to_lower t) = getTierGPUClass t"
    using assms(3) by (auto simp: getTierGPUClass_def parseTenantTier_def Let_def split: if_splits)
  have "lookup_nonempty nsl TenantTierLabel = Some t"
    using assms(2) t(2) by (simp add: lookup_nonempty_def TenantTierLabel_def)
  then have "getNamespaceTier client (rq_namespace rq) = Inr (to_lower t)"
    using assms(1,7) by (simp add: getNamespaceTier_def)
  moreover have "getTierGPUClass (to_lower t) \<noteq> ''''" using g assms(3) by (cases "parseTenantTier t") (simp_all add: gpu_classes)
  ultimately have "mutate unmarshal client (Some rq) = allowed\<lparr>ar_patch := Some (createNodeSelectorPatches p (getTierGPUClass t))\<rparr>"
    using mutate_pod [of rq unmarshal p client, OF assms(6,8)] assms(4,5) g(2) by simp
  moreover obtain prof where prof: "GetProfile (Some (fst (profile_PreFilter client cs p))) = Inr prof" "sp_tier prof = parseTenantTier t"
    using tier by (cases "classifyTenant client p") (simp add: profile_PreFilter_def GetProfile_def classifyPod_def)
  have "getHardwareTier n = hardware_for (sp_tier prof)"
    using assms(3,10,11) g(1) prof(2) by (cases "parseTenantTier t") (simp_all add: getHardwareTier_def gpu_class_tiers)
  then have "fst (TenantHardware_Score (Some (fst (profile_PreFilter client cs p))) p' ni) = 100"
    using prof assms(9) by (simp add: TenantHardware_Score_def getTenantPriorityFromProfile_def affinity_perfect)
  ultimately show ?thesis using prof by simp
qed

definition ex_gold_client :: ns_client where
  "ex_gold_client ns = (if ns = ''ml'' then Inr [(tier_label, ''Gold'')] else Inl ''not found'')"

lemma tier_label_end_to_end_witness:
  "ar_patch (mutate (\<lambda>_. Inr (ex_wpod\<lparr>p_ns := ''ml''\<rparr>)) ex_gold_client (Some ex_request)) =
     Some (createNodeSelectorPatches (ex_wpod\<lparr>p_ns := ''ml''\<rparr>) GPUClassH100) \<and>
   fst (TenantHardware_Score (Some (fst (profile_PreFilter ex_gold_client (Map.empty :: unit cycle_state) (ex_wpod\<lparr>p_ns := ''ml''\<rparr>))))
     (ex_wpod\<lparr>p_ns := ''ml''\<rparr>) (ex_th_node GPUClassH100)) = 100"
proof -
  let ?p = "ex_wpod\<lparr>p_ns := ''ml''\<rparr>"
  let ?n = "\<lparr>n_name = ''n'', n_labels = [(th_LabelGPUModel, GPUClassH100)], n_allocatable = [], n_capacity = []\<rparr>"
  have c: "ex_gold_client (p_ns ?p) = Inr [(tier_label, ''Gold'')]" by (simp add: ex_gold_client_def)
  have t: "lookup [(tier_label, ''Gold'')] tier_label = Some ''Gold''" "parseTenantTier ''Gold'' \<noteq> TierUnknown"
    "getTierGPUClass ''Gold'' = GPUClassH100" by code_simp+
  have r: "requestsGPUs ?p" "\<not> hasGPUClassNodeSelector ?p" by code_simp+
  have q: "rq_kind ex_request = ''Pod''" "rq_namespace ex_request = p_ns ?p" by (simp_all add: ex_request_def)
  have n: "ni_node (ex_th_node GPUClassH100) = Some ?n" by (simp add: ex_th_node_def)
  have l: "lookup (n_labels ?n) LabelHardwareTier = None" "lookup (n_labels ?n) th_LabelGPUModel = Some (getTierGPUClass ''Gold'')"
    using t(3) by (simp_all add: LabelHardwareTier_def th_LabelGPUModel_def)
  note e = tier_label_end_to_end [of ex_gold_client ?p "[(tier_label, ''Gold'')]" "''Gold''" ex_request "\<lambda>_. Inr ?p"
      "ex_th_node GPUClassH100" ?n, OF c t(1,2) r q refl n l, unfolded t(3)]
  show ?thesis using conjunct1 [OF e] conjunct2 [OF conjunct2 [OF e]] by blast
qed

text \<open>C19: With the profile classifier in front, a gang that is too small still gets its reservation. For a pod
  labelled as a member of a gang of at least two, none of whose keys the classifier looks for, and of
  whose gang fewer pods than the minimum exist: without a profile the PreFilter of coscheduling answers
  Unschedulable; after the classifier's PreFilter it answers success, and the PreFilter of
  resource reservation, when it does not track the gang yet, succeeds and creates on the in-memory server, which
  does not fail and has no object of the reservation's name in the namespace, a reservation of the gang with one
  entry for each of the members the gang needs.\<close>

theorem undersized_gang_reserves:
  assumes "pg_labels p = Inr (g, m)" and "2 \<le> m" and "\<not> isGangPod p" and "calculateTotalPods lister g (p_ns p) < m"
    and "GetPodGroupKey (p_ns p) g \<notin> set (tracked_gangs st)"
    and "\<forall>x \<in> set (mw_objs (rr_world st)). \<not> (rv_ns x = p_ns p \<and> rv_name x = g @ ''-reservation'')"
    and "cs' = fst (profile_PreFilter client cs p)" and "reservation_PreFilter mem_api cs' p st = (s, cs'', st')"
  shows "st_code (snd (cosched_PreFilter lister None p)) = Unschedulable \<and>
    snd (cosched_PreFilter lister (Some cs') p) = success \<and> s = success \<and>
    (\<exists>x. mw_objs (rr_world st') = x # mw_objs (rr_world st) \<and> of_group g x \<and> int (length (rv_reservations x)) = m)"
proof -
  have "i64 m" using GetPodGroupLabels_Inr [OF assms(1)] assms(2) by auto
  then have n: "int (length (rv_reservations (gang_reservation p g m))) = m"
    using gang_reservation_entries [of m p g] assms(2) by simp
  have "\<forall>x \<in> set (mw_objs (rr_world st)). \<not> same_id x (gang_reservation p g m)"
    using assms(6) by (auto simp: same_id_def gang_reservation_def)
  from mem_server.create_objs [OF this] obtain t w where
    w: "api_create mem_api (gang_reservation p g m) (rr_world st) = (Inr (gang_reservation p g m\<lparr>rv_created := t\<rparr>), w)"
      "mw_objs w = gang_reservation p g m\<lparr>rv_created := t\<rparr> # mw_objs (rr_world st)" by blast
  have "isGangMember p" "g \<noteq> ''''" using isGangMember_labels [OF assms(1,2)] by simp_all
  with assms(1,5,8) w have "s = success \<and> mw_objs (rr_world st') = gang_reservation p g m\<lparr>rv_created := t\<rparr> # mw_objs (rr_world st)"
    by (auto simp: reservation_PreFilter_def createGangReservations_def GetPodGroupKey_def Let_def)
  moreover have "of_group g (gang_reservation p g m)" by (simp add: of_group_def gang_reservation_def lookup_str_def)
  moreover have "st_code (snd (cosched_PreFilter lister None p)) = Unschedulable"
    using assms(1,2,4) by (simp add: cosched_PreFilter_counts)
  moreover have "snd (cosched_PreFilter lister (Some cs') p) = success"
    using labelled_gang_bypasses_PreFilter [OF assms(3), of lister client cs] assms(7) by simp
  ultimately show ?thesis using n by (auto simp: of_group_def)
qed

lemma undersized_gang_reserves_witness:
  "\<exists>x. mw_objs (rr_world (snd (snd (reservation_PreFilter mem_api
     (fst (profile_PreFilter ex_ns_client Map.empty ex_rpod)) ex_rpod ex_rr)))) = [x] \<and> length (rv_reservations x) = 3"
proof -
  let ?cs = "fst (profile_PreFilter ex_ns_client Map.empty ex_rpod)"
  obtain s cs'' st' where r: "reservation_PreFilter mem_api ?cs ex_rpod ex_rr = (s, cs'', st')"
    by (cases "reservation_PreFilter mem_api ?cs ex_rpod ex_rr")
  have g: "\<not> isGangPod ex_rpod" "calculateTotalPods (cache_lister []) ''w'' (p_ns ex_rpod) < 3" by code_simp+
  have e: "tracked_gangs ex_rr = []" "mw_objs (rr_world ex_rr) = []" by code_simp+
  from undersized_gang_reserves [OF ex_rpod_labels _ g _ _ refl r] show ?thesis by (auto simp: e r)
qed

end
